(* ===== verification/Prelude.thy ===== *)
theory Prelude
  imports Main "HOL-Library.Word" "HOL-Library.Char_ord" "HOL-Library.List_Lexorder"
    "HOL-Library.AList" "HOL-Library.Sublist"
begin

text \<open>
  The shared vocabulary of the development: results of fallible code, three-way comparison,
  splitting and joining of strings, and decimal numerals.  Nothing here models a particular file
  of the program except the result type of \<^verbatim>\<open>core/result/result.hpp\<close>; the rest is the part of the
  C++ library the program uses, with the lemmas the component theories share.
\<close>

section \<open>Collections of facts\<close>

named_theorems result_simps "evaluation of result-valued code"
named_theorems split_facts "splitting and joining of strings"
named_theorems card_simps "effect of card operations on the stored files"

section \<open>Results\<close>

text \<open>A result is a sum: \<^const>\<open>Inl\<close> carries the error, \<^const>\<open>Inr\<close> the value.\<close>

type_synonym ('e, 'a) result = "'e + 'a"

definition has_value :: "('e, 'a) result \<Rightarrow> bool" where
  "has_value r = (case r of Inl _ \<Rightarrow> False | Inr _ \<Rightarrow> True)"

definition value_or :: "('e, 'a) result \<Rightarrow> 'a \<Rightarrow> 'a" where
  "value_or r d = (case r of Inl _ \<Rightarrow> d | Inr v \<Rightarrow> v)"

text \<open>Continue with the value, or return the error early.\<close>

definition bindE :: "('e, 'a) result \<Rightarrow> ('a \<Rightarrow> ('e, 'b) result) \<Rightarrow> ('e, 'b) result" where
  "bindE r f = (case r of Inl e \<Rightarrow> Inl e | Inr v \<Rightarrow> f v)"

lemma bindE_simps [simp, result_simps]:
  "bindE (Inl e) f = Inl e"
  "bindE (Inr v) f = f v"
  by (simp_all add: bindE_def)

lemma bindE_Inr_iff: "bindE r f = Inr y \<longleftrightarrow> (\<exists>x. r = Inr x \<and> f x = Inr y)"
  by (cases r) auto

lemma bindE_assoc: "bindE (bindE r f) g = bindE r (\<lambda>x. bindE (f x) g)"
  by (cases r) auto

lemma has_value_simps [simp, result_simps]:
  "has_value (Inl e) = False"
  "has_value (Inr v) = True"
  by (simp_all add: has_value_def)

lemma has_value_iff: "has_value r \<longleftrightarrow> (\<exists>v. r = Inr v)"
  by (cases r) auto

lemma value_or_simps [simp, result_simps]:
  "value_or (Inl e) d = d"
  "value_or (Inr v) d = v"
  by (simp_all add: value_or_def)

text \<open>Traverse a list, stopping at the first error.\<close>

fun mapE :: "('a \<Rightarrow> ('e, 'b) result) \<Rightarrow> 'a list \<Rightarrow> ('e, 'b list) result" where
  "mapE f [] = Inr []"
| "mapE f (x # xs) = bindE (f x) (\<lambda>y. bindE (mapE f xs) (\<lambda>ys. Inr (y # ys)))"

lemma mapE_Inr_iff: "mapE f xs = Inr ys \<longleftrightarrow> list_all2 (\<lambda>x y. f x = Inr y) xs ys"
  by (induction xs arbitrary: ys) (auto simp: bindE_Inr_iff list_all2_Cons1)

lemma mapE_map_Inr: "(\<And>y. y \<in> set ys \<Longrightarrow> f (g y) = Inr y) \<Longrightarrow> mapE f (map g ys) = Inr ys"
  by (induction ys) auto

section \<open>Substrings\<close>

text \<open>\<^verbatim>\<open>find("..") != npos\<close>.\<close>

fun has_dotdot :: "string \<Rightarrow> bool" where
  "has_dotdot (a # b # cs) = (a = CHR ''.'' \<and> b = CHR ''.'' \<or> has_dotdot (b # cs))"
| "has_dotdot _ = False"

section \<open>Three-way comparison\<close>

text \<open>The C++ \<^verbatim>\<open>std::strong_ordering\<close>, and \<^verbatim>\<open><=>\<close> on a linearly ordered type.  Strings are ordered
  lexicographically by byte value, as \<^verbatim>\<open>std::string_view\<close> orders them.\<close>

datatype strong_ordering = Less | Equal | Greater

definition spaceship :: "'a::linorder \<Rightarrow> 'a \<Rightarrow> strong_ordering" where
  "spaceship a b = (if a < b then Less else if a = b then Equal else Greater)"

fun flip :: "strong_ordering \<Rightarrow> strong_ordering" where
  "flip Less = Greater"
| "flip Equal = Equal"
| "flip Greater = Less"

lemma flip_flip [simp]: "flip (flip c) = c"
  by (cases c) simp_all

definition or_else :: "strong_ordering \<Rightarrow> strong_ordering \<Rightarrow> strong_ordering" where
  "or_else c d = (if c \<noteq> Equal then c else d)"

lemma or_else_simps [simp]:
  "or_else Less d = Less" "or_else Equal d = d" "or_else Greater d = Greater"
  by (simp_all add: or_else_def)

lemma spaceship_simps [simp]:
  "spaceship a a = Equal"
  "spaceship a b = Equal \<longleftrightarrow> a = b"
  "spaceship a b = Less \<longleftrightarrow> a < b"
  "spaceship a b = Greater \<longleftrightarrow> b < a"
  by (auto simp: spaceship_def)

text \<open>The contract of a comparison that sorts, and what a client that only asks whether one side is
  greater may rely on.\<close>

locale three_way =
  fixes cmp :: "'a \<Rightarrow> 'a \<Rightarrow> strong_ordering"
  assumes cmp_refl: "cmp a a = Equal"
    and cmp_flip: "cmp b a = flip (cmp a b)"
    and cmp_trans: "cmp a b \<noteq> Greater \<Longrightarrow> cmp b c \<noteq> Greater \<Longrightarrow> cmp a c \<noteq> Greater"
    and cmp_Equal_left: "cmp a b = Equal \<Longrightarrow> cmp a c = cmp b c"
begin

lemma greater_irrefl: "cmp a a \<noteq> Greater"
  by (simp add: cmp_refl)

lemma greater_asym: "cmp a b = Greater \<Longrightarrow> cmp b a = Less"
  using cmp_flip [of b a] by simp

lemma flip_Greater: "cmp a b = Less \<longleftrightarrow> cmp b a = Greater"
  using cmp_flip [of a b] by (cases "cmp b a") auto

lemma cmp_Equal_right: "cmp b c = Equal \<Longrightarrow> cmp a b = cmp a c"
  using cmp_Equal_left [of b c a] cmp_flip [of a b] cmp_flip [of a c] by simp

lemma greater_trans: "cmp a b = Greater \<Longrightarrow> cmp b c = Greater \<Longrightarrow> cmp a c = Greater"
proof -
  assume ab: "cmp a b = Greater" and bc: "cmp b c = Greater"
  have "cmp c b \<noteq> Greater" using bc greater_asym by fastforce
  show "cmp a c = Greater"
  proof (rule ccontr)
    assume "cmp a c \<noteq> Greater"
    with \<open>cmp c b \<noteq> Greater\<close> have "cmp a b \<noteq> Greater" using cmp_trans by blast
    with ab show False by simp
  qed
qed

lemma total: "cmp a b = Greater \<or> cmp b a = Greater \<or> cmp a b = Equal"
  using cmp_flip [of b a] by (cases "cmp a b") auto

end

lemma three_way_spaceship: "three_way (spaceship :: 'a::linorder \<Rightarrow> _)"
proof
  fix a b c :: 'a
  show "spaceship b a = flip (spaceship a b)"
    by (cases a b rule: linorder_cases) (auto simp: spaceship_def)
qed (auto simp: spaceship_def split: if_splits)

lemma three_way_via: "three_way cmp \<Longrightarrow> three_way (\<lambda>a b. cmp (f a) (f b))"
  unfolding three_way_def by blast

lemma three_way_or_else:
  assumes "three_way f" and "three_way g"
  shows "three_way (\<lambda>a b. or_else (f a b) (g a b))"
proof -
  note f = three_way.cmp_refl [OF assms(1)] three_way.cmp_flip [OF assms(1)]
    three_way.cmp_trans [OF assms(1)] three_way.cmp_Equal_left [OF assms(1)]
  note g = three_way.cmp_refl [OF assms(2)] three_way.cmp_flip [OF assms(2)]
    three_way.cmp_trans [OF assms(2)] three_way.cmp_Equal_left [OF assms(2)]
  show ?thesis
  proof
    fix a b c
    show "or_else (f a a) (g a a) = Equal" by (simp add: f(1) g(1))
    show "or_else (f b a) (g b a) = flip (or_else (f a b) (g a b))"
      using f(2) [of b a] g(2) [of b a] by (cases "f a b") auto
    show "or_else (f a b) (g a b) = Equal \<Longrightarrow> or_else (f a c) (g a c) = or_else (f b c) (g b c)"
      using f(4) [of a b c] g(4) [of a b c] by (cases "f a b") auto
    assume 1: "or_else (f a b) (g a b) \<noteq> Greater" and 2: "or_else (f b c) (g b c) \<noteq> Greater"
    then have ac: "f a c \<noteq> Greater" using f(3) [of a b c] by (auto simp: or_else_def split: if_splits)
    show "or_else (f a c) (g a c) \<noteq> Greater"
    proof (cases "f a c")
      case Equal
      with f(4) [of a c b] f(2) [of b c] have "f a b = flip (f b c)" by simp
      with 1 2 have "f a b = Equal" "f b c = Equal" by (cases "f b c"; auto)+
      with 1 2 Equal g(3) [of a b c] show ?thesis by simp
    qed (use ac in auto)
  qed
qed

section \<open>Splitting and joining\<close>

text \<open>The loop every parser of the program uses: find the separator, cut before it, go on after it.\<close>

function split_on :: "char \<Rightarrow> string \<Rightarrow> string list" where
  "split_on sep s =
     (case dropWhile (\<lambda>c. c \<noteq> sep) s of
        [] \<Rightarrow> [s]
      | _ # rest \<Rightarrow> takeWhile (\<lambda>c. c \<noteq> sep) s # split_on sep rest)"
  by pat_completeness auto
termination
proof (relation "measure (\<lambda>(sep, s). length s)")
  fix sep s c and rest :: string
  assume "dropWhile (\<lambda>c. c \<noteq> sep) s = c # rest"
  then have "length (c # rest) \<le> length s"
    by (metis length_dropWhile_le)
  then show "((sep, rest), sep, s) \<in> measure (\<lambda>(sep, s). length s)" by simp
qed simp

declare split_on.simps [simp del]

fun join_with :: "char \<Rightarrow> string list \<Rightarrow> string" where
  "join_with sep [] = []"
| "join_with sep [x] = x"
| "join_with sep (x # y # xs) = x @ sep # join_with sep (y # xs)"

lemma split_on_Nil [simp]: "split_on sep [] = [[]]"
  by (simp add: split_on.simps)

lemma split_on_Cons_sep [simp]: "split_on sep (sep # s) = [] # split_on sep s"
  by (subst split_on.simps) simp

lemma split_on_not_Nil [simp]: "split_on sep s \<noteq> []" "[] \<noteq> split_on sep s"
  using split_on.simps [of sep s] by (auto split: list.splits)

lemma split_on_Cons_other:
  assumes "c \<noteq> sep"
  shows "split_on sep (c # s) = (c # hd (split_on sep s)) # tl (split_on sep s)"
proof (cases "dropWhile (\<lambda>c. c \<noteq> sep) s")
  case Nil
  have "split_on sep (c # s) = [c # s]" "split_on sep s = [s]"
    by (subst split_on.simps, simp add: Nil assms)+
  then show ?thesis by simp
next
  case (Cons d rest)
  have "split_on sep (c # s) = takeWhile (\<lambda>c. c \<noteq> sep) (c # s) # split_on sep rest"
    "split_on sep s = takeWhile (\<lambda>c. c \<noteq> sep) s # split_on sep rest"
    by (subst split_on.simps, simp add: Cons assms)+
  then show ?thesis using assms by simp
qed

lemma split_on_Cons:
  "split_on sep (c # s) =
     (if c = sep then [] # split_on sep s
      else (c # hd (split_on sep s)) # tl (split_on sep s))"
  by (simp add: split_on_Cons_other)

lemma split_on_free [simp, split_facts]: "sep \<notin> set s \<Longrightarrow> split_on sep s = [s]"
  by (induction s) (auto simp: split_on_Cons)

lemma split_on_append_sep [split_facts]:
  "split_on sep (a @ sep # b) = split_on sep a @ split_on sep b"
  by (induction a) (auto simp: split_on_Cons)

lemma join_with_Cons: "xs \<noteq> [] \<Longrightarrow> join_with sep (x # xs) = x @ sep # join_with sep xs"
  by (cases xs) auto

lemma join_with_Cons_Cons_hd: "join_with sep ((c # x) # xs) = c # join_with sep (x # xs)"
  by (cases xs) auto

lemma join_split [simp, split_facts]: "join_with sep (split_on sep s) = s"
  by (induction s) (auto simp: split_on_Cons join_with_Cons join_with_Cons_Cons_hd)

lemma split_join [split_facts]:
  "ps \<noteq> [] \<Longrightarrow> (\<And>p. p \<in> set ps \<Longrightarrow> sep \<notin> set p) \<Longrightarrow> split_on sep (join_with sep ps) = ps"
  by (induction sep ps rule: join_with.induct) (auto simp: split_on_append_sep)

lemma split_on_parts_free [split_facts]: "p \<in> set (split_on sep s) \<Longrightarrow> sep \<notin> set p"
proof (induction s arbitrary: p)
  case (Cons c s)
  have "hd (split_on sep s) \<in> set (split_on sep s)" by simp
  moreover have "set (tl (split_on sep s)) \<subseteq> set (split_on sep s)"
    by (cases "split_on sep s") auto
  ultimately show ?case using Cons by (auto simp: split_on_Cons split: if_splits)
qed simp

lemma join_with_part_subset: "p \<in> set ps \<Longrightarrow> set p \<subseteq> set (join_with sep ps)"
  by (induction sep ps rule: join_with.induct) auto

lemma split_on_part_subset [split_facts]: "p \<in> set (split_on sep s) \<Longrightarrow> set p \<subseteq> set s"
  using join_with_part_subset [of p "split_on sep s" sep] by simp

lemma split_on_inject [split_facts]: "split_on sep a = split_on sep b \<longleftrightarrow> a = b"
  by (metis join_split)

text \<open>What is in front of, and behind, the first occurrence of a character.\<close>

definition before :: "char \<Rightarrow> string \<Rightarrow> string" where
  "before sep s = takeWhile (\<lambda>c. c \<noteq> sep) s"

definition after :: "char \<Rightarrow> string \<Rightarrow> string" where
  "after sep s = tl (dropWhile (\<lambda>c. c \<noteq> sep) s)"

lemma takeWhile_free [simp]: "sep \<notin> set s \<Longrightarrow> takeWhile (\<lambda>c. c \<noteq> sep) s = s"
  by (induction s) auto

lemma dropWhile_free [simp]: "sep \<notin> set s \<Longrightarrow> dropWhile (\<lambda>c. c \<noteq> sep) s = []"
  by (induction s) auto

lemma dropWhile_Nil_free: "dropWhile (\<lambda>c. c \<noteq> sep) s = [] \<longleftrightarrow> sep \<notin> set s"
  by (induction s) auto

lemma before_after: "sep \<in> set s \<Longrightarrow> before sep s @ sep # after sep s = s"
  unfolding before_def after_def by (induction s) auto

lemma before_append_sep [simp]: "sep \<notin> set a \<Longrightarrow> before sep (a @ sep # b) = a"
  unfolding before_def by (induction a) auto

lemma after_append_sep [simp]: "sep \<notin> set a \<Longrightarrow> after sep (a @ sep # b) = b"
  unfolding after_def by (induction a) auto

lemma before_free: "sep \<notin> set (before sep s)"
  unfolding before_def using set_takeWhileD by fastforce

section \<open>Decimal numerals\<close>

definition digit_char :: "nat \<Rightarrow> char" where
  "digit_char d = char_of (48 + d)"

fun show_nat :: "nat \<Rightarrow> string" where
  "show_nat n = (if n < 10 then [digit_char n] else show_nat (n div 10) @ [digit_char (n mod 10)])"

declare show_nat.simps [simp del]

definition is_digit :: "char \<Rightarrow> bool" where
  "is_digit c = (c \<ge> CHR ''0'' \<and> c \<le> CHR ''9'')"

definition digit_val :: "char \<Rightarrow> nat" where
  "digit_val c = of_char c - 48"

definition num_val :: "string \<Rightarrow> nat" where
  "num_val s = foldl (\<lambda>a c. a * 10 + digit_val c) 0 s"

lemma is_digit_iff: "is_digit c \<longleftrightarrow> 48 \<le> (of_char c :: nat) \<and> (of_char c :: nat) \<le> 57"
  by (simp add: is_digit_def less_eq_char_def)

lemma digit_val_less: "is_digit c \<Longrightarrow> digit_val c < 10"
  by (auto simp: is_digit_iff digit_val_def)

lemma digit_char_of_val: "is_digit c \<Longrightarrow> digit_char (digit_val c) = c"
  by (simp add: is_digit_iff digit_val_def digit_char_def)

lemma of_char_digit_char [simp]: "d < 10 \<Longrightarrow> (of_char (digit_char d) :: nat) = 48 + d"
  by (simp add: digit_char_def)

lemma digit_val_of_digit [simp]: "d < 10 \<Longrightarrow> digit_val (digit_char d) = d"
  by (simp add: digit_val_def)

lemma is_digit_digit_char [simp]: "d < 10 \<Longrightarrow> is_digit (digit_char d)"
  by (simp add: is_digit_iff)

lemma digit_char_eval [simp]:
  "digit_char 0 = CHR ''0''" "digit_char (Suc 0) = CHR ''1''" "digit_char 1 = CHR ''1''"
  "digit_char 2 = CHR ''2''" "digit_char 3 = CHR ''3''" "digit_char 4 = CHR ''4''"
  "digit_char 5 = CHR ''5''" "digit_char 6 = CHR ''6''" "digit_char 7 = CHR ''7''"
  "digit_char 8 = CHR ''8''" "digit_char 9 = CHR ''9''"
  by code_simp+

lemma num_val_Nil [simp]: "num_val [] = 0"
  by (simp add: num_val_def)

lemma num_val_snoc [simp]: "num_val (s @ [c]) = num_val s * 10 + digit_val c"
  by (simp add: num_val_def)

text \<open>\<^verbatim>\<open>std::to_string\<close> on a signed integer.\<close>

definition show_int :: "int \<Rightarrow> string" where
  "show_int i = (if i < 0 then ''-'' @ show_nat (nat (- i)) else show_nat (nat i))"

lemma show_nat_digits: "\<forall>c\<in>set (show_nat n). is_digit c"
proof (induction n rule: show_nat.induct)
  case (1 n)
  then show ?case by (subst show_nat.simps) simp
qed

lemma list_all_is_digit_show_nat [simp]: "list_all is_digit (show_nat n)"
  using show_nat_digits by (simp add: list_all_iff)

lemma num_val_show_nat [simp]: "num_val (show_nat n) = n"
proof (induction n rule: show_nat.induct)
  case (1 n)
  then show ?case
    by (subst show_nat.simps) (simp add: num_val_snoc [of "[]", simplified])
qed

lemma show_nat_not_Nil [simp]: "show_nat n \<noteq> []"
  by (subst show_nat.simps) simp

lemma show_nat_inject [simp]: "show_nat m = show_nat n \<longleftrightarrow> m = n"
  by (metis num_val_show_nat)

text \<open>A canonical numeral is what the printer produces: digits only, at least one, no leading zero.\<close>

definition canonical_num :: "string \<Rightarrow> bool" where
  "canonical_num s = (s \<noteq> [] \<and> list_all is_digit s \<and> (length s > 1 \<longrightarrow> hd s \<noteq> CHR ''0''))"

lemma num_val_foldl: "foldl (\<lambda>a c. a * 10 + digit_val c) a s = a * 10 ^ length s + num_val s"
proof (induction s rule: rev_induct)
  case (snoc c s)
  then show ?case by (simp add: num_val_def algebra_simps)
qed simp

lemma num_val_Cons: "num_val (c # s) = digit_val c * 10 ^ length s + num_val s"
  using num_val_foldl [of "digit_val c" s] by (simp add: num_val_def)

lemma num_val_bound: "list_all is_digit s \<Longrightarrow> num_val s < 10 ^ length s"
proof (induction s)
  case (Cons c s)
  then have "digit_val c \<le> 9" "num_val s < 10 ^ length s" using digit_val_less [of c] by auto
  then have "digit_val c * 10 ^ length s \<le> 9 * 10 ^ length s" by simp
  then show ?case using \<open>num_val s < 10 ^ length s\<close>
    unfolding num_val_Cons length_Cons power_Suc by linarith
qed simp

lemma digit_val_pos: "is_digit c \<Longrightarrow> c \<noteq> CHR ''0'' \<Longrightarrow> 1 \<le> digit_val c"
proof -
  assume d: "is_digit c" and z: "c \<noteq> CHR ''0''"
  have "(of_char (CHR ''0'') :: nat) = 48" by simp
  then have "(of_char c :: nat) \<noteq> 48" using z of_char_eq_iff [of c "CHR ''0''"] by metis
  with d show ?thesis by (auto simp: is_digit_iff digit_val_def)
qed

lemma canonical_lower:
  assumes "canonical_num s" and "length s > 1"
  shows "10 ^ (length s - 1) \<le> num_val s"
proof -
  from assms obtain c t where s: "s = c # t" by (cases s) (auto simp: canonical_num_def)
  with assms have "1 \<le> digit_val c" by (intro digit_val_pos) (auto simp: canonical_num_def)
  then have "1 * 10 ^ length t \<le> digit_val c * 10 ^ length t" by (intro mult_le_mono1)
  then have "10 ^ length t \<le> num_val s" unfolding s num_val_Cons by linarith
  with s show ?thesis by simp
qed

lemma show_nat_num_val: "canonical_num s \<Longrightarrow> show_nat (num_val s) = s"
proof (induction s rule: rev_induct)
  case (snoc c t)
  then have c: "is_digit c" by (simp add: canonical_num_def)
  then have d: "digit_val c < 10" by (rule digit_val_less)
  show ?case
  proof (cases "t = []")
    case True
    with c d show ?thesis
      using num_val_snoc [of "[]" c] by (subst show_nat.simps) (simp add: digit_char_of_val)
  next
    case False
    with snoc.prems have t: "canonical_num t"
      by (cases t) (auto simp: canonical_num_def)
    have "hd t \<noteq> CHR ''0''" using False snoc.prems by (simp add: canonical_num_def)
    then have "1 \<le> num_val t"
    proof (cases t)
      case (Cons a u)
      with t \<open>hd t \<noteq> CHR ''0''\<close> have "1 \<le> digit_val a"
        by (intro digit_val_pos) (auto simp: canonical_num_def)
      then have "1 * 10 ^ length u \<le> digit_val a * 10 ^ length u" by (intro mult_le_mono1)
      then have "1 \<le> digit_val a * 10 ^ length u"
        using one_le_power [of "10 :: nat" "length u"] by linarith
      then show ?thesis unfolding Cons num_val_Cons by linarith
    qed (use False in simp)
    with d have "show_nat (num_val (t @ [c])) = show_nat (num_val t) @ [c]"
      using c by (subst show_nat.simps) (simp add: digit_char_of_val)
    with snoc.IH [OF t] show ?thesis by simp
  qed
qed (simp add: canonical_num_def)

lemma digit_char_zero: "d < 10 \<Longrightarrow> digit_char d = CHR ''0'' \<longleftrightarrow> d = 0"
proof
  assume "d < 10" and "digit_char d = CHR ''0''"
  then have "digit_val (digit_char d) = digit_val (CHR ''0'')" by simp
  with \<open>d < 10\<close> show "d = 0" by (simp add: digit_val_def [of "CHR ''0''"])
next
  assume "d = 0"
  then have "(of_char (digit_char d) :: nat) = of_char (CHR ''0'')" by simp
  then show "digit_char d = CHR ''0''" by (simp only: of_char_eq_iff)
qed

lemma hd_show_nat: "0 < n \<Longrightarrow> hd (show_nat n) \<noteq> CHR ''0''"
proof (induction n rule: show_nat.induct)
  case (1 n)
  then show ?case by (subst show_nat.simps) (auto simp: digit_char_zero)
qed

lemma canonical_show_nat [simp]: "canonical_num (show_nat n)"
proof (cases "n = 0")
  case True
  then show ?thesis by (simp add: show_nat.simps canonical_num_def is_digit_iff)
next
  case False
  then show ?thesis using show_nat_digits hd_show_nat
    by (auto simp: canonical_num_def list_all_iff)
qed

lemma canonical_num_iff: "canonical_num s \<longleftrightarrow> s = show_nat (num_val s)"
  using show_nat_num_val canonical_show_nat by metis

lemma digit_less_iff: "is_digit c \<Longrightarrow> is_digit d \<Longrightarrow> c < d \<longleftrightarrow> digit_val c < digit_val d"
  by (auto simp: is_digit_iff digit_val_def less_char_def)

lemma digit_eq_iff: "is_digit c \<Longrightarrow> is_digit d \<Longrightarrow> c = d \<longleftrightarrow> digit_val c = digit_val d"
  by (metis digit_char_of_val)

lemma num_val_less_same_length:
  "list_all is_digit a \<Longrightarrow> list_all is_digit b \<Longrightarrow> length a = length b \<Longrightarrow>
   a < b \<longleftrightarrow> num_val a < num_val b"
proof (induction a arbitrary: b)
  case (Cons c s)
  then obtain d t where b: "b = d # t" and t: "length s = length t" by (cases b) auto
  have bounds: "num_val s < 10 ^ length t" "num_val t < 10 ^ length t"
    using num_val_bound [of s] num_val_bound [of t] Cons.prems b t by auto
  have IH: "s < t \<longleftrightarrow> num_val s < num_val t" using Cons b by simp
  have cd: "is_digit c" "is_digit d" using Cons.prems b by auto
  have step: "x < y \<Longrightarrow> u < B \<Longrightarrow> x * B + u < y * B + (v :: nat)" for x y u v B
  proof -
    assume "x < y" "u < B"
    then have "Suc x * B \<le> y * B" by (intro mult_le_mono1) simp
    with \<open>u < B\<close> show ?thesis by simp
  qed
  consider "digit_val c < digit_val d" | "digit_val c = digit_val d" | "digit_val d < digit_val c"
    by linarith
  then show ?case
  proof cases
    case 1
    with step [OF 1 bounds(1)] cd b t show ?thesis
      by (simp add: num_val_Cons digit_less_iff)
  next
    case 2
    then have "c = d" using cd digit_eq_iff by blast
    with IH b t show ?thesis by (simp add: num_val_Cons)
  next
    case 3
    with step [OF 3 bounds(2)] have "num_val b < num_val (c # s)" by (simp add: b t num_val_Cons)
    moreover have "\<not> c < d" "c \<noteq> d" using 3 cd by (auto simp: digit_less_iff)
    ultimately show ?thesis using b by auto
  qed
qed simp

lemma canonical_less_iff:
  assumes "canonical_num a" and "canonical_num b"
  shows "num_val a < num_val b \<longleftrightarrow> length a < length b \<or> length a = length b \<and> a < b"
proof -
  have len: "length x < length y \<Longrightarrow> num_val x < num_val y"
    if "canonical_num x" "canonical_num y" for x y
  proof -
    assume l: "length x < length y"
    from that have "length x > 0" by (auto simp: canonical_num_def)
    with l have "1 < length y" by linarith
    then have "num_val x < 10 ^ length x" "10 ^ (length y - 1) \<le> num_val y"
      using that num_val_bound [of x] canonical_lower [of y] canonical_num_def [of x] by auto
    moreover have "(10 :: nat) ^ length x \<le> 10 ^ (length y - 1)"
      using l by (intro power_increasing) auto
    ultimately show ?thesis by linarith
  qed
  consider "length a < length b" | "length a = length b" | "length b < length a" by linarith
  then show ?thesis
  proof cases
    case 2
    with num_val_less_same_length [of a b] assms show ?thesis by (simp add: canonical_num_def)
  qed (use len assms in fastforce)+
qed

section \<open>Words\<close>

lemma unat_le_max_32: "unat (n :: 32 word) \<le> 0xFFFFFFFF"
proof -
  have "unat n < 2 ^ LENGTH(32)" by (rule unsigned_less)
  then show ?thesis by simp
qed

end
