(* ===== verification/Traversal_Guard.thy ===== *)
theory Traversal_Guard
  imports Prelude
begin

text \<open>
  The zip-slip guard: \<^verbatim>\<open>core/paths/traversal_guard.hpp\<close> and \<^verbatim>\<open>traversal_guard.cpp\<close>.  Entry names are
  validated, never rewritten; an accepted name joined onto a root stays under that root.  The meaning of
  a path is given by a resolver that walks its components as a file system does, so the theorems are
  about where a write lands and not only about the text of the path.
\<close>

section \<open>Types and constants\<close>

datatype PathError =
    Empty | AbsolutePath | VolumePrefix | ParentTraversal | BackslashSeparator | NullByte
  | ControlCharacter | EmptyComponent | DotComponent | TrailingDotOrSpace | ComponentTooLong
  | PathTooLong

definition kMaxComponentLength :: nat where
  "kMaxComponentLength = 255"

definition kMaxPathLength :: nat where
  "kMaxPathLength = 1024"

section \<open>Operations\<close>

definition path_split :: "string \<Rightarrow> string list" where
  "path_split path = split_on CHR ''/'' path"

definition isControl :: "char \<Rightarrow> bool" where
  "isControl c = ((of_char c :: nat) < 0x20 \<or> (of_char c :: nat) = 0x7F)"

function stripTrailingSlashes :: "string \<Rightarrow> string" where
  "stripTrailingSlashes path =
     (if length path > 1 \<and> last path = CHR ''/'' then stripTrailingSlashes (butlast path) else path)"
  by pat_completeness auto
termination
  by (relation "measure length") auto

declare stripTrailingSlashes.simps [simp del]

fun describe_PathError :: "PathError \<Rightarrow> string" where
  "describe_PathError Empty = ''the path is empty''"
| "describe_PathError AbsolutePath = ''the path is absolute and would ignore the destination''"
| "describe_PathError VolumePrefix = ''the path contains a volume prefix''"
| "describe_PathError ParentTraversal = ''the path contains a parent reference''"
| "describe_PathError BackslashSeparator = ''the path contains a backslash''"
| "describe_PathError NullByte = ''the path contains a null byte''"
| "describe_PathError ControlCharacter = ''the path contains a control character''"
| "describe_PathError EmptyComponent = ''the path contains an empty component''"
| "describe_PathError DotComponent = ''the path contains a '.' component''"
| "describe_PathError TrailingDotOrSpace = ''a path component ends in a dot or a space''"
| "describe_PathError ComponentTooLong = ''a path component is too long''"
| "describe_PathError PathTooLong = ''the path is too long''"

text \<open>The two loops of \<^verbatim>\<open>validateEntryName\<close>: over the characters, then over the components.\<close>

fun checkChars :: "string \<Rightarrow> (PathError, unit) result" where
  "checkChars [] = Inr ()"
| "checkChars (c # cs) =
     (if c = CHR 0x00 then Inl NullByte
      else if c = CHR 0x5C then Inl BackslashSeparator
      else if c = CHR '':'' then Inl VolumePrefix
      else if isControl c then Inl ControlCharacter
      else checkChars cs)"

fun checkComponents :: "string list \<Rightarrow> (PathError, unit) result" where
  "checkComponents [] = Inr ()"
| "checkComponents (p # ps) =
     (if p = [] then Inl EmptyComponent
      else if p = ''.'' then Inl DotComponent
      else if p = ''..'' then Inl ParentTraversal
      else if length p > kMaxComponentLength then Inl ComponentTooLong
      else if last p = CHR ''.'' \<or> last p = CHR '' '' then Inl TrailingDotOrSpace
      else checkComponents ps)"

definition dropOneSlash :: "string \<Rightarrow> string" where
  "dropOneSlash s = (if last s = CHR ''/'' then butlast s else s)"

definition validateEntryName :: "string \<Rightarrow> (PathError, unit) result" where
  "validateEntryName entry =
     (if entry = [] then Inl Empty
      else bindE (checkChars entry) (\<lambda>_.
        if hd entry = CHR ''/'' then Inl AbsolutePath
        else if length entry > kMaxPathLength then Inl PathTooLong
        else (let body = dropOneSlash entry in
          if body = [] then Inl Empty
          else checkComponents (path_split body))))"

definition resolveUnder :: "string \<Rightarrow> string \<Rightarrow> (PathError, string) result" where
  "resolveUnder root entry =
     (if root = [] then Inl Empty
      else bindE (validateEntryName entry) (\<lambda>_.
        let base = stripTrailingSlashes root;
            directory = (last entry = CHR ''/'');
            body = (if directory then butlast entry else entry);
            out = base @ (if last base \<noteq> CHR ''/'' then ''/'' else []) @ body
                    @ (if directory then ''/'' else [])
        in if length out > kMaxPathLength then Inl PathTooLong else Inr out))"

definition isWithin :: "string \<Rightarrow> string \<Rightarrow> bool" where
  "isWithin root path =
     (if root = [] \<or> path = [] then False
      else (let rootParts = path_split (stripTrailingSlashes root);
                pathParts = path_split (stripTrailingSlashes path) in
        if length pathParts < length rootParts then False
        else if \<not> list_all (\<lambda>i. rootParts ! i = pathParts ! i) [0..<length rootParts] then False
        else list_all (\<lambda>i. \<not> (pathParts ! i = ''..'' \<or> pathParts ! i = []))
               [length rootParts..<length pathParts]))"

section \<open>What validation guarantees\<close>

definition safe_char :: "char \<Rightarrow> bool" where
  "safe_char c = (c \<noteq> CHR 0x5C \<and> c \<noteq> CHR '':'' \<and> \<not> isControl c)"

definition safe_component :: "string \<Rightarrow> bool" where
  "safe_component p =
     (p \<noteq> [] \<and> p \<noteq> ''.'' \<and> p \<noteq> ''..'' \<and> length p \<le> kMaxComponentLength \<and>
      last p \<noteq> CHR ''.'' \<and> last p \<noteq> CHR '' '')"

text \<open>A safe entry is a sequence of safe components joined by single slashes, with at most one
  trailing slash that marks a directory.\<close>

definition safe_entry :: "string \<Rightarrow> bool" where
  "safe_entry entry =
     (entry \<noteq> [] \<and> list_all safe_char entry \<and> length entry \<le> kMaxPathLength \<and>
      list_all safe_component (split_on CHR ''/'' (dropOneSlash entry)))"

lemma isControl_NUL [simp]: "isControl CHR 0x00"
  by (simp add: isControl_def)

lemma checkChars_ok: "checkChars s = Inr () \<longleftrightarrow> list_all safe_char s"
  by (induction s) (auto simp: safe_char_def)

lemma checkComponents_ok: "checkComponents ps = Inr () \<longleftrightarrow> list_all safe_component ps"
  by (induction ps) (auto simp: safe_component_def)

lemma dropOneSlash_cases:
  obtains (directory) body where "entry = body @ ''/''" "dropOneSlash entry = body"
    | (plain) "entry = [] \<or> last entry \<noteq> CHR ''/''" "entry \<noteq> [] \<Longrightarrow> dropOneSlash entry = entry"
  by (cases entry rule: rev_cases) (auto simp: dropOneSlash_def)

lemma safe_entry_not_absolute:
  assumes "safe_entry entry"
  shows "hd entry \<noteq> CHR ''/''" and "dropOneSlash entry \<noteq> []"
proof -
  have "[] \<notin> set (split_on CHR ''/'' (dropOneSlash entry))"
    using assms by (auto simp: safe_entry_def list_all_iff safe_component_def)
  then show ne: "dropOneSlash entry \<noteq> []" by auto
  show "hd entry \<noteq> CHR ''/''"
  proof
    assume "hd entry = CHR ''/''"
    with assms ne obtain rest where "dropOneSlash entry = CHR ''/'' # rest"
      by (cases entry) (auto simp: safe_entry_def dropOneSlash_def split: if_splits)
    with \<open>[] \<notin> _\<close> show False by simp
  qed
qed

lemma validateEntryName_iff: "validateEntryName entry = Inr () \<longleftrightarrow> safe_entry entry"
  using safe_entry_not_absolute [of entry]
  by (auto simp: validateEntryName_def Let_def bindE_Inr_iff checkChars_ok checkComponents_ok
      safe_entry_def path_split_def split: if_splits)

section \<open>Where a path leads\<close>

text \<open>The file system's reading of a path: empty and \<^verbatim>\<open>.\<close> components stay, \<^verbatim>\<open>..\<close> goes up, anything else
  goes down.  The location of a path is the list of names from the top.\<close>

definition walk_step :: "string list \<Rightarrow> string \<Rightarrow> string list" where
  "walk_step dir p =
     (if p = [] \<or> p = ''.'' then dir else if p = ''..'' then butlast dir else dir @ [p])"

definition location :: "string \<Rightarrow> string list" where
  "location path = foldl walk_step [] (split_on CHR ''/'' path)"

lemma walk_safe: "list_all safe_component ps \<Longrightarrow> foldl walk_step dir ps = dir @ ps"
  by (induction ps arbitrary: dir) (auto simp: walk_step_def safe_component_def)

lemma walk_down: "\<forall>p\<in>set ps. p \<noteq> ''..'' \<Longrightarrow> \<exists>rest. foldl walk_step dir ps = dir @ rest"
proof (induction ps arbitrary: dir)
  case (Cons p ps)
  then obtain r where "foldl walk_step (walk_step dir p) ps = walk_step dir p @ r" by auto
  moreover have "\<exists>q. walk_step dir p = dir @ q" using Cons.prems by (auto simp: walk_step_def)
  ultimately show ?case by auto
qed simp

lemma location_append:
  "location (a @ CHR ''/'' # b) = foldl walk_step (location a) (split_on CHR ''/'' b)"
  by (simp add: location_def split_on_append_sep)

lemma location_trailing_slash [simp]: "location (a @ ''/'') = location a"
  by (simp add: location_append walk_step_def)

lemma location_strip [simp]: "location (stripTrailingSlashes path) = location path"
proof (induction path rule: stripTrailingSlashes.induct)
  case (1 path)
  show ?case
  proof (cases "length path > 1 \<and> last path = CHR ''/''")
    case True
    then have p: "path = butlast path @ ''/''" by (cases path rule: rev_cases) auto
    have "location path = location (butlast path)" by (subst p) (rule location_trailing_slash)
    moreover have "stripTrailingSlashes path = stripTrailingSlashes (butlast path)"
      using True by (simp add: stripTrailingSlashes.simps [of path])
    ultimately show ?thesis using 1 [OF True] by (simp only:)
  next
    case False
    then show ?thesis by (subst stripTrailingSlashes.simps) auto
  qed
qed

lemma strip_not_Nil: "path \<noteq> [] \<Longrightarrow> stripTrailingSlashes path \<noteq> []"
proof (induction path rule: stripTrailingSlashes.induct)
  case (1 path)
  then show ?case by (subst stripTrailingSlashes.simps) (cases path rule: rev_cases, auto)
qed

lemma strip_last:
  "path \<noteq> [] \<Longrightarrow> last (stripTrailingSlashes path) = CHR ''/'' \<Longrightarrow> stripTrailingSlashes path = ''/''"
proof (induction path rule: stripTrailingSlashes.induct)
  case (1 path)
  show ?case
  proof (cases "length path > 1 \<and> last path = CHR ''/''")
    case True
    then have "butlast path \<noteq> []" by (cases path rule: rev_cases) auto
    with 1 True show ?thesis by (simp add: stripTrailingSlashes.simps [of path])
  next
    case False
    with 1 have "last path = CHR ''/''" "length path \<le> 1" "path \<noteq> []"
      by (auto simp: stripTrailingSlashes.simps [of path])
    then have "path = ''/''" by (cases path) auto
    then show ?thesis by (simp add: stripTrailingSlashes.simps)
  qed
qed

lemma strip_id: "path \<noteq> [] \<Longrightarrow> last path \<noteq> CHR ''/'' \<Longrightarrow> stripTrailingSlashes path = path"
  by (simp add: stripTrailingSlashes.simps)

lemma strip_one: "path \<noteq> [] \<Longrightarrow> stripTrailingSlashes (path @ ''/'') = stripTrailingSlashes path"
  by (subst stripTrailingSlashes.simps) (cases path, auto)

section \<open>Joining\<close>

definition glue :: "string \<Rightarrow> string" where
  "glue root =
     (let base = stripTrailingSlashes root in base @ (if last base \<noteq> CHR ''/'' then ''/'' else []))"

text \<open>The entry is appended as it is: the code takes off a trailing slash and puts it back.\<close>

lemma resolveUnder_Inr_iff:
  "resolveUnder root entry = Inr p \<longleftrightarrow>
     root \<noteq> [] \<and> safe_entry entry \<and> p = glue root @ entry \<and> length p \<le> kMaxPathLength"
proof -
  let ?dir = "last entry = CHR ''/''"
  have out: "(if ?dir then butlast entry else entry) @ (if ?dir then ''/'' else []) = entry"
    if "entry \<noteq> []"
    using that by (cases entry rule: rev_cases) auto
  show ?thesis
  proof (cases "safe_entry entry")
    case True
    then have "entry \<noteq> []" by (simp add: safe_entry_def)
    with True validateEntryName_iff [of entry] show ?thesis
      by (auto simp: resolveUnder_def Let_def glue_def out)
  next
    case False
    then show ?thesis
      by (auto simp: resolveUnder_def bindE_Inr_iff validateEntryName_iff split: if_splits)
  qed
qed

lemma location_glue:
  assumes "root \<noteq> []"
  shows "location (glue root @ b) = foldl walk_step (location root) (split_on CHR ''/'' b)"
proof (cases "last (stripTrailingSlashes root) = CHR ''/''")
  case True
  then have r: "stripTrailingSlashes root = ''/''" using strip_last assms by blast
  then have "location root = []" using location_strip [of root]
    by (simp add: location_def walk_step_def)
  with r show ?thesis by (simp add: glue_def location_def walk_step_def)
next
  case False
  then show ?thesis by (simp add: glue_def location_append)
qed

lemma location_entry:
  assumes "safe_entry entry"
  shows "foldl walk_step dir (split_on CHR ''/'' entry) = dir @ split_on CHR ''/'' (dropOneSlash entry)"
proof (cases entry rule: dropOneSlash_cases)
  case (directory body)
  with assms have "list_all safe_component (split_on CHR ''/'' body)" by (simp add: safe_entry_def)
  then have "foldl walk_step dir (split_on CHR ''/'' body) = dir @ split_on CHR ''/'' body"
    by (rule walk_safe)
  with directory show ?thesis by (simp add: split_on_append_sep walk_step_def)
next
  case plain
  with assms show ?thesis by (simp add: safe_entry_def walk_safe)
qed

section \<open>Containment\<close>

lemma isWithin_iff:
  "isWithin root path \<longleftrightarrow>
     root \<noteq> [] \<and> path \<noteq> [] \<and>
     (\<exists>rest. split_on CHR ''/'' (stripTrailingSlashes path) =
               split_on CHR ''/'' (stripTrailingSlashes root) @ rest \<and>
             (\<forall>p\<in>set rest. p \<noteq> ''..'' \<and> p \<noteq> []))"
proof -
  have prefix: "(length rs \<le> length ps \<and> (\<forall>i<length rs. rs ! i = ps ! i)) \<longleftrightarrow>
      ps = rs @ drop (length rs) ps" for rs ps :: "string list"
  proof
    assume "length rs \<le> length ps \<and> (\<forall>i<length rs. rs ! i = ps ! i)"
    then have "take (length rs) ps = rs" by (intro nth_equalityI) auto
    then show "ps = rs @ drop (length rs) ps" by (metis append_take_drop_id)
  next
    assume a: "ps = rs @ drop (length rs) ps"
    have "length rs \<le> length ps" by (subst a) simp
    moreover have "\<forall>i<length rs. rs ! i = ps ! i" by (metis a nth_append)
    ultimately show "length rs \<le> length ps \<and> (\<forall>i<length rs. rs ! i = ps ! i)" by simp
  qed
  have rest: "(\<forall>i\<in>{length rs..<length ps}. P (ps ! i)) \<longleftrightarrow> (\<forall>p\<in>set (drop (length rs) ps). P p)"
    for P and rs ps :: "string list"
  proof -
    have "drop (length rs) ps = map ((!) ps) [length rs..<length ps]"
      by (intro nth_equalityI) auto
    then have "set (drop (length rs) ps) = (!) ps ` {length rs..<length ps}" by simp
    then show ?thesis by auto
  qed
  let ?rs = "split_on CHR ''/'' (stripTrailingSlashes root)"
  let ?ps = "split_on CHR ''/'' (stripTrailingSlashes path)"
  have "isWithin root path \<longleftrightarrow> root \<noteq> [] \<and> path \<noteq> [] \<and>
      (length ?rs \<le> length ?ps \<and> (\<forall>i<length ?rs. ?rs ! i = ?ps ! i)) \<and>
      (\<forall>i\<in>{length ?rs..<length ?ps}. ?ps ! i \<noteq> ''..'' \<and> ?ps ! i \<noteq> [])"
    by (auto simp: isWithin_def path_split_def Let_def list_all_iff linorder_not_less)
  also have "\<dots> \<longleftrightarrow> root \<noteq> [] \<and> path \<noteq> [] \<and> ?ps = ?rs @ drop (length ?rs) ?ps \<and>
      (\<forall>p\<in>set (drop (length ?rs) ?ps). p \<noteq> ''..'' \<and> p \<noteq> [])"
    unfolding prefix rest [of ?rs ?ps "\<lambda>p. p \<noteq> ''..'' \<and> p \<noteq> []"] by blast
  also have "\<dots> \<longleftrightarrow> root \<noteq> [] \<and> path \<noteq> [] \<and>
      (\<exists>rest. ?ps = ?rs @ rest \<and> (\<forall>p\<in>set rest. p \<noteq> ''..'' \<and> p \<noteq> []))"
    by (metis append_eq_conv_conj)
  finally show ?thesis .
qed

section \<open>Properties\<close>

text \<open>C37: Validation accepts exactly the safe entry names: not empty, no backslash, colon or control
  character (NUL included), not longer than the path limit, and every component between slashes
  non-empty, not \<^verbatim>\<open>.\<close> or \<^verbatim>\<open>..\<close>, within the component limit and not ending in a dot or a space; one trailing
  slash is allowed.\<close>

theorem validateEntryName_exact: "validateEntryName entry = Inr () \<longleftrightarrow> safe_entry entry"
  by (rule validateEntryName_iff)

text \<open>C6: An entry resolved under a root leads exactly to the root's location followed by the entry's own
  components, whatever the root, so nothing an archive names can be written outside its destination; the
  result fits the path limit, and two different entries never resolve to the same path.\<close>

theorem resolveUnder_location:
  assumes "resolveUnder root entry = Inr p"
  shows "location p = location root @ split_on CHR ''/'' (dropOneSlash entry) \<and>
         length p \<le> kMaxPathLength \<and>
         (\<forall>other. resolveUnder root other = Inr p \<longrightarrow> other = entry)"
  using assms by (auto simp: resolveUnder_Inr_iff location_glue location_entry)

theorem resolveUnder_location_witness:
  "location ''/atmosphere/contents/x.nsp'' = location ''/'' @ [''atmosphere'', ''contents'', ''x.nsp'']"
proof -
  have r: "resolveUnder ''/'' ''atmosphere/contents/x.nsp'' = Inr ''/atmosphere/contents/x.nsp''"
    by code_simp
  have sp: "split_on CHR ''/'' (dropOneSlash ''atmosphere/contents/x.nsp'') =
      [''atmosphere'', ''contents'', ''x.nsp'']"
    by code_simp
  from resolveUnder_location [OF r, THEN conjunct1] show ?thesis unfolding sp .
qed

text \<open>A path within a directory, by the component-wise test, leads below the directory's location:
  the test cannot be passed by a sibling that shares a name prefix or by a path that climbs out.\<close>

theorem isWithin_location:
  assumes "isWithin root path"
  shows "\<exists>below. location path = location root @ below"
proof -
  from assms obtain rest where
    r: "split_on CHR ''/'' (stripTrailingSlashes path) =
        split_on CHR ''/'' (stripTrailingSlashes root) @ rest"
    and "\<forall>p\<in>set rest. p \<noteq> ''..''"
    by (auto simp: isWithin_iff)
  then obtain below where "foldl walk_step (location (stripTrailingSlashes root)) rest =
      location (stripTrailingSlashes root) @ below"
    using walk_down by blast
  then have "location (stripTrailingSlashes path) = location (stripTrailingSlashes root) @ below"
    unfolding location_def r by simp
  then show ?thesis by simp
qed

theorem isWithin_location_witness:
  "\<exists>below. location ''/switch/nsx/file'' = location ''/switch/nsx'' @ below"
proof -
  have "isWithin ''/switch/nsx'' ''/switch/nsx/file''"
    by code_simp
  then show ?thesis by (rule isWithin_location)
qed

text \<open>The documented link between the two functions: what \<^const>\<open>resolveUnder\<close> returns passes
  \<^const>\<open>isWithin\<close> for the same root, for every root except the top directory itself; for a root that is
  only slashes the test refuses every entry.\<close>

theorem resolveUnder_isWithin:
  assumes "resolveUnder root entry = Inr p"
  shows "isWithin root p \<longleftrightarrow> stripTrailingSlashes root \<noteq> ''/''"
proof -
  have r: "root \<noteq> []" and e: "safe_entry entry" and p: "p = glue root @ entry"
    using assms by (auto simp: resolveUnder_Inr_iff)
  let ?base = "stripTrailingSlashes root" and ?body = "dropOneSlash entry"
  have ne: "?body \<noteq> []" and parts: "list_all safe_component (split_on CHR ''/'' ?body)"
    using e safe_entry_not_absolute by (auto simp: safe_entry_def)
  have lb: "last ?body \<noteq> CHR ''/''"
  proof
    assume "last ?body = CHR ''/''"
    with ne obtain b where "?body = b @ CHR ''/'' # []" by (cases ?body rule: rev_cases) auto
    then have "[] \<in> set (split_on CHR ''/'' ?body)" by (simp add: split_on_append_sep)
    with parts show False by (auto simp: list_all_iff safe_component_def)
  qed
  have strip: "stripTrailingSlashes (x @ entry) = x @ ?body" for x
  proof (cases entry rule: dropOneSlash_cases)
    case (directory body)
    then show ?thesis using lb ne strip_one [of "x @ body"] strip_id [of "x @ body"] by simp
  next
    case plain
    then show ?thesis using e lb ne strip_id [of "x @ entry"] by (simp add: safe_entry_def)
  qed
  have bad: "\<forall>q\<in>set (split_on CHR ''/'' ?body). q \<noteq> ''..'' \<and> q \<noteq> []"
    using parts by (auto simp: list_all_iff safe_component_def)
  show ?thesis
  proof (cases "last ?base = CHR ''/''")
    case True
    then have base: "?base = ''/''" using strip_last r by blast
    then have "split_on CHR ''/'' (stripTrailingSlashes p) = [] # split_on CHR ''/'' ?body"
      using strip [of "''/''"] by (simp add: p glue_def)
    moreover have "hd (split_on CHR ''/'' ?body) \<noteq> []"
      using bad by (cases "split_on CHR ''/'' ?body") auto
    ultimately have "\<not> isWithin root p"
      using base by (cases "split_on CHR ''/'' ?body") (auto simp: isWithin_iff)
    with base show ?thesis by simp
  next
    case False
    then have "split_on CHR ''/'' (stripTrailingSlashes p) =
        split_on CHR ''/'' ?base @ split_on CHR ''/'' ?body"
      using strip [of "?base @ ''/''"] by (simp add: p glue_def split_on_append_sep)
    moreover have "p \<noteq> []" using p e by (simp add: safe_entry_def)
    ultimately have "isWithin root p" unfolding isWithin_iff using r bad by blast
    with False show ?thesis by auto
  qed
qed

theorem resolveUnder_isWithin_witness:
  "isWithin ''/switch/nsx'' ''/switch/nsx/a.txt'' \<and> \<not> isWithin ''/'' ''/a.txt''"
proof -
  have "resolveUnder ''/switch/nsx'' ''a.txt'' = Inr ''/switch/nsx/a.txt''"
    "resolveUnder ''/'' ''a.txt'' = Inr ''/a.txt''"
    by code_simp+
  from this [THEN resolveUnder_isWithin] show ?thesis by (simp add: stripTrailingSlashes.simps)
qed

end
