(* ===== verification/Preserve_Rules.thy ===== *)
theory Preserve_Rules
  imports Prelude
begin

text \<open>
  What a user keeps across a pack install: \<^verbatim>\<open>core/paths/preserve_rules.hpp\<close> and
  \<^verbatim>\<open>preserve_rules.cpp\<close>.  The glob matcher with its single backtrack point, the dynamic program for
  \<^verbatim>\<open>**\<close>, the parser of \<^verbatim>\<open>preserve.txt\<close> and the evaluation of the rules, each related to a direct
  recursive specification.
\<close>

section \<open>Text helpers\<close>

definition lower :: "char \<Rightarrow> char" where
  "lower c = (if c \<ge> CHR ''A'' \<and> c \<le> CHR ''Z'' then char_of (of_char c + (32 :: nat)) else c)"

definition trim :: "string \<Rightarrow> string" where
  "trim s =
     rev (dropWhile (\<lambda>c. c = CHR '' '' \<or> c = CHR 0x09 \<or> c = CHR 0x0D)
       (rev (dropWhile (\<lambda>c. c = CHR '' '' \<or> c = CHR 0x09) s)))"

fun normalise_loop :: "bool \<Rightarrow> string \<Rightarrow> string" where
  "normalise_loop lastWasSlash [] = []"
| "normalise_loop lastWasSlash (c # cs) =
     (if c = CHR ''/'' then
        (if lastWasSlash then normalise_loop True cs else c # normalise_loop True cs)
      else c # normalise_loop False cs)"

definition normalise :: "string \<Rightarrow> string" where
  "normalise pattern = normalise_loop True pattern"

definition components :: "string \<Rightarrow> string list" where
  "components path = filter (\<lambda>p. p \<noteq> []) (split_on CHR ''/'' path)"

section \<open>Matching one component\<close>

definition matches_char :: "char \<Rightarrow> char \<Rightarrow> bool" where
  "matches_char p t = (p = CHR ''?'' \<or> lower p = lower t)"

lemma shorter_iff: "length b - Suc 0 < length b \<longleftrightarrow> b \<noteq> []"
  by (cases b) auto

lemma shorter_le: "p \<noteq> [] \<Longrightarrow> length p \<le> n \<Longrightarrow> length p - Suc 0 < n"
  by (cases p) auto

text \<open>The loop of \<^verbatim>\<open>matchComponent\<close>.  The positions \<^verbatim>\<open>p\<close>, \<^verbatim>\<open>s\<close>, \<^verbatim>\<open>star + 1\<close> and \<^verbatim>\<open>starText\<close> are represented by
  the rest of the pattern or text behind them; no backtrack point yet is \<^const>\<open>None\<close>.\<close>

function matchComponent_loop :: "string \<Rightarrow> string \<Rightarrow> (string \<times> string) option \<Rightarrow> bool" where
  "matchComponent_loop p [] star = (dropWhile (\<lambda>c. c = CHR ''*'') p = [])"
| "matchComponent_loop p (t # ts) star =
     (if p \<noteq> [] \<and> matches_char (hd p) t then matchComponent_loop (tl p) ts star
      else if p \<noteq> [] \<and> hd p = CHR ''*'' then
        matchComponent_loop (tl p) (t # ts) (Some (tl p, t # ts))
      else (case star of
              Some (starPattern, starText) \<Rightarrow>
                matchComponent_loop starPattern (tl starText) (Some (starPattern, tl starText))
            | None \<Rightarrow> False))"
  by pat_completeness auto
termination
  by (relation "measures
        [\<lambda>(p, s, star). max (length p) (case star of None \<Rightarrow> 0 | Some (q, _) \<Rightarrow> length q),
         \<lambda>(p, s, star). case star of None \<Rightarrow> 0 | Some (_, u) \<Rightarrow> length u,
         \<lambda>(p, s, star). length s]")
    (auto simp: max_def shorter_iff shorter_le split: option.splits)

declare matchComponent_loop.simps(2) [simp del]

definition matchComponent :: "string \<Rightarrow> string \<Rightarrow> bool" where
  "matchComponent pattern txt = matchComponent_loop pattern txt None"

section \<open>Matching component lists\<close>

fun carry_scan :: "bool \<Rightarrow> bool list \<Rightarrow> bool list" where
  "carry_scan carry [] = []"
| "carry_scan carry (r # rs) = (let carry' = (carry \<or> r) in carry' # carry_scan carry' rs)"

definition advance :: "string list \<Rightarrow> bool list \<Rightarrow> string \<Rightarrow> bool list" where
  "advance path reachable component =
     (if component = ''**'' then carry_scan False reachable
      else False # map2 (\<lambda>r x. r \<and> matchComponent component x) reachable path)"

definition matchAll :: "string list \<Rightarrow> string list \<Rightarrow> bool" where
  "matchAll pattern path =
     foldl (advance path) (True # replicate (length path) False) pattern ! length path"

definition match :: "string \<Rightarrow> string \<Rightarrow> bool" where
  "match pattern path = matchAll (components pattern) (components path)"

definition globMatch :: "string \<Rightarrow> string \<Rightarrow> bool" where
  "globMatch pattern path = match pattern path"

section \<open>Rules\<close>

record Rule =
  pattern :: string
  negated :: bool
  directory :: bool
  line :: int

record PreserveRules =
  m_rules :: "Rule list"
  m_warnings :: "string list"

fun contains :: "string \<Rightarrow> string \<Rightarrow> bool" where
  "contains needle [] = (needle = [])"
| "contains needle (c # cs) = (prefix needle (c # cs) \<or> contains needle cs)"

text \<open>What one line adds: nothing, a warning or a rule.\<close>

definition show_line :: "int \<Rightarrow> string" where
  "show_line n = ''line '' @ show_nat (nat n)"

definition parse_line :: "int \<Rightarrow> string \<Rightarrow> PreserveRules \<Rightarrow> PreserveRules" where
  "parse_line lineNumber raw out =
     (let l = trim raw in
      if l = [] \<or> hd l = CHR ''#'' then out
      else
        (let neg = (hd l = CHR ''!'');
             l = (if neg then trim (tl l) else l) in
         if l = [] then
           out\<lparr>m_warnings := m_warnings out @
             [show_line lineNumber @ '': '' @ [CHR 0x27] @ ''!'' @ [CHR 0x27] @ '' with no pattern - ignored'']\<rparr>
         else
           (let dir = (last l = CHR ''/'');
                l = (if dir then butlast l else l);
                pat = normalise l in
            if pat = [] then
              out\<lparr>m_warnings := m_warnings out @ [show_line lineNumber @ '': empty pattern - ignored'']\<rparr>
            else if contains ''..'' pat then
              out\<lparr>m_warnings := m_warnings out @
                [show_line lineNumber @ '': '' @ [CHR 0x27] @ ''..'' @ [CHR 0x27]
                 @ '' is not allowed in a preserve pattern - ignored'']\<rparr>
            else
              out\<lparr>m_rules := m_rules out @
                [\<lparr>pattern = pat, negated = neg, directory = dir, line = lineNumber\<rparr>]\<rparr>)))"

text \<open>The loop over lines: it ends after a line that no newline follows, or when nothing is left behind
  the newline.\<close>

fun parse_lines :: "int \<Rightarrow> string list \<Rightarrow> PreserveRules \<Rightarrow> PreserveRules" where
  "parse_lines lineNumber [] out = out"
| "parse_lines lineNumber [l] out =
     (if l = [] \<and> lineNumber \<noteq> 0 then out else parse_line (lineNumber + 1) l out)"
| "parse_lines lineNumber (l # ls) out =
     parse_lines (lineNumber + 1) ls (parse_line (lineNumber + 1) l out)"

definition parse :: "string \<Rightarrow> PreserveRules" where
  "parse s = parse_lines 0 (split_on CHR 0x0A s) \<lparr>m_rules = [], m_warnings = []\<rparr>"

definition defaults :: PreserveRules where
  "defaults =
     parse (''# Defaults applied when no preserve.txt exists.'' @ [CHR 0x0A] @
            ''bootloader/hekate_ipl.ini'' @ [CHR 0x0A] @
            ''bootloader/ini/'' @ [CHR 0x0A] @
            ''emuMMC/emummc.ini'' @ [CHR 0x0A])"

definition hits :: "Rule \<Rightarrow> string \<Rightarrow> bool" where
  "hits rule normalised =
     (let hit = match (pattern rule) normalised;
          hit = (if \<not> hit \<and> directory rule then match (pattern rule @ ''/**'') normalised else hit);
          hit = (if \<not> hit \<and> \<not> directory rule then match (pattern rule @ ''/**'') normalised else hit)
      in hit)"

definition preserves :: "PreserveRules \<Rightarrow> string \<Rightarrow> bool" where
  "preserves rules path =
     (let normalised = normalise path in
      foldl (\<lambda>preserved rule. if hits rule normalised then \<not> negated rule else preserved)
        False (m_rules rules))"

section \<open>The component matcher against its specification\<close>

text \<open>The meaning of a component pattern, by recursion on the pattern: a star absorbs any run of
  characters.\<close>

fun glob :: "string \<Rightarrow> string \<Rightarrow> bool" where
  "glob [] t = (t = [])"
| "glob (c # p) [] = (c = CHR ''*'' \<and> glob p [])"
| "glob (c # p) (d # t) =
     (if c = CHR ''*'' then glob p (d # t) \<or> glob (c # p) t
      else matches_char c d \<and> glob p t)"

lemma glob_Nil: "glob p [] \<longleftrightarrow> dropWhile (\<lambda>c. c = CHR ''*'') p = []"
  by (induction p) auto

lemma glob_star: "glob (CHR ''*'' # p) t \<longleftrightarrow> (\<exists>u. suffix u t \<and> glob p u)"
proof (induction t)
  case Nil
  then show ?case by (auto simp: suffix_def)
next
  case (Cons d t)
  then show ?case by (auto simp: suffix_Cons)
qed

lemma glob_prefix_match:
  assumes "CHR ''*'' \<notin> set q" and "glob (q @ p) t"
  shows "length q \<le> length t \<and> glob p (drop (length q) t)"
  using assms
proof (induction q arbitrary: t)
  case (Cons c q)
  then show ?case by (cases t) auto
qed simp

lemma lower_star: "lower CHR ''*'' = CHR ''*''"
  by (simp add: lower_def less_eq_char_def)

lemma lower_range: "c \<ge> CHR ''A'' \<Longrightarrow> c \<le> CHR ''Z'' \<Longrightarrow> (of_char (lower c) :: nat) = of_char c + 32"
  by (simp add: lower_def less_eq_char_def)

lemma lower_eq_star: "lower t = CHR ''*'' \<longleftrightarrow> t = CHR ''*''"
proof (cases "t \<ge> CHR ''A'' \<and> t \<le> CHR ''Z''")
  case True
  then have "(of_char (lower t) :: nat) = of_char t + 32" "65 \<le> (of_char t :: nat)"
    using lower_range by (auto simp: less_eq_char_def)
  moreover have "(of_char CHR ''*'' :: nat) = 42" by simp
  ultimately have "lower t \<noteq> CHR ''*''" "t \<noteq> CHR ''*''" by auto
  then show ?thesis by simp
next
  case False
  then show ?thesis by (auto simp: lower_def)
qed

lemma matches_char_star: "matches_char CHR ''*'' t \<longleftrightarrow> t = CHR ''*''"
  by (auto simp: matches_char_def lower_star lower_eq_star dest: sym)

text \<open>What the backtrack point means: the pattern behind the last star has been matched character by
  character from \<^verbatim>\<open>starText\<close> up to the current position.\<close>

definition backtrack_inv :: "string \<Rightarrow> string \<Rightarrow> (string \<times> string) option \<Rightarrow> bool" where
  "backtrack_inv p s star =
     (case star of None \<Rightarrow> True
      | Some (sp, st) \<Rightarrow>
          (\<exists>q u. sp = q @ p \<and> st = u @ s \<and> CHR ''*'' \<notin> set q \<and> length u = length q))"

definition retry_glob :: "(string \<times> string) option \<Rightarrow> bool" where
  "retry_glob star =
     (case star of None \<Rightarrow> False | Some (sp, st) \<Rightarrow> (\<exists>u. strict_suffix u st \<and> glob sp u))"

lemma retry_shrinks:
  assumes "backtrack_inv p s star" and "retry_glob star"
  shows "\<exists>u. strict_suffix u s \<and> glob p u"
proof -
  from assms(2) obtain sp st v where star: "star = Some (sp, st)"
    and v: "strict_suffix v st" and g: "glob sp v"
    by (auto simp: retry_glob_def split: option.splits)
  from assms(1) star obtain q u where q: "sp = q @ p" "st = u @ s" "CHR ''*'' \<notin> set q"
    "length u = length q"
    by (auto simp: backtrack_inv_def)
  from glob_prefix_match [of q p v] q g
  have len: "length q \<le> length v" and gp: "glob p (drop (length q) v)" by auto
  from v obtain w where w: "w \<noteq> []" "st = w @ v" by (auto simp: strict_suffix_def suffix_def)
  have "drop (length q) st = s" using q by simp
  then have s: "s = drop (length q) (w @ v)" using w by simp
  let ?r = "drop (length q) v"
  have "suffix ?r s"
  proof -
    have "s = drop (length q) w @ drop (length q - length w) v" using s by simp
    moreover have "suffix ?r (drop (length q - length w) v)"
      using suffix_drop [of "length q - (length q - length w)" "drop (length q - length w) v"]
      by (simp add: drop_drop)
    ultimately show ?thesis by (simp add: suffix_append)
  qed
  moreover have "length ?r < length s" using w s len by (cases w) auto
  ultimately have "strict_suffix ?r s" by (auto simp: strict_suffix_def)
  with gp show ?thesis by blast
qed

lemma strict_suffix_Cons_iff: "strict_suffix u (a # xs) \<longleftrightarrow> u = xs \<or> strict_suffix u xs"
  by (auto simp: strict_suffix_def suffix_Cons) (auto simp: suffix_def)

definition star_free :: "string \<Rightarrow> (string \<times> string) option \<Rightarrow> bool" where
  "star_free s star =
     (CHR ''*'' \<notin> set s \<and> (case star of None \<Rightarrow> True | Some (_, st) \<Rightarrow> CHR ''*'' \<notin> set st))"

lemma matchComponent_loop_correct:
  "backtrack_inv p s star \<Longrightarrow> star_free s star \<Longrightarrow>
   matchComponent_loop p s star \<longleftrightarrow> glob p s \<or> retry_glob star"
proof (induction p s star rule: matchComponent_loop.induct)
  case (1 p star)
  have "\<not> retry_glob star" using retry_shrinks [OF "1"(1)] by (auto simp: strict_suffix_def)
  then show ?case by (simp add: glob_Nil)
next
  case (2 p t ts star)
  note step = matchComponent_loop.simps(2) [of p t ts star]
  have t: "t \<noteq> CHR ''*''" using "2.prems"(2) by (auto simp: star_free_def)
  consider (hit) c ps where "p = c # ps" "matches_char c t"
    | (star) ps where "p = CHR ''*'' # ps" "\<not> matches_char CHR ''*'' t"
    | (miss) "\<not> (p \<noteq> [] \<and> matches_char (hd p) t)" "\<not> (p \<noteq> [] \<and> hd p = CHR ''*'')"
    by (cases p) auto
  then show ?case
  proof cases
    case hit
    then have c: "c \<noteq> CHR ''*''" using t matches_char_star by auto
    have "backtrack_inv ps ts star"
    proof (cases star)
      case (Some x)
      obtain sp st where x: "x = (sp, st)" by (cases x)
      with "2.prems"(1) hit Some obtain q u where "sp = q @ c # ps" "st = u @ t # ts"
        "CHR ''*'' \<notin> set q" "length u = length q"
        by (auto simp: backtrack_inv_def)
      then have "sp = (q @ [c]) @ ps \<and> st = (u @ [t]) @ ts \<and> CHR ''*'' \<notin> set (q @ [c]) \<and>
          length (u @ [t]) = length (q @ [c])"
        using c by simp
      then show ?thesis unfolding backtrack_inv_def Some x by fastforce
    qed (simp add: backtrack_inv_def)
    moreover have "star_free ts star" using "2.prems"(2) by (auto simp: star_free_def)
    ultimately show ?thesis unfolding step using "2.IH"(1) hit c by simp
  next
    case star
    have "backtrack_inv ps (t # ts) (Some (ps, t # ts))" by (simp add: backtrack_inv_def)
    moreover have "star_free (t # ts) (Some (ps, t # ts))"
      using "2.prems"(2) by (auto simp: star_free_def)
    ultimately have "matchComponent_loop p (t # ts) star \<longleftrightarrow>
        glob ps (t # ts) \<or> (\<exists>u. strict_suffix u (t # ts) \<and> glob ps u)"
      unfolding step using "2.IH"(2) star by (simp add: retry_glob_def)
    also have "\<dots> \<longleftrightarrow> glob p (t # ts)"
      unfolding star(1) glob_star by (auto simp: strict_suffix_def)
    also have "\<dots> \<longleftrightarrow> glob p (t # ts) \<or> retry_glob star"
    proof -
      have "retry_glob star \<Longrightarrow> glob p (t # ts)"
      proof -
        assume "retry_glob star"
        with retry_shrinks [OF "2.prems"(1)] obtain u where u: "strict_suffix u (t # ts)" "glob p u"
          by blast
        then obtain v where "suffix v u" "glob ps v" unfolding star(1) glob_star by blast
        moreover have "suffix u (t # ts)" using u(1) by (simp add: strict_suffix_def)
        ultimately show ?thesis unfolding star(1) glob_star using suffix_order.trans by blast
      qed
      then show ?thesis by blast
    qed
    finally show ?thesis .
  next
    case miss
    then have "\<not> glob p (t # ts)" by (cases p) auto
    show ?thesis
    proof (cases star)
      case None
      then show ?thesis using miss \<open>\<not> glob p (t # ts)\<close>
        unfolding step if_not_P [OF miss(1)] if_not_P [OF miss(2)] by (simp add: retry_glob_def)
    next
      case (Some x)
      obtain sp st where x: "x = (sp, st)" by (cases x)
      with "2.prems"(1) Some have "st \<noteq> []" by (auto simp: backtrack_inv_def)
      then obtain a st' where st: "st = a # st'" by (cases st) auto
      have "backtrack_inv sp st' (Some (sp, st'))" by (simp add: backtrack_inv_def)
      moreover have "star_free st' (Some (sp, st'))"
        using "2.prems"(2) Some x st by (auto simp: star_free_def)
      ultimately have "matchComponent_loop sp st' (Some (sp, st')) \<longleftrightarrow>
          glob sp st' \<or> (\<exists>u. strict_suffix u st' \<and> glob sp u)"
        using "2.IH"(3) [OF miss Some x [symmetric]] st by (simp add: retry_glob_def)
      also have "\<dots> \<longleftrightarrow> retry_glob star"
        unfolding retry_glob_def Some x st option.case prod.case strict_suffix_Cons_iff by blast
      finally show ?thesis
        using \<open>\<not> glob p (t # ts)\<close> Some x st
        unfolding step if_not_P [OF miss(1)] if_not_P [OF miss(2)] by simp
    qed
  qed
qed

lemma matchComponent_glob: "CHR ''*'' \<notin> set t \<Longrightarrow> matchComponent p t \<longleftrightarrow> glob p t"
  using matchComponent_loop_correct [of p t None]
  by (simp add: matchComponent_def backtrack_inv_def star_free_def retry_glob_def)

section \<open>The dynamic program against its specification\<close>

text \<open>The recursive formulation the code avoids: a component \<^verbatim>\<open>**\<close> absorbs any number of components.\<close>

fun path_glob :: "string list \<Rightarrow> string list \<Rightarrow> bool" where
  "path_glob [] path = (path = [])"
| "path_glob (c # cs) [] = (c = ''**'' \<and> path_glob cs [])"
| "path_glob (c # cs) (x # xs) =
     (if c = ''**'' then path_glob cs (x # xs) \<or> path_glob (c # cs) xs
      else matchComponent c x \<and> path_glob cs xs)"

lemma length_carry_scan [simp]: "length (carry_scan b rs) = length rs"
  by (induction rs arbitrary: b) (auto simp: Let_def)

lemma nth_carry_scan:
  "j < length rs \<Longrightarrow> carry_scan b rs ! j \<longleftrightarrow> b \<or> (\<exists>i\<le>j. rs ! i)"
proof (induction rs arbitrary: b j)
  case (Cons r rs)
  show ?case
  proof (cases j)
    case (Suc k)
    have "(\<exists>i\<le>Suc k. (r # rs) ! i) \<longleftrightarrow> r \<or> (\<exists>i\<le>k. rs ! i)"
      by (metis Suc_le_mono le0 nat.exhaust nth_Cons_0 nth_Cons_Suc)
    with Suc Cons show ?thesis by (auto simp: Let_def)
  qed (simp add: Let_def)
qed simp

lemma path_glob_many:
  "path_glob (''**'' # cs) path \<longleftrightarrow> (\<exists>k\<le>length path. path_glob cs (drop k path))"
proof (induction path)
  case Nil
  then show ?case by simp
next
  case (Cons x path)
  have "path_glob (''**'' # cs) (x # path) \<longleftrightarrow>
      path_glob cs (x # path) \<or> (\<exists>k\<le>length path. path_glob cs (drop k path))"
    by (simp add: Cons)
  also have "\<dots> \<longleftrightarrow> (\<exists>k\<le>length (x # path). path_glob cs (drop k (x # path)))"
    (is "?A \<or> (\<exists>k\<le>_. ?B k) \<longleftrightarrow> ?C")
  proof
    assume "?A \<or> (\<exists>k\<le>length path. ?B k)"
    then show ?C
    proof
      assume ?A then show ?C by (intro exI [of _ 0]) simp
    next
      assume "\<exists>k\<le>length path. ?B k"
      then obtain k where "k \<le> length path" "?B k" by blast
      then show ?C by (intro exI [of _ "Suc k"]) simp
    qed
  next
    assume ?C
    then obtain k where k: "k \<le> length (x # path)" "path_glob cs (drop k (x # path))" by blast
    then show "?A \<or> (\<exists>k\<le>length path. ?B k)" by (cases k) auto
  qed
  finally show ?case .
qed

lemma path_glob_one:
  "c \<noteq> ''**'' \<Longrightarrow>
   path_glob (c # cs) path \<longleftrightarrow>
     (path \<noteq> [] \<and> matchComponent c (hd path) \<and> path_glob cs (tl path))"
  by (cases path) auto

lemma length_advance [simp]:
  "length R = Suc (length path) \<Longrightarrow> length (advance path R c) = Suc (length path)"
  by (simp add: advance_def)

lemma nth_advance:
  assumes "length R = Suc (length path)" and "j \<le> length path"
  shows "advance path R c ! j \<longleftrightarrow>
    (if c = ''**'' then \<exists>i\<le>j. R ! i
     else \<exists>i. j = Suc i \<and> R ! i \<and> matchComponent c (path ! i))"
  using assms by (cases j) (auto simp: advance_def nth_carry_scan)

lemma dp_correct:
  "length R = Suc (length path) \<Longrightarrow>
   foldl (advance path) R pat ! length path \<longleftrightarrow>
     (\<exists>i\<le>length path. R ! i \<and> path_glob pat (drop i path))"
proof (induction pat arbitrary: R)
  case Nil
  then show ?case by auto
next
  case (Cons c cs)
  let ?n = "length path"
  have "foldl (advance path) R (c # cs) ! ?n \<longleftrightarrow>
      (\<exists>j\<le>?n. advance path R c ! j \<and> path_glob cs (drop j path))"
    using Cons by simp
  also have "\<dots> \<longleftrightarrow> (\<exists>i\<le>?n. R ! i \<and> path_glob (c # cs) (drop i path))"
  proof (cases "c = ''**''")
    case True
    have "(\<exists>j\<le>?n. (\<exists>i\<le>j. R ! i) \<and> path_glob cs (drop j path)) \<longleftrightarrow>
        (\<exists>i\<le>?n. R ! i \<and> (\<exists>k\<le>?n - i. path_glob cs (drop (k + i) path)))"
    proof
      assume "\<exists>j\<le>?n. (\<exists>i\<le>j. R ! i) \<and> path_glob cs (drop j path)"
      then obtain i j where "j \<le> ?n" "i \<le> j" "R ! i" "path_glob cs (drop j path)" by blast
      then have "i \<le> ?n \<and> R ! i \<and> j - i \<le> ?n - i \<and> path_glob cs (drop (j - i + i) path)" by simp
      then show "\<exists>i\<le>?n. R ! i \<and> (\<exists>k\<le>?n - i. path_glob cs (drop (k + i) path))" by blast
    next
      assume "\<exists>i\<le>?n. R ! i \<and> (\<exists>k\<le>?n - i. path_glob cs (drop (k + i) path))"
      then obtain i k where "i \<le> ?n" "R ! i" "k \<le> ?n - i" "path_glob cs (drop (k + i) path)" by blast
      then have "k + i \<le> ?n \<and> i \<le> k + i \<and> R ! i \<and> path_glob cs (drop (k + i) path)" by simp
      then show "\<exists>j\<le>?n. (\<exists>i\<le>j. R ! i) \<and> path_glob cs (drop j path)" by blast
    qed
    with True Cons.prems show ?thesis by (simp add: nth_advance path_glob_many cong: conj_cong)
  next
    case False
    have "(\<exists>j\<le>?n. (\<exists>i. j = Suc i \<and> R ! i \<and> matchComponent c (path ! i)) \<and>
          path_glob cs (drop j path)) \<longleftrightarrow>
        (\<exists>i<?n. R ! i \<and> matchComponent c (path ! i) \<and> path_glob cs (drop (Suc i) path))"
      by (metis Suc_le_eq)
    also have "\<dots> \<longleftrightarrow> (\<exists>i\<le>?n. R ! i \<and> path_glob (c # cs) (drop i path))"
      using False
      by (auto simp: path_glob_one hd_drop_conv_nth drop_Suc tl_drop le_less)
    finally show ?thesis using False Cons.prems by (simp add: nth_advance cong: conj_cong)
  qed
  finally show ?case .
qed

lemma matchAll_path_glob: "matchAll pat path \<longleftrightarrow> path_glob pat path"
proof -
  have "i \<le> length path \<Longrightarrow> (True # replicate (length path) False) ! i \<longleftrightarrow> i = 0" for i
    by (cases i) auto
  then have "(\<exists>i\<le>length path. (True # replicate (length path) False) ! i \<and> path_glob pat (drop i path))
      \<longleftrightarrow> path_glob pat path"
    by (auto cong: conj_cong)
  then show ?thesis
    using dp_correct [of "True # replicate (length path) False" path pat] by (simp add: matchAll_def)
qed

section \<open>Evaluation of rules\<close>

text \<open>Both continuations of the hit test try the same pattern, so the \<^verbatim>\<open>directory\<close> flag does not matter.\<close>

lemma hits_iff:
  "hits r p \<longleftrightarrow> match (pattern r) p \<or> match (pattern r @ ''/**'') p"
  by (auto simp: hits_def Let_def)

lemma fold_last_wins:
  "foldl (\<lambda>b r. if h r then v r else b) b0 rs \<longleftrightarrow>
     (case find h (rev rs) of Some r \<Rightarrow> v r | None \<Rightarrow> b0)"
  by (induction rs rule: rev_induct) auto

lemma preserves_last_match:
  "preserves rules path \<longleftrightarrow>
     (case find (\<lambda>r. hits r (normalise path)) (rev (m_rules rules)) of
        Some r \<Rightarrow> \<not> negated r | None \<Rightarrow> False)"
  by (simp add: preserves_def Let_def fold_last_wins)

lemma matchAll_append_many:
  "path_glob cs path \<Longrightarrow> path_glob (cs @ [''**'']) (path @ rest)"
proof (induction cs path rule: path_glob.induct)
  case (1 path)
  then show ?case unfolding append_Nil path_glob_many by (intro exI [of _ "length rest"]) simp
next
  case (2 c cs)
  then show ?case by (cases rest) auto
qed (auto split: if_splits)

lemma components_append_slash:
  "components (a @ CHR ''/'' # b) = components a @ components b"
  by (simp add: components_def split_on_append_sep)

lemma match_below:
  "match p a \<Longrightarrow> match (p @ ''/**'') (a @ CHR ''/'' # b)"
proof -
  assume "match p a"
  then have "path_glob (components p) (components a)" by (simp add: match_def matchAll_path_glob)
  then have "path_glob (components p @ [''**'']) (components a @ components b)"
    by (rule matchAll_append_many)
  moreover have "components ''**'' = [''**'']" by (simp add: components_def)
  ultimately show ?thesis
    using components_append_slash [of p "''**''"] by (simp add: match_def matchAll_path_glob components_append_slash)
qed

section \<open>Case\<close>

lemma lower_lower [simp]: "lower (lower c) = lower c"
proof (cases "c \<ge> CHR ''A'' \<and> c \<le> CHR ''Z''")
  case True
  then have "(of_char (lower c) :: nat) = of_char c + 32" "65 \<le> (of_char c :: nat)"
    using lower_range by (auto simp: less_eq_char_def)
  then have "\<not> lower c \<le> CHR ''Z''" by (simp add: less_eq_char_def)
  then show ?thesis by (simp add: lower_def [of "lower c"])
qed (auto simp: lower_def)

lemma lower_eq_slash: "lower t = CHR ''/'' \<longleftrightarrow> t = CHR ''/''"
proof (cases "t \<ge> CHR ''A'' \<and> t \<le> CHR ''Z''")
  case True
  then have "(of_char (lower t) :: nat) = of_char t + 32" "65 \<le> (of_char t :: nat)"
    using lower_range by (auto simp: less_eq_char_def)
  moreover have "(of_char CHR ''/'' :: nat) = 47" by simp
  ultimately have "lower t \<noteq> CHR ''/''" "t \<noteq> CHR ''/''" by auto
  then show ?thesis by simp
qed (auto simp: lower_def)

lemma matches_char_lower [simp]: "matches_char p (lower t) = matches_char p t"
  by (simp add: matches_char_def)

lemma matchComponent_loop_lower:
  "matchComponent_loop p (map lower s) (map_option (map_prod id (map lower)) star) =
   matchComponent_loop p s star"
proof (induction p s star rule: matchComponent_loop.induct)
  case (2 p t ts star)
  show ?case
  proof (cases "p \<noteq> [] \<and> matches_char (hd p) t")
    case True
    with "2.IH"(1) show ?thesis by (simp add: matchComponent_loop.simps(2))
  next
    case miss: False
    show ?thesis
    proof (cases "p \<noteq> [] \<and> hd p = CHR ''*''")
      case True
      with miss "2.IH"(2) show ?thesis by (simp add: matchComponent_loop.simps(2) [of p])
    next
      case False
      with miss "2.IH"(3) show ?thesis
        by (cases star) (auto simp: matchComponent_loop.simps(2) [of p] map_tl)
    qed
  qed
qed simp

lemma matchComponent_lower: "matchComponent p (map lower t) = matchComponent p t"
  using matchComponent_loop_lower [of p t None] by (simp add: matchComponent_def)

lemma path_glob_lower: "path_glob cs (map (map lower) path) = path_glob cs path"
  by (induction cs path rule: path_glob.induct) (auto simp: matchComponent_lower)

lemma map_hd_tl_split:
  "split_on CHR ''/'' (map lower s) = map (map lower) (split_on CHR ''/'' s)"
proof (induction s)
  case (Cons c s)
  then show ?case
    by (cases "split_on CHR ''/'' s") (auto simp: split_on_Cons lower_eq_slash)
qed simp

lemma components_lower: "components (map lower s) = map (map lower) (components s)"
  by (simp add: components_def map_hd_tl_split filter_map o_def)

lemma match_lower: "match p (map lower s) = match p s"
  by (simp add: match_def matchAll_path_glob components_lower path_glob_lower)

lemma normalise_loop_lower: "normalise_loop b (map lower s) = map lower (normalise_loop b s)"
  by (induction s arbitrary: b) (auto simp: lower_eq_slash)

lemma preserves_lower: "preserves rules (map lower path) = preserves rules path"
  by (simp add: preserves_def hits_def normalise_def normalise_loop_lower match_lower Let_def)

section \<open>What parsing guarantees\<close>

definition wf_rules :: "int \<Rightarrow> PreserveRules \<Rightarrow> bool" where
  "wf_rules n out =
     (list_all (\<lambda>r. pattern r \<noteq> [] \<and> \<not> contains ''..'' (pattern r) \<and> 1 \<le> line r \<and> line r \<le> n) (m_rules out) \<and>
      sorted_wrt (\<lambda>r s. line r < line s) (m_rules out))"

lemma wf_rules_mono: "wf_rules n out \<Longrightarrow> n \<le> m \<Longrightarrow> wf_rules m out"
  by (auto simp: wf_rules_def list_all_iff)

lemma wf_rules_warn [simp]: "wf_rules n (out\<lparr>m_warnings := w\<rparr>) = wf_rules n out"
  by (simp add: wf_rules_def)

lemma parse_line_wf: "0 \<le> n \<Longrightarrow> wf_rules n out \<Longrightarrow> wf_rules (n + 1) (parse_line (n + 1) l out)"
  using wf_rules_mono [of n out "n + 1"]
  by (auto simp: parse_line_def Let_def wf_rules_def list_all_iff sorted_wrt_append)

lemma parse_lines_wf:
  "0 \<le> n \<Longrightarrow> wf_rules n out \<Longrightarrow> wf_rules (n + int (length ls)) (parse_lines n ls out)"
proof (induction n ls out rule: parse_lines.induct)
  case (2 n l out)
  then show ?case using parse_line_wf [of n out l] wf_rules_mono [of n out "n + 1"] by auto
next
  case (3 n l l' ls out)
  then show ?case using parse_line_wf [of n out l] by (simp add: algebra_simps)
qed simp

section \<open>Properties\<close>

text \<open>The specification of globbing: a component pattern is read by \<^const>\<open>glob\<close>, and a component \<^verbatim>\<open>**\<close>
  absorbs any number of path components.\<close>

fun glob_path :: "string list \<Rightarrow> string list \<Rightarrow> bool" where
  "glob_path [] path = (path = [])"
| "glob_path (c # cs) [] = (c = ''**'' \<and> glob_path cs [])"
| "glob_path (c # cs) (x # xs) =
     (if c = ''**'' then glob_path cs (x # xs) \<or> glob_path (c # cs) xs
      else glob c x \<and> glob_path cs xs)"

lemma path_glob_glob_path:
  "\<forall>x\<in>set path. CHR ''*'' \<notin> set x \<Longrightarrow> path_glob cs path = glob_path cs path"
  by (induction cs path rule: path_glob.induct) (auto simp: matchComponent_glob)

lemma components_subset: "p \<in> set (components s) \<Longrightarrow> set p \<subseteq> set s"
  using split_on_part_subset by (auto simp: components_def)

text \<open>C18: The matcher, with its single backtrack point inside a component and its dynamic program across
  components, decides the recursive meaning of the pattern, for every path without a star character.\<close>

theorem globMatch_correct:
  assumes "CHR ''*'' \<notin> set path"
  shows "globMatch pat path = glob_path (components pat) (components path)"
proof -
  have "\<forall>x\<in>set (components path). CHR ''*'' \<notin> set x"
    using assms components_subset by blast
  then show ?thesis
    by (simp add: globMatch_def match_def matchAll_path_glob path_glob_glob_path)
qed

theorem globMatch_correct_witness:
  "globMatch ''atmosphere/**/*.ini'' ''atmosphere/contents/x/a.ini''"
proof -
  have "CHR ''*'' \<notin> set ''atmosphere/contents/x/a.ini''" by simp
  from globMatch_correct [OF this, of "''atmosphere/**/*.ini''"] show ?thesis
    by (rule iffD2) code_simp
qed

text \<open>For a path that does contain a star character the matcher can be wrong: a literal comparison is
  tried before the wildcard, so the pattern that matches everything refuses a name that begins with a
  star.\<close>

theorem globMatch_star_in_path:
  "\<not> globMatch ''*'' ''*a'' \<and> glob_path (components ''*'') (components ''*a'')"
  by code_simp


text \<open>Parsing never fails, and every rule it keeps names something: a non-empty pattern without
  \<^verbatim>\<open>..\<close>, with a 1-based line number, in file order.\<close>

theorem parse_rules_wf:
  "r \<in> set (m_rules (parse s)) \<Longrightarrow>
   pattern r \<noteq> [] \<and> \<not> contains ''..'' (pattern r) \<and> 1 \<le> line r \<and>
   sorted_wrt (\<lambda>r s. line r < line s) (m_rules (parse s))"
proof -
  assume r: "r \<in> set (m_rules (parse s))"
  have "wf_rules 0 \<lparr>m_rules = [], m_warnings = []\<rparr>" by (simp add: wf_rules_def)
  from parse_lines_wf [OF order_refl this, of "split_on CHR 0x0A s"] r
  show ?thesis by (auto simp: parse_def wf_rules_def list_all_iff)
qed

lemma defaults_rules:
  "m_rules defaults =
     [\<lparr>pattern = ''bootloader/hekate_ipl.ini'', negated = False, directory = False, line = 2\<rparr>,
      \<lparr>pattern = ''bootloader/ini'', negated = False, directory = True, line = 3\<rparr>,
      \<lparr>pattern = ''emuMMC/emummc.ini'', negated = False, directory = False, line = 4\<rparr>]"
  by code_simp

theorem parse_rules_wf_witness:
  "contains ''..'' ''bootloader/ini'' = False"
  using parse_rules_wf [of "\<lparr>pattern = ''bootloader/ini'', negated = False, directory = True, line = 3\<rparr>"
      "''# Defaults applied when no preserve.txt exists.'' @ [CHR 0x0A] @
            ''bootloader/hekate_ipl.ini'' @ [CHR 0x0A] @
            ''bootloader/ini/'' @ [CHR 0x0A] @
            ''emuMMC/emummc.ini'' @ [CHR 0x0A]", folded defaults_def]
  unfolding defaults_rules by simp

lemma find_SomeD: "find P xs = Some x \<Longrightarrow> P x \<and> x \<in> set xs"
  by (induction xs) (auto split: if_splits)

lemma preserves_positive:
  assumes "\<forall>r\<in>set (m_rules rules). \<not> negated r"
  shows "preserves rules path \<longleftrightarrow> (\<exists>r\<in>set (m_rules rules). hits r (normalise path))"
proof (cases "find (\<lambda>r. hits r (normalise path)) (rev (m_rules rules))")
  case None
  then have "\<forall>r\<in>set (m_rules rules). \<not> hits r (normalise path)" by (simp add: find_None_iff)
  then show ?thesis by (simp add: preserves_last_match None)
next
  case (Some r)
  then have r: "hits r (normalise path)" "r \<in> set (m_rules rules)"
    using find_SomeD [OF Some] by auto
  with assms have "preserves rules path" by (simp add: preserves_last_match Some)
  with r show ?thesis by blast
qed

text \<open>With no \<^verbatim>\<open>preserve.txt\<close> the defaults keep the boot entries and everything below their directory,
  whatever it is called, and the emuMMC pointer.\<close>

theorem defaults_keep_boot_configuration:
  "preserves defaults ''bootloader/hekate_ipl.ini'' \<and>
   preserves defaults (''bootloader/ini/'' @ name) \<and>
   preserves defaults ''emuMMC/emummc.ini'' \<and>
   \<not> preserves defaults ''atmosphere/package3''"
proof -
  let ?r = "\<lparr>pattern = ''bootloader/ini'', negated = False, directory = True, line = 3\<rparr>"
  have pos: "\<forall>r\<in>set (m_rules defaults). \<not> negated r" by (simp add: defaults_rules)
  have "normalise (''bootloader/ini/'' @ name) = ''bootloader/ini'' @ CHR ''/'' # normalise_loop True name"
    by (simp add: normalise_def)
  moreover have "match ''bootloader/ini'' ''bootloader/ini''" by code_simp
  ultimately have "match (pattern ?r @ ''/**'') (normalise (''bootloader/ini/'' @ name))"
    using match_below [of "''bootloader/ini''" "''bootloader/ini''"] by (simp only: Rule.select_convs)
  then have "hits ?r (normalise (''bootloader/ini/'' @ name))" unfolding hits_iff by blast
  moreover have "?r \<in> set (m_rules defaults)" by (simp add: defaults_rules)
  ultimately have "preserves defaults (''bootloader/ini/'' @ name)"
    unfolding preserves_positive [OF pos] by blast
  moreover have "preserves defaults ''bootloader/hekate_ipl.ini''" by code_simp
  moreover have "preserves defaults ''emuMMC/emummc.ini''" by code_simp
  moreover have "\<not> preserves defaults ''atmosphere/package3''" by code_simp
  ultimately show ?thesis by blast
qed

end
