(* ===== verification/Extraction_Policy.thy ===== *)
theory Extraction_Policy
  imports Traversal_Guard Preserve_Rules
begin

text \<open>
  The decision for one archive entry: \<^verbatim>\<open>core/paths/extraction_policy.hpp\<close> and
  \<^verbatim>\<open>extraction_policy.cpp\<close>.  The traversal guard decides first, the user's preserve rules second.
\<close>

datatype EntryAction = Write | CreateDirectory | SkipPreserved | Reject

record EntryDecision =
  action :: EntryAction
  destination :: string
  error :: PathError
  reason :: string

record ExtractionPolicy =
  m_root :: string
  m_preserve :: PreserveRules

definition writes :: "EntryDecision \<Rightarrow> bool" where
  "writes d = (action d = Write \<or> action d = CreateDirectory)"

definition empty_decision :: EntryDecision where
  "empty_decision = \<lparr>action = Reject, destination = [], error = PathError.Empty, reason = []\<rparr>"

fun describe_EntryAction :: "EntryAction \<Rightarrow> string" where
  "describe_EntryAction Write = ''write''"
| "describe_EntryAction CreateDirectory = ''create directory''"
| "describe_EntryAction SkipPreserved = ''skip, preserved by the user''"
| "describe_EntryAction Reject = ''reject''"

definition decide :: "ExtractionPolicy \<Rightarrow> string \<Rightarrow> EntryDecision" where
  "decide policy entryName =
     (case resolveUnder (m_root policy) entryName of
        Inl e \<Rightarrow>
          empty_decision\<lparr>action := Reject, error := e,
            reason := describe_PathError e @ '': '' @ entryName\<rparr>
      | Inr dest \<Rightarrow>
          (let directory = (entryName \<noteq> [] \<and> last entryName = CHR ''/'');
               relative = (if directory then butlast entryName else entryName) in
           if preserves (m_preserve policy) relative then
             empty_decision\<lparr>action := SkipPreserved, destination := dest,
               reason := ''preserved by preserve.txt: '' @ relative\<rparr>
           else empty_decision\<lparr>action := (if directory then CreateDirectory else Write),
                  destination := dest\<rparr>))"

lemma decide_resolved:
  "action (decide policy entry) \<noteq> Reject \<longleftrightarrow>
     resolveUnder (m_root policy) entry = Inr (destination (decide policy entry))"
  by (auto simp: decide_def empty_decision_def Let_def split: sum.splits)

text \<open>C19: A decision to write is safe: the destination leads to the policy's root followed by the entry's
  own components, no user rule preserves the entry, and the entry is created as a directory exactly when
  its name ends in a slash.  An entry that is not safe is rejected and has no destination.\<close>

theorem decide_writes_safe:
  "(writes (decide policy entry) \<longrightarrow>
      location (destination (decide policy entry)) =
        location (m_root policy) @ split_on CHR ''/'' (dropOneSlash entry) \<and>
      \<not> preserves (m_preserve policy) (dropOneSlash entry) \<and>
      (action (decide policy entry) = CreateDirectory) = (last entry = CHR ''/'')) \<and>
   (\<not> safe_entry entry \<longrightarrow>
      action (decide policy entry) = Reject \<and> destination (decide policy entry) = [])"
proof (cases "resolveUnder (m_root policy) entry")
  case (Inl e)
  then show ?thesis by (simp add: decide_def writes_def empty_decision_def)
next
  case (Inr dest)
  then have safe: "safe_entry entry" and d: "dest = glue (m_root policy) @ entry"
    and r: "m_root policy \<noteq> []"
    by (auto simp: resolveUnder_Inr_iff)
  have "location dest = location (m_root policy) @ split_on CHR ''/'' (dropOneSlash entry)"
    using safe r by (simp add: d location_glue location_entry)
  moreover have "entry \<noteq> []" using safe by (simp add: safe_entry_def)
  ultimately show ?thesis
    using Inr safe by (simp add: decide_def writes_def empty_decision_def Let_def dropOneSlash_def)
qed

theorem decide_writes_safe_witness:
  "location ''/switch/app.nro'' = location ''/'' @ [''switch'', ''app.nro'']"
proof -
  let ?policy = "\<lparr>m_root = ''/'', m_preserve = defaults\<rparr>"
  have "writes (decide ?policy ''switch/app.nro'')"
    "destination (decide ?policy ''switch/app.nro'') = ''/switch/app.nro''"
    "split_on CHR ''/'' (dropOneSlash ''switch/app.nro'') = [''switch'', ''app.nro'']"
    by code_simp+
  with decide_writes_safe [of ?policy "''switch/app.nro''"] show ?thesis
    by (simp only: ExtractionPolicy.select_convs simp_thms)
qed

end
