(* ===== verification/Sha256.thy ===== *)
theory Sha256
  imports Prelude
begin

unbundle bit_operations_syntax

text \<open>
  The streaming SHA-256 of \<^verbatim>\<open>core/hash/sha256.hpp\<close> and \<^verbatim>\<open>sha256.cpp\<close>, with its hexadecimal form and
  the constant-time comparison.  The object that consumes chunks is shown to compute the one-shot
  definition (pad the whole message, compress its blocks in order), so a digest does not depend on how the
  bytes arrive.
\<close>

section \<open>Types and constants\<close>

type_synonym byte = "8 word"
type_synonym Digest = "byte list"

definition kDigestSize :: nat where
  "kDigestSize = 32"

text \<open>The table in the rows of the source.\<close>

definition kRoundConstants :: "32 word list" where
  "kRoundConstants =
     concat
       [[0x428a2f98, 0x71374491, 0xb5c0fbcf, 0xe9b5dba5, 0x3956c25b, 0x59f111f1, 0x923f82a4],
        [0xab1c5ed5, 0xd807aa98, 0x12835b01, 0x243185be, 0x550c7dc3, 0x72be5d74, 0x80deb1fe],
        [0x9bdc06a7, 0xc19bf174, 0xe49b69c1, 0xefbe4786, 0x0fc19dc6, 0x240ca1cc, 0x2de92c6f],
        [0x4a7484aa, 0x5cb0a9dc, 0x76f988da, 0x983e5152, 0xa831c66d, 0xb00327c8, 0xbf597fc7],
        [0xc6e00bf3, 0xd5a79147, 0x06ca6351, 0x14292967, 0x27b70a85, 0x2e1b2138, 0x4d2c6dfc],
        [0x53380d13, 0x650a7354, 0x766a0abb, 0x81c2c92e, 0x92722c85, 0xa2bfe8a1, 0xa81a664b],
        [0xc24b8b70, 0xc76c51a3, 0xd192e819, 0xd6990624, 0xf40e3585, 0x106aa070, 0x19a4c116],
        [0x1e376c08, 0x2748774c, 0x34b0bcb5, 0x391c0cb3, 0x4ed8aa4a, 0x5b9cca4f, 0x682e6ff3],
        [0x748f82ee, 0x78a5636f, 0x84c87814, 0x8cc70208, 0x90befffa, 0xa4506ceb, 0xbef9a3f7],
        [0xc67178f2]]"

definition kInitialState :: "32 word list" where
  "kInitialState =
     [0x6a09e667, 0xbb67ae85, 0x3c6ef372, 0xa54ff53a, 0x510e527f, 0x9b05688c, 0x1f83d9ab, 0x5be0cd19]"

record Sha256 =
  m_state :: "32 word list"
  m_buffer :: "byte list"
  m_bitCount :: "64 word"
  m_bufferUsed :: nat
  m_finished :: bool

section \<open>The compression function\<close>

definition rotr :: "32 word \<Rightarrow> nat \<Rightarrow> 32 word" where
  "rotr x n = drop_bit n x OR push_bit (32 - n) x"

definition ch :: "32 word \<Rightarrow> 32 word \<Rightarrow> 32 word \<Rightarrow> 32 word" where
  "ch x y z = (x AND y) XOR (NOT x AND z)"

definition maj :: "32 word \<Rightarrow> 32 word \<Rightarrow> 32 word \<Rightarrow> 32 word" where
  "maj x y z = (x AND y) XOR (x AND z) XOR (y AND z)"

definition bigSigma0 :: "32 word \<Rightarrow> 32 word" where
  "bigSigma0 x = rotr x 2 XOR rotr x 13 XOR rotr x 22"

definition bigSigma1 :: "32 word \<Rightarrow> 32 word" where
  "bigSigma1 x = rotr x 6 XOR rotr x 11 XOR rotr x 25"

definition smallSigma0 :: "32 word \<Rightarrow> 32 word" where
  "smallSigma0 x = rotr x 7 XOR rotr x 18 XOR drop_bit 3 x"

definition smallSigma1 :: "32 word \<Rightarrow> 32 word" where
  "smallSigma1 x = rotr x 17 XOR rotr x 19 XOR drop_bit 10 x"

definition loadBigEndian :: "byte list \<Rightarrow> nat \<Rightarrow> 32 word" where
  "loadBigEndian p i =
     push_bit 24 (ucast (p ! i)) OR push_bit 16 (ucast (p ! (i + 1))) OR
     push_bit 8 (ucast (p ! (i + 2))) OR ucast (p ! (i + 3))"

text \<open>The message schedule: the first 16 words are loaded from the block, the others appended one at a
  time.\<close>

definition schedule_step :: "32 word list \<Rightarrow> nat \<Rightarrow> 32 word list" where
  "schedule_step w i =
     w @ [smallSigma1 (w ! (i - 2)) + w ! (i - 7) + smallSigma0 (w ! (i - 15)) + w ! (i - 16)]"

definition schedule :: "byte list \<Rightarrow> 32 word list" where
  "schedule block = foldl schedule_step (map (\<lambda>i. loadBigEndian block (i * 4)) [0..<16]) [16..<64]"

type_synonym regs =
  "32 word \<times> 32 word \<times> 32 word \<times> 32 word \<times> 32 word \<times> 32 word \<times> 32 word \<times> 32 word"

definition round_step :: "regs \<Rightarrow> 32 word \<times> 32 word \<Rightarrow> regs" where
  "round_step r kw =
     (case r of (a, b, c, d, e, f, g, h) \<Rightarrow>
        (let t1 = h + bigSigma1 e + ch e f g + fst kw + snd kw;
             t2 = bigSigma0 a + maj a b c
         in (t1 + t2, a, b, c, d + t1, e, f, g)))"

definition compress_words :: "32 word list \<Rightarrow> byte list \<Rightarrow> 32 word list" where
  "compress_words st block =
     (case foldl round_step (st ! 0, st ! 1, st ! 2, st ! 3, st ! 4, st ! 5, st ! 6, st ! 7)
             (zip kRoundConstants (schedule block)) of
        (a, b, c, d, e, f, g, h) \<Rightarrow>
          [st ! 0 + a, st ! 1 + b, st ! 2 + c, st ! 3 + d,
           st ! 4 + e, st ! 5 + f, st ! 6 + g, st ! 7 + h])"

definition compress :: "Sha256 \<Rightarrow> byte list \<Rightarrow> Sha256" where
  "compress s block = s\<lparr>m_state := compress_words (m_state s) block\<rparr>"

section \<open>The object\<close>

definition reset :: Sha256 where
  "reset = \<lparr>m_state = kInitialState, m_buffer = replicate 64 0, m_bitCount = 0,
            m_bufferUsed = 0, m_finished = False\<rparr>"

definition overwrite :: "'a list \<Rightarrow> nat \<Rightarrow> 'a list \<Rightarrow> 'a list" where
  "overwrite buf at xs = take at buf @ xs @ drop (at + length xs) buf"

text \<open>The loop over whole blocks of the caller's data, and what is left behind them.\<close>

function consume :: "Sha256 \<Rightarrow> byte list \<Rightarrow> Sha256 \<times> byte list" where
  "consume s p = (if length p \<ge> 64 then consume (compress s (take 64 p)) (drop 64 p) else (s, p))"
  by pat_completeness auto
termination
  by (relation "measure (\<lambda>(s, p). length p)") auto

declare consume.simps [simp del]

text \<open>Topping up a partly filled buffer.\<close>

definition top_up :: "Sha256 \<Rightarrow> byte list \<Rightarrow> Sha256 \<times> byte list" where
  "top_up s p =
     (if m_bufferUsed s > 0 then
        (let need = 64 - m_bufferUsed s;
             n = (if length p < need then length p else need);
             s1 = s\<lparr>m_buffer := overwrite (m_buffer s) (m_bufferUsed s) (take n p),
                    m_bufferUsed := m_bufferUsed s + n\<rparr>
         in (if m_bufferUsed s1 = 64 then (compress s1 (m_buffer s1))\<lparr>m_bufferUsed := 0\<rparr> else s1,
             drop n p))
      else (s, p))"

definition update :: "Sha256 \<Rightarrow> byte list \<Rightarrow> Sha256" where
  "update s data =
     (if m_finished s \<or> data = [] then s
      else
        (let s0 = s\<lparr>m_bitCount := m_bitCount s + of_nat (length data) * 8\<rparr>;
             (s1, p) = top_up s0 data;
             (s2, rest) = consume s1 p
         in if length rest > 0 then
              s2\<lparr>m_buffer := overwrite (m_buffer s2) 0 rest, m_bufferUsed := length rest\<rparr>
            else s2))"

text \<open>The zero padding of \<^verbatim>\<open>finish\<close>.  From any object the class can be in, 64 rounds are enough to reach
  56 bytes in the buffer.\<close>

primrec pad_zeros :: "nat \<Rightarrow> 64 word \<Rightarrow> Sha256 \<Rightarrow> Sha256" where
  "pad_zeros 0 bits s = s"
| "pad_zeros (Suc n) bits s =
     (if m_bufferUsed s \<noteq> 56 then pad_zeros n bits ((update s [0])\<lparr>m_bitCount := bits\<rparr>) else s)"

definition lengthBytes :: "64 word \<Rightarrow> byte list" where
  "lengthBytes bits = map (\<lambda>i. ucast (drop_bit ((7 - i) * 8) bits AND 0xFF)) [0..<8]"

definition digest_bytes :: "32 word list \<Rightarrow> Digest" where
  "digest_bytes st =
     concat (map (\<lambda>w. [ucast (drop_bit 24 w AND 0xFF), ucast (drop_bit 16 w AND 0xFF),
                       ucast (drop_bit 8 w AND 0xFF), ucast (w AND 0xFF)]) st)"

definition close :: "Sha256 \<Rightarrow> Sha256" where
  "close s =
     (if \<not> m_finished s then
        (let bits = m_bitCount s;
             s1 = (update s [0x80])\<lparr>m_bitCount := bits\<rparr>;
             s2 = pad_zeros 64 bits s1;
             s3 = s2\<lparr>m_buffer := overwrite (m_buffer s2) 56 (lengthBytes bits)\<rparr>;
             s4 = compress s3 (m_buffer s3)
         in s4\<lparr>m_bufferUsed := 0, m_finished := True\<rparr>)
      else s)"

definition finish :: "Sha256 \<Rightarrow> Digest \<times> Sha256" where
  "finish s = (let s' = close s in (digest_bytes (m_state s'), s'))"

definition bytes_of :: "string \<Rightarrow> byte list" where
  "bytes_of s = map of_char s"

definition sha256_of :: "string \<Rightarrow> Digest" where
  "sha256_of data = fst (finish (update reset (bytes_of data)))"

section \<open>Hexadecimal\<close>

definition kHexDigits :: string where
  "kHexDigits = ''0123456789abcdef''"

definition toHex :: "Digest \<Rightarrow> string" where
  "toHex digest =
     concat (map (\<lambda>b. [kHexDigits ! unat (drop_bit 4 b AND 0x0F), kHexDigits ! unat (b AND 0x0F)]) digest)"

definition finishHex :: "Sha256 \<Rightarrow> string" where
  "finishHex s = toHex (fst (finish s))"

definition hexOf :: "string \<Rightarrow> string" where
  "hexOf data = toHex (sha256_of data)"

definition hex_digit :: "char \<Rightarrow> byte option" where
  "hex_digit c =
     (if c \<ge> CHR ''0'' \<and> c \<le> CHR ''9'' then Some (of_char c - 48)
      else if c \<ge> CHR ''a'' \<and> c \<le> CHR ''f'' then Some ((of_char c - 97) + 10)
      else None)"

fun fromHex_loop :: "string \<Rightarrow> Digest option" where
  "fromHex_loop (c # d # rest) =
     (case hex_digit c of
        None \<Rightarrow> None
      | Some hi \<Rightarrow>
          (case hex_digit d of
             None \<Rightarrow> None
           | Some lo \<Rightarrow>
               (let val = push_bit 4 (push_bit 4 0 OR hi) OR lo in
                map_option (\<lambda>bs. val # bs) (fromHex_loop rest))))"
| "fromHex_loop _ = Some []"

definition fromHex :: "string \<Rightarrow> Digest option" where
  "fromHex hex = (if length hex \<noteq> kDigestSize * 2 then None else fromHex_loop hex)"

definition digestsEqual :: "Digest \<Rightarrow> Digest \<Rightarrow> bool" where
  "digestsEqual a b =
     (foldl (\<lambda>diff i. diff OR (a ! i XOR b ! i)) 0 [0..<kDigestSize] = 0)"

section \<open>The one-shot definition\<close>

text \<open>Compress the whole blocks of a message in order; \<open>residue\<close> is what does not fill a block.\<close>

function absorb :: "32 word list \<Rightarrow> byte list \<Rightarrow> 32 word list" where
  "absorb st m = (if length m \<ge> 64 then absorb (compress_words st (take 64 m)) (drop 64 m) else st)"
  by pat_completeness auto
termination
  by (relation "measure (\<lambda>(st, m). length m)") auto

declare absorb.simps [simp del]

definition residue :: "byte list \<Rightarrow> byte list" where
  "residue m = drop (length m - length m mod 64) m"

definition zero_pad :: "byte list \<Rightarrow> nat" where
  "zero_pad m = (120 - length m mod 64) mod 64"

definition pad_message :: "byte list \<Rightarrow> byte list" where
  "pad_message m =
     (let m1 = m @ [0x80] in m1 @ replicate (zero_pad m1) 0 @ lengthBytes (of_nat (length m) * 8))"

definition sha256_spec :: "byte list \<Rightarrow> Digest" where
  "sha256_spec m = digest_bytes (absorb kInitialState (pad_message m))"

lemma length_residue [simp]: "length (residue m) = length m mod 64"
  by (simp add: residue_def)

lemma absorb_short [simp]: "length m < 64 \<Longrightarrow> absorb st m = st"
  by (simp add: absorb.simps)

lemma absorb_block: "length b = 64 \<Longrightarrow> absorb st (b @ m) = absorb (compress_words st b) m"
  by (subst absorb.simps) simp

lemma absorb_append: "length a mod 64 = 0 \<Longrightarrow> absorb st (a @ b) = absorb (absorb st a) b"
proof (induction st a rule: absorb.induct)
  case (1 st a)
  show ?case
  proof (cases "64 \<le> length a")
    case True
    have a: "a @ b = take 64 a @ (drop 64 a @ b)" by simp
    have "length (drop 64 a) mod 64 = 0" using True 1 by (simp add: le_mod_geq)
    with 1 True have "absorb (compress_words st (take 64 a)) (drop 64 a @ b) =
        absorb (absorb (compress_words st (take 64 a)) (drop 64 a)) b" by blast
    moreover have "absorb st (a @ b) = absorb (compress_words st (take 64 a)) (drop 64 a @ b)"
      using True by (subst a, intro absorb_block) simp
    moreover have "absorb st a = absorb (compress_words st (take 64 a)) (drop 64 a)"
      using True by (subst absorb.simps) simp
    ultimately show ?thesis by simp
  next
    case False
    with 1 have "a = []" by simp
    then show ?thesis by simp
  qed
qed

lemma residue_append: "length a mod 64 = 0 \<Longrightarrow> residue (a @ b) = residue b"
proof -
  assume a: "length a mod 64 = 0"
  then have "(length a + length b) mod 64 = length b mod 64" by (simp add: mod_add_eq [symmetric])
  moreover have "length b mod 64 \<le> length b" by simp
  ultimately have "length (a @ b) - length (a @ b) mod 64 = length a + (length b - length b mod 64)"
    by simp
  then show ?thesis unfolding residue_def by simp
qed

lemma residue_short [simp]: "length m < 64 \<Longrightarrow> residue m = m"
  by (simp add: residue_def)

lemma full_residue:
  obtains full where "m = full @ residue m" and "length full mod 64 = 0"
proof
  show "m = take (length m - length m mod 64) m @ residue m" by (simp add: residue_def)
  show "length (take (length m - length m mod 64) m) mod 64 = 0"
    by (simp add: minus_mod_eq_mult_div)
qed

lemma absorb_residue: "absorb st m = absorb st (take (length m - length m mod 64) m)"
proof -
  let ?f = "take (length m - length m mod 64) m"
  have "length ?f mod 64 = 0" by (simp add: minus_mod_eq_mult_div)
  moreover have "m = ?f @ residue m" by (simp add: residue_def)
  ultimately have "absorb st m = absorb (absorb st ?f) (residue m)"
    using absorb_append [of ?f st "residue m"] by simp
  then show ?thesis by simp
qed

lemma consume_eq: "consume s p = (s\<lparr>m_state := absorb (m_state s) p\<rparr>, residue p)"
proof (induction s p rule: consume.induct)
  case (1 s p)
  show ?case
  proof (cases "64 \<le> length p")
    case True
    have p: "residue p = residue (drop 64 p)"
      using residue_append [of "take 64 p" "drop 64 p"] True by simp
    have "absorb (m_state s) p = absorb (compress_words (m_state s) (take 64 p)) (drop 64 p)"
      using True by (subst absorb.simps) simp
    with 1 True p show ?thesis by (subst consume.simps) (simp add: compress_def)
  next
    case False
    then show ?thesis by (subst consume.simps) simp
  qed
qed

section \<open>The object represents the bytes it has been fed\<close>

definition repr :: "Sha256 \<Rightarrow> byte list \<Rightarrow> bool" where
  "repr s m =
     (\<not> m_finished s \<and> m_state s = absorb kInitialState m \<and> length (m_buffer s) = 64 \<and>
      m_bufferUsed s = length m mod 64 \<and> take (length m mod 64) (m_buffer s) = residue m)"

lemma length_overwrite [simp]:
  "at + length xs \<le> length buf \<Longrightarrow> length (overwrite buf at xs) = length buf"
  by (simp add: overwrite_def)

lemma take_overwrite:
  "at + length xs \<le> length buf \<Longrightarrow> take (at + length xs) (overwrite buf at xs) = take at buf @ xs"
  by (simp add: overwrite_def)

lemma repr_bitCount [simp]: "repr (s\<lparr>m_bitCount := n\<rparr>) m = repr s m"
  by (simp add: repr_def)

lemma repr_reset: "repr reset []"
  by (simp add: repr_def reset_def residue_def)

lemma absorb_split:
  assumes "length full mod 64 = 0"
  shows "absorb st (full @ b) = absorb (absorb st full) b" and "residue (full @ b) = residue b"
    and "length (full @ b) mod 64 = length b mod 64"
  using assms absorb_append residue_append by (simp_all add: mod_add_left_eq [symmetric])

text \<open>A message as whole blocks and a residue, in the shape the proofs about \<^const>\<open>update\<close> use.\<close>

lemma reprE:
  assumes "repr s m"
  obtains full r where "m = full @ r" "length full mod 64 = 0" "length r < 64"
    "\<not> m_finished s" "m_state s = absorb kInitialState full" "length (m_buffer s) = 64"
    "m_bufferUsed s = length r" "take (length r) (m_buffer s) = r"
proof -
  obtain full where full: "m = full @ residue m" "length full mod 64 = 0" by (rule full_residue)
  have "absorb kInitialState m = absorb kInitialState full"
    using absorb_append [OF full(2), of kInitialState "residue m"] full(1) by simp
  with assms full that [of full "residue m"] show ?thesis by (simp add: repr_def)
qed

lemma reprI:
  assumes "m = full @ r" "length full mod 64 = 0" "length r < 64"
    "\<not> m_finished s" "m_state s = absorb kInitialState full" "length (m_buffer s) = 64"
    "m_bufferUsed s = length r" "take (length r) (m_buffer s) = r"
  shows "repr s m"
  using assms absorb_split(1) [OF assms(2), of kInitialState r] absorb_split(2) [OF assms(2), of r]
    absorb_split(3) [OF assms(2), of r]
  by (simp add: repr_def)

text \<open>The end of \<^const>\<open>update\<close>, once the buffer is empty.\<close>

lemma tail_repr:
  assumes "length full mod 64 = 0" "\<not> m_finished s" "m_state s = absorb kInitialState full"
    "length (m_buffer s) = 64" "m_bufferUsed s = 0"
  shows "repr (case consume s p of (s2, rest) \<Rightarrow>
      if length rest > 0 then
        s2\<lparr>m_buffer := overwrite (m_buffer s2) 0 rest, m_bufferUsed := length rest\<rparr> else s2) (full @ p)"
    (is "repr ?s _")
proof -
  obtain g where g: "p = g @ residue p" "length g mod 64 = 0" by (rule full_residue)
  let ?r = "residue p"
  have st: "absorb kInitialState (full @ g) = absorb (absorb kInitialState full) p"
    using absorb_append [OF assms(1)] absorb_append [OF g(2), of _ ?r] g(1)
    by (metis absorb_short length_residue mod_less_divisor zero_less_numeral)
  show ?thesis
  proof (rule reprI [of _ "full @ g" ?r])
    show "full @ p = (full @ g) @ ?r" using g(1) by simp
    show "length (full @ g) mod 64 = 0" using assms(1) g(2) by (simp add: mod_add_left_eq [symmetric])
    show "length ?r < 64" by simp
    show "m_state ?s = absorb kInitialState (full @ g)" using assms(3) by (simp add: consume_eq st)
    show "take (length ?r) (m_buffer ?s) = ?r"
      using assms take_overwrite [of 0 ?r "m_buffer s"] length_residue [of p]
      by (cases "?r = []") (simp_all add: consume_eq del: length_residue)
  qed (use assms length_residue [of p] in \<open>auto simp: consume_eq simp del: length_residue\<close>)
qed

lemma update_repr: "repr s m \<Longrightarrow> repr (update s d) (m @ d)"
proof (cases "d = []")
  case False
  assume "repr s m"
  then obtain full r where m: "m = full @ r" "length full mod 64 = 0" "length r < 64"
    "\<not> m_finished s" "m_state s = absorb kInitialState full" "length (m_buffer s) = 64"
    "m_bufferUsed s = length r" "take (length r) (m_buffer s) = r"
    by (rule reprE)
  let ?s0 = "s\<lparr>m_bitCount := m_bitCount s + of_nat (length d) * 8\<rparr>"
  consider (empty) "r = []" | (few) "r \<noteq> []" "length d < 64 - length r"
    | (many) "r \<noteq> []" "64 - length r \<le> length d" by linarith
  then show ?thesis
  proof cases
    case empty
    with m have "top_up ?s0 d = (?s0, d)" by (simp add: top_up_def)
    with False m tail_repr [of full ?s0 d] empty show ?thesis by (simp add: update_def)
  next
    case few
    let ?buf = "overwrite (m_buffer s) (length r) d"
    let ?s1 = "?s0\<lparr>m_buffer := ?buf, m_bufferUsed := length r + length d\<rparr>"
    have "top_up ?s0 d = (?s1, [])" using few m by (simp add: top_up_def Let_def)
    then have "update s d = ?s1" using False m by (simp add: update_def consume_eq)
    moreover have "repr ?s1 (m @ d)"
      using m few take_overwrite [of "length r" d "m_buffer s"]
      by (intro reprI [of _ full "r @ d"]) auto
    ultimately show ?thesis by simp
  next
    case many
    let ?n = "64 - length r"
    let ?buf = "overwrite (m_buffer s) (length r) (take ?n d)"
    let ?s1 = "?s0\<lparr>m_state := compress_words (m_state s) ?buf, m_buffer := ?buf, m_bufferUsed := 0\<rparr>"
    have buf: "?buf = r @ take ?n d"
      using m many by (simp add: overwrite_def)
    have "top_up ?s0 d = (?s1, drop ?n d)"
      using many m by (simp add: top_up_def Let_def compress_def)
    moreover have "repr (case consume ?s1 (drop ?n d) of (s2, rest) \<Rightarrow>
      if length rest > 0 then
        s2\<lparr>m_buffer := overwrite (m_buffer s2) 0 rest, m_bufferUsed := length rest\<rparr> else s2)
      ((full @ ?buf) @ drop ?n d)"
    proof (rule tail_repr)
      have "length ?buf = 64" using buf many m by simp
      then show "length (full @ ?buf) mod 64 = 0" "length (m_buffer ?s1) = 64"
        using m(2) by (simp_all add: mod_add_left_eq [symmetric])
      show "m_state ?s1 = absorb kInitialState (full @ ?buf)"
        using absorb_split(1) [OF m(2), of kInitialState ?buf] absorb_block [of ?buf _ "[]"]
          \<open>length ?buf = 64\<close> m(5) by simp
    qed (use m in simp_all)
    moreover have "(full @ ?buf) @ drop ?n d = m @ d" using buf m(1) by simp
    ultimately show ?thesis using False m by (simp add: update_def)
  qed
qed (simp add: update_def)

section \<open>Finishing\<close>

lemma zero_pad_step:
  assumes "length m mod 64 \<noteq> 56"
  shows "zero_pad m = Suc (zero_pad (m @ [b]))"
proof -
  define x where "x = length m mod 64"
  have x: "x < 64" "x \<noteq> 56" using assms by (auto simp: x_def)
  have sx: "length (m @ [b]) mod 64 = (if x = 63 then 0 else Suc x)"
    using x by (simp add: x_def mod_Suc)
  consider "x < 56" | "56 < x" "x < 63" | "x = 63" using x by linarith
  then show ?thesis
  proof cases
    case 1
    then have "(120 - x) mod 64 = 56 - x" "(120 - Suc x) mod 64 = 55 - x"
      by (simp_all add: le_mod_geq)
    with 1 sx show ?thesis by (simp add: zero_pad_def x_def [symmetric])
  next
    case 2
    with sx show ?thesis by (simp add: zero_pad_def x_def [symmetric])
  next
    case 3
    with sx show ?thesis by (simp add: zero_pad_def x_def [symmetric])
  qed
qed

lemma zero_pad_less: "zero_pad m < 64"
  by (simp add: zero_pad_def)

lemma zero_pad_done: "length m mod 64 = 56 \<Longrightarrow> zero_pad m = 0"
  by (simp add: zero_pad_def)

lemma pad_zeros_repr:
  "repr s m \<Longrightarrow> zero_pad m \<le> n \<Longrightarrow> repr (pad_zeros n bits s) (m @ replicate (zero_pad m) 0)"
proof (induction n arbitrary: s m)
  case 0
  then show ?case by simp
next
  case (Suc n)
  show ?case
  proof (cases "length m mod 64 = 56")
    case True
    with Suc.prems show ?thesis by (simp add: zero_pad_done repr_def)
  next
    case False
    then have used: "m_bufferUsed s \<noteq> 56" using Suc.prems by (simp add: repr_def)
    have z: "zero_pad m = Suc (zero_pad (m @ [0]))" by (rule zero_pad_step [OF False])
    have "repr ((update s [0])\<lparr>m_bitCount := bits\<rparr>) (m @ [0])" using update_repr [OF Suc.prems(1)] by simp
    from Suc.IH [OF this] Suc.prems(2) z used show ?thesis by simp
  qed
qed

lemma zero_pad_mod: "length (m @ replicate (zero_pad m) 0) mod 64 = 56"
proof -
  define x where "x = length m mod 64"
  have x: "x < 64" by (simp add: x_def)
  have "(x + (120 - x) mod 64) mod 64 = (x + (120 - x)) mod 64" by (simp add: mod_add_right_eq)
  also have "\<dots> = 56" using x by simp
  finally have "(x + zero_pad m) mod 64 = 56" by (simp add: zero_pad_def x_def)
  then show ?thesis by (simp add: x_def mod_add_left_eq)
qed

text \<open>The loop of \<^verbatim>\<open>finish\<close> ends: with 64 rounds the buffer holds 56 bytes.\<close>

lemma pad_zeros_reaches:
  "repr s m \<Longrightarrow> m_bufferUsed (pad_zeros 64 bits s) = 56"
  using pad_zeros_repr [of s m 64 bits] zero_pad_less [of m] zero_pad_mod [of m]
  by (simp add: repr_def)

lemma length_lengthBytes [simp]: "length (lengthBytes bits) = 8"
  by (simp add: lengthBytes_def)

definition represents :: "Sha256 \<Rightarrow> byte list \<Rightarrow> bool" where
  "represents s m = (repr s m \<and> m_bitCount s = of_nat (length m) * 8)"

lemma represents_reset: "represents reset []"
  by (simp add: represents_def repr_reset) (simp add: reset_def)

lemma top_up_bitCount [simp]: "m_bitCount (fst (top_up s d)) = m_bitCount s"
  by (simp add: top_up_def compress_def Let_def)

lemma update_bitCount:
  "\<not> m_finished s \<Longrightarrow> m_bitCount (update s d) = m_bitCount s + of_nat (length d) * 8"
proof -
  assume f: "\<not> m_finished s"
  let ?s0 = "s\<lparr>m_bitCount := m_bitCount s + of_nat (length d) * 8\<rparr>"
  obtain s1 p where t: "top_up ?s0 d = (s1, p)" by (cases "top_up ?s0 d")
  then have "m_bitCount s1 = m_bitCount ?s0" using top_up_bitCount [of ?s0 d] by simp
  with f t show ?thesis by (simp add: update_def consume_eq)
qed

lemma represents_update: "represents s m \<Longrightarrow> represents (update s d) (m @ d)"
  using update_repr [of s m d] update_bitCount [of s d]
  by (simp add: represents_def algebra_simps) (simp add: repr_def)

lemma finish_represents:
  assumes "represents s m"
  shows "fst (finish s) = sha256_spec m"
proof -
  let ?bits = "of_nat (length m) * 8 :: 64 word"
  let ?m1 = "m @ [0x80]"
  let ?m2 = "?m1 @ replicate (zero_pad ?m1) 0"
  let ?s2 = "pad_zeros 64 ?bits ((update s [0x80])\<lparr>m_bitCount := ?bits\<rparr>)"
  from assms have r: "repr s m" and b: "m_bitCount s = ?bits" and "\<not> m_finished s"
    by (auto simp: represents_def repr_def)
  have "repr ?s2 ?m2"
    using pad_zeros_repr [of "(update s [0x80])\<lparr>m_bitCount := ?bits\<rparr>" ?m1 64 ?bits]
      zero_pad_less [of ?m1] update_repr [OF r, of "[0x80]"]
    by simp
  then obtain full res where m2: "?m2 = full @ res" "length full mod 64 = 0" "length res < 64"
    "m_state ?s2 = absorb kInitialState full" "length (m_buffer ?s2) = 64"
    "take (length res) (m_buffer ?s2) = res"
    by (rule reprE)
  have "length res = 56"
  proof -
    have "length ?m2 mod 64 = 56" by (rule zero_pad_mod)
    then have "length (full @ res) mod 64 = 56" unfolding m2(1) .
    then show ?thesis using absorb_split(3) [OF m2(2), of res] m2(3) by simp
  qed
  then have buf: "overwrite (m_buffer ?s2) 56 (lengthBytes ?bits) = res @ lengthBytes ?bits"
    using m2(5,6) by (simp add: overwrite_def)
  have "absorb kInitialState (?m2 @ lengthBytes ?bits) =
      compress_words (absorb kInitialState full) (res @ lengthBytes ?bits)"
    using absorb_append [OF m2(2), of kInitialState "res @ lengthBytes ?bits"]
      absorb_block [of "res @ lengthBytes ?bits" _ "[]"] \<open>length res = 56\<close>
    unfolding m2(1) by simp
  moreover have "pad_message m = ?m2 @ lengthBytes ?bits" by (simp add: pad_message_def)
  ultimately show ?thesis
    using \<open>\<not> m_finished s\<close> b buf m2(4)
    by (simp add: finish_def close_def Let_def compress_def sha256_spec_def)
qed

section \<open>The interface of an incremental hash\<close>

text \<open>What the download, the file store and the forwarder rely on when they hash while they read or
  write: an object that represents the bytes fed so far.\<close>

locale incremental_hash =
  fixes new_hash :: 'h
    and feed :: "'h \<Rightarrow> byte list \<Rightarrow> 'h"
    and result_of :: "'h \<Rightarrow> Digest"
    and rep :: "'h \<Rightarrow> byte list \<Rightarrow> bool"
    and spec :: "byte list \<Rightarrow> Digest"
  assumes rep_new: "rep new_hash []"
    and rep_feed: "rep h m \<Longrightarrow> rep (feed h d) (m @ d)"
    and rep_result: "rep h m \<Longrightarrow> result_of h = spec m"
begin

lemma rep_foldl: "rep h m \<Longrightarrow> rep (foldl feed h chunks) (m @ concat chunks)"
proof (induction chunks arbitrary: h m)
  case (Cons c cs)
  then show ?case using rep_feed [of h m c] by fastforce
qed simp

lemma chunked: "result_of (foldl feed new_hash chunks) = spec (concat chunks)"
  using rep_foldl [OF rep_new] rep_result by fastforce

end

interpretation sha: incremental_hash reset update "\<lambda>s. fst (finish s)" represents sha256_spec
  by unfold_locales (auto intro: represents_reset represents_update finish_represents)

lemma sha256_of_eq: "sha256_of data = sha256_spec (bytes_of data)"
  using sha.chunked [of "[bytes_of data]"] by (simp add: sha256_of_def)

section \<open>Hexadecimal form\<close>

lemma mask_nibble: "b AND 0x0F = take_bit 4 (b :: byte)"
  by (simp add: take_bit_eq_mask mask_numeral)

lemma nibble_less: "unat (b AND 0x0F :: byte) < 16"
  by (simp add: mask_nibble unsigned_take_bit_eq) (simp add: take_bit_nat_def)

lemma nibble_id: "unat (b :: byte) < 16 \<Longrightarrow> take_bit 4 b = b"
proof -
  assume "unat b < 16"
  then have "unat (take_bit 4 b) = unat b"
    by (simp add: unsigned_take_bit_eq) (simp add: take_bit_nat_def)
  then show ?thesis by (simp add: word_unat_eq_iff)
qed

lemma less_16_cases:
  "(n :: nat) < 16 \<Longrightarrow> n \<in> {0, 1, 2, 3, 4, 5, 6, 7, 8, 9, 10, 11, 12, 13, 14, 15}"
  unfolding insert_iff empty_iff by presburger

lemma hex_char_range:
  "48 \<le> n \<and> n \<le> 57 \<or> 97 \<le> n \<and> n \<le> (102 :: nat) \<Longrightarrow>
   n \<in> {48, 49, 50, 51, 52, 53, 54, 55, 56, 57, 97, 98, 99, 100, 101, 102}"
  unfolding insert_iff empty_iff by presburger

lemma hex_digit_char: "n < 16 \<Longrightarrow> hex_digit (kHexDigits ! n) = Some (of_nat n)"
proof -
  assume "n < 16"
  have "\<forall>n\<in>{0, 1, 2, 3, 4, 5, 6, 7, 8, 9, 10, 11, 12, 13, 14, 15 :: nat}.
      hex_digit (kHexDigits ! n) = Some (of_nat n)"
    by (simp add: hex_digit_def kHexDigits_def less_eq_char_def)
  with less_16_cases [OF \<open>n < 16\<close>] show ?thesis by blast
qed

lemma hex_digit_Some:
  "hex_digit c = Some d \<Longrightarrow> unat d < 16 \<and> kHexDigits ! unat d = c"
proof -
  assume h: "hex_digit c = Some d"
  let ?n = "of_char c :: nat"
  have d: "d = (if ?n \<le> 57 then of_nat (?n - 48) else of_nat (?n - 87))"
    and r: "48 \<le> ?n \<and> ?n \<le> 57 \<or> 97 \<le> ?n \<and> ?n \<le> 102"
  proof -
    have e: "(of_char c :: byte) = of_nat ?n" by (rule of_nat_of_char [symmetric])
    show r: "48 \<le> ?n \<and> ?n \<le> 57 \<or> 97 \<le> ?n \<and> ?n \<le> 102"
      using h by (auto simp: hex_digit_def less_eq_char_def split: if_splits)
    then show "d = (if ?n \<le> 57 then of_nat (?n - 48) else of_nat (?n - 87))"
      using h by (auto simp: hex_digit_def less_eq_char_def e of_nat_diff split: if_splits)
  qed
  have all: "\<forall>n\<in>{48, 49, 50, 51, 52, 53, 54, 55, 56, 57, 97, 98, 99, 100, 101, 102 :: nat}.
      kHexDigits ! unat (if n \<le> 57 then of_nat (n - 48) else of_nat (n - 87) :: byte) = char_of n \<and>
      unat (if n \<le> 57 then of_nat (n - 48) else of_nat (n - 87) :: byte) < 16"
    by code_simp
  from bspec [OF all hex_char_range [OF r]] show ?thesis
    unfolding d [symmetric] by simp
qed

definition join_nibbles :: "byte \<Rightarrow> byte \<Rightarrow> byte" where
  "join_nibbles hi lo = push_bit 4 (push_bit 4 0 OR hi) OR lo"

lemma join_split_nibbles: "join_nibbles (drop_bit 4 b AND 0x0F) (b AND 0x0F) = b"
proof (rule bit_word_eqI)
  fix n assume "n < LENGTH(8)"
  then show "bit (join_nibbles (drop_bit 4 b AND 0x0F) (b AND 0x0F)) n = bit b n"
    unfolding mask_nibble join_nibbles_def
    by (auto simp: bit_or_iff bit_push_bit_iff bit_take_bit_iff bit_drop_bit_eq)
qed

lemma split_join_nibbles:
  assumes "unat hi < 16" and "unat lo < 16"
  shows "drop_bit 4 (join_nibbles hi lo) AND 0x0F = hi" and "join_nibbles hi lo AND 0x0F = lo"
proof -
  have hi: "bit hi n \<Longrightarrow> n < 4" and lo: "bit lo n \<Longrightarrow> n < 4" for n
    using nibble_id [OF assms(1)] nibble_id [OF assms(2)] by (metis bit_take_bit_iff)+
  show "drop_bit 4 (join_nibbles hi lo) AND 0x0F = hi"
  proof (rule bit_word_eqI)
    fix n assume "n < LENGTH(8)"
    then show "bit (drop_bit 4 (join_nibbles hi lo) AND 0x0F) n = bit hi n"
      unfolding mask_nibble join_nibbles_def using hi [of n] lo [of "n + 4"]
      by (auto simp: bit_or_iff bit_push_bit_iff bit_take_bit_iff bit_drop_bit_eq add.commute)
  qed
  show "join_nibbles hi lo AND 0x0F = lo"
  proof (rule bit_word_eqI)
    fix n assume "n < LENGTH(8)"
    then show "bit (join_nibbles hi lo AND 0x0F) n = bit lo n"
      unfolding mask_nibble join_nibbles_def using lo [of n]
      by (auto simp: bit_or_iff bit_push_bit_iff bit_take_bit_iff)
  qed
qed

lemma toHex_Nil [simp]: "toHex [] = []"
  by (simp add: toHex_def)

lemma toHex_Cons [simp]:
  "toHex (b # bs) =
     kHexDigits ! unat (drop_bit 4 b AND 0x0F) # kHexDigits ! unat (b AND 0x0F) # toHex bs"
  by (simp add: toHex_def)

lemma length_toHex [simp]: "length (toHex d) = 2 * length d"
  by (induction d) auto

lemma fromHex_loop_toHex: "fromHex_loop (toHex d) = Some d"
proof (induction d)
  case (Cons b d)
  have "of_nat (unat (drop_bit 4 b AND 0x0F)) = drop_bit 4 b AND (0x0F :: byte)"
    "of_nat (unat (b AND 0x0F)) = b AND (0x0F :: byte)" by simp_all
  with Cons show ?case
    using join_split_nibbles [of b]
    by (simp add: hex_digit_char nibble_less Let_def join_nibbles_def)
qed simp

lemma fromHex_loop_Some:
  "even (length s) \<Longrightarrow> fromHex_loop s = Some d \<Longrightarrow> toHex d = s"
proof (induction s arbitrary: d rule: fromHex_loop.induct)
  case (1 c c' rest)
  then obtain hi lo bs where h: "hex_digit c = Some hi" "hex_digit c' = Some lo"
    "fromHex_loop rest = Some bs" "d = join_nibbles hi lo # bs"
    by (auto simp: Let_def join_nibbles_def split: option.splits)
  with 1 have "toHex bs = rest" by simp
  with h hex_digit_Some [OF h(1)] hex_digit_Some [OF h(2)] show ?case
    by (simp add: split_join_nibbles)
qed auto

lemma fromHex_iff: "fromHex s = Some d \<longleftrightarrow> length d = kDigestSize \<and> s = toHex d"
proof
  assume "fromHex s = Some d"
  then have len: "length s = kDigestSize * 2" and "fromHex_loop s = Some d"
    by (auto simp: fromHex_def split: if_splits)
  then have "toHex d = s" by (intro fromHex_loop_Some) simp_all
  then have "length s = 2 * length d" by (metis length_toHex)
  with len \<open>toHex d = s\<close> show "length d = kDigestSize \<and> s = toHex d" by simp
qed (simp add: fromHex_def fromHex_loop_toHex)

section \<open>Comparison\<close>

lemma or_zero_iff: "(x OR y = 0) \<longleftrightarrow> x = 0 \<and> y = (0 :: byte)"
  by (auto simp: bit_eq_iff bit_or_iff)

lemma xor_zero_iff: "(x XOR y = 0) \<longleftrightarrow> x = (y :: byte)"
  by (auto simp: bit_eq_iff bit_xor_iff)

lemma foldl_or_zero:
  "foldl (\<lambda>diff i. diff OR f i) x is = (0 :: byte) \<longleftrightarrow> x = 0 \<and> (\<forall>i\<in>set is. f i = 0)"
  by (induction "is" arbitrary: x) (auto simp: or_zero_iff)

lemma digestsEqual_iff:
  assumes "length a = kDigestSize" and "length b = kDigestSize"
  shows "digestsEqual a b \<longleftrightarrow> a = b"
proof -
  have "digestsEqual a b \<longleftrightarrow> (\<forall>i<kDigestSize. a ! i XOR b ! i = 0)"
    by (auto simp: digestsEqual_def foldl_or_zero)
  also have "\<dots> \<longleftrightarrow> (\<forall>i<kDigestSize. a ! i = b ! i)" by (simp add: xor_zero_iff)
  also have "\<dots> \<longleftrightarrow> a = b" using assms by (simp add: list_eq_iff_nth_eq)
  finally show ?thesis .
qed

lemma length_digest_bytes: "length (digest_bytes st) = 4 * length st"
  by (induction st) (auto simp: digest_bytes_def)

lemma length_compress_words: "length (compress_words st b) = 8"
  by (simp add: compress_words_def split: prod.splits)

lemma length_absorb: "length st = 8 \<Longrightarrow> length (absorb st m) = 8"
proof (induction st m rule: absorb.induct)
  case (1 st m)
  then show ?case by (subst absorb.simps) (simp add: length_compress_words)
qed

lemma length_sha256_spec [simp]: "length (sha256_spec m) = kDigestSize"
proof -
  have "length (absorb kInitialState (pad_message m)) = 8"
    by (rule length_absorb) (simp add: kInitialState_def)
  then show ?thesis by (simp add: sha256_spec_def length_digest_bytes kDigestSize_def)
qed

section \<open>Properties\<close>

text \<open>C7: The streaming hash does not depend on how the bytes arrive: feeding any sequence of chunks, empty
  ones included, and finishing gives the digest of the one-shot definition on their concatenation, which
  is always 32 bytes.\<close>

theorem sha256_streaming:
  "fst (finish (foldl update reset chunks)) = sha256_spec (concat chunks) \<and>
   length (fst (finish (foldl update reset chunks))) = kDigestSize"
  by (simp add: sha.chunked)

text \<open>C39: The zero-padding loop of \<^verbatim>\<open>finish\<close> ends on every object the class can reach, with exactly 56
  bytes in the buffer, so the length field completes the last block.\<close>

theorem finish_padding_terminates:
  "m_bufferUsed (pad_zeros 64 bits (update (foldl update reset chunks) [0x80])) = 56"
proof -
  have "represents (update (foldl update reset chunks) [0x80]) (concat chunks @ [0x80])"
    using sha.rep_foldl [OF represents_reset, of chunks] represents_update by fastforce
  then show ?thesis using pad_zeros_reaches by (auto simp: represents_def)
qed

text \<open>C38: Hexadecimal is a bijection between 32-byte digests and the strings \<^const>\<open>fromHex\<close> accepts: a string
  parses to a digest exactly when it is that digest printed, so no second spelling (uppercase, short or
  long) of a digest exists.\<close>

theorem fromHex_exact: "fromHex s = Some d \<longleftrightarrow> length d = kDigestSize \<and> s = toHex d"
  by (rule fromHex_iff)

text \<open>The branch-free comparison decides equality of digests.\<close>

theorem digestsEqual_correct:
  assumes "length a = kDigestSize" and "length b = kDigestSize"
  shows "digestsEqual a b \<longleftrightarrow> a = b"
  using assms by (rule digestsEqual_iff)

theorem digestsEqual_correct_witness:
  "digestsEqual (replicate 32 7) (replicate 32 7) \<and> \<not> digestsEqual (replicate 32 7) (replicate 31 7 @ [6])"
  using digestsEqual_correct [of "replicate 32 7" "replicate 32 7"]
    digestsEqual_correct [of "replicate 32 7" "replicate 31 7 @ [6]"]
  by (simp add: kDigestSize_def) (simp add: numeral_eq_Suc)

end
