(* ===== verification/Sha256_Vectors.thy ===== *)
theory Sha256_Vectors
  imports Sha256
begin

text \<open>
  A published test vector of FIPS 180-4, evaluated on the model: it ties the constants, the message
  schedule, the rounds, the padding and the hexadecimal form to the standard.
\<close>

text \<open>The digest of \<^verbatim>\<open>abc\<close> is the one the standard publishes.\<close>

theorem hexOf_abc:
  "hexOf ''abc'' = ''ba7816bf8f01cfea414140de5dae2223b00361a396177a9cb410ff61f20015ad''"
  by code_simp

end
