(* ===== verification/Json_Value.thy ===== *)
theory Json_Value
  imports Prelude
begin

text \<open>
  The values of the JSON library the program uses.  Parsing and printing of text are the library's own
  code and enter the model as parameters (\<open>jparse\<close>, \<open>jdump\<close>); what is modelled here is the value type as
  the program inspects it: kind tests, member access, and the narrowing conversions of \<^verbatim>\<open>get<int>()\<close> and
  \<^verbatim>\<open>get<std::int64_t>()\<close>, which truncate silently.
\<close>

datatype json =
    JNull
  | JBool bool
  | JInt int
  | JUint nat
  | JFloat
  | JString string
  | JArray "json list"
  | JObject "(string \<times> json) list"

fun is_object :: "json \<Rightarrow> bool" where
  "is_object (JObject _) = True"
| "is_object _ = False"

fun is_array :: "json \<Rightarrow> bool" where
  "is_array (JArray _) = True"
| "is_array _ = False"

fun is_string :: "json \<Rightarrow> bool" where
  "is_string (JString _) = True"
| "is_string _ = False"

fun is_boolean :: "json \<Rightarrow> bool" where
  "is_boolean (JBool _) = True"
| "is_boolean _ = False"

text \<open>An integer is signed or unsigned; a literal without a sign is read as unsigned.\<close>

fun is_number_integer :: "json \<Rightarrow> bool" where
  "is_number_integer (JInt _) = True"
| "is_number_integer (JUint _) = True"
| "is_number_integer _ = False"

fun is_number_unsigned :: "json \<Rightarrow> bool" where
  "is_number_unsigned (JUint _) = True"
| "is_number_unsigned _ = False"

text \<open>\<^verbatim>\<open>contains\<close> followed by \<^verbatim>\<open>operator[]\<close>.\<close>

fun member :: "json \<Rightarrow> string \<Rightarrow> json option" where
  "member (JObject fields) key = map_of fields key"
| "member _ key = None"

text \<open>\<^verbatim>\<open>doc[key]\<close> once the presence of the key has been checked.\<close>

definition field :: "json \<Rightarrow> string \<Rightarrow> json" where
  "field doc key = (case member doc key of Some v \<Rightarrow> v | None \<Rightarrow> JNull)"

definition has_keys :: "json \<Rightarrow> string list \<Rightarrow> bool" where
  "has_keys doc keys = list_all (\<lambda>key. member doc key \<noteq> None) keys"

fun get_string :: "json \<Rightarrow> string" where
  "get_string (JString s) = s"
| "get_string _ = []"

fun get_bool :: "json \<Rightarrow> bool" where
  "get_bool (JBool b) = b"
| "get_bool _ = False"

fun elements :: "json \<Rightarrow> json list" where
  "elements (JArray xs) = xs"
| "elements (JObject fields) = map snd fields"
| "elements _ = []"

definition wrap32 :: "int \<Rightarrow> int" where
  "wrap32 i = signed_take_bit 31 i"

definition wrap64 :: "int \<Rightarrow> int" where
  "wrap64 i = signed_take_bit 63 i"

fun get_int :: "json \<Rightarrow> int" where
  "get_int (JInt i) = wrap32 i"
| "get_int (JUint n) = wrap32 (int n)"
| "get_int _ = 0"

fun get_int64 :: "json \<Rightarrow> int" where
  "get_int64 (JInt i) = wrap64 i"
| "get_int64 (JUint n) = wrap64 (int n)"
| "get_int64 _ = 0"

fun get_uint64 :: "json \<Rightarrow> 64 word" where
  "get_uint64 (JInt i) = of_int i"
| "get_uint64 (JUint n) = of_nat n"
| "get_uint64 _ = 0"

definition int32_range :: "int \<Rightarrow> bool" where
  "int32_range i = (- (2 ^ 31) \<le> i \<and> i < 2 ^ 31)"

definition int64_range :: "int \<Rightarrow> bool" where
  "int64_range i = (- (2 ^ 63) \<le> i \<and> i < 2 ^ 63)"

lemma wrap32_id [simp]: "int32_range i \<Longrightarrow> wrap32 i = i"
  by (simp add: wrap32_def int32_range_def signed_take_bit_int_eq_self)

lemma wrap64_id [simp]: "int64_range i \<Longrightarrow> wrap64 i = i"
  by (simp add: wrap64_def int64_range_def signed_take_bit_int_eq_self)

lemma wrap64_range: "int64_range (wrap64 i)"
  using signed_take_bit_int_greater_eq_minus_exp [of 63 i] signed_take_bit_int_less_exp [of 63 i]
  by (simp add: wrap64_def int64_range_def)

text \<open>What the program relies on when it prints a document and reads it back: an object comes back as an
  object with the same members, where a non-negative integer comes back as an unsigned literal.\<close>

fun reread :: "json \<Rightarrow> json" where
  "reread (JInt i) = (if 0 \<le> i then JUint (nat i) else JInt i)"
| "reread (JArray xs) = JArray (map reread xs)"
| "reread (JObject fields) = JObject (map (\<lambda>(k, v). (k, reread v)) fields)"
| "reread j = j"

definition reads_back :: "(string \<Rightarrow> json option) \<Rightarrow> (json \<Rightarrow> string) \<Rightarrow> json \<Rightarrow> bool" where
  "reads_back jparse jdump doc =
     (\<exists>doc'. jparse (jdump doc @ [CHR 0x0A]) = Some doc' \<and> is_object doc' \<and>
             (\<forall>key. member doc' key = member (reread doc) key))"

lemma member_reread [simp]:
  "member (reread (JObject fields)) key = map_option reread (map_of fields key)"
  by (induction fields) auto

lemma get_int_reread [simp]: "get_int (reread j) = get_int j"
  by (cases j) auto

lemma get_int64_reread [simp]: "get_int64 (reread j) = get_int64 j"
  by (cases j) auto

lemma is_number_integer_reread [simp]: "is_number_integer (reread j) = is_number_integer j"
  by (cases j) auto

lemma is_string_reread [simp]: "is_string (reread j) = is_string j"
  by (cases j) auto

lemma get_string_reread [simp]: "get_string (reread j) = get_string j"
  by (cases j) auto

text \<open>A reader and printer pair for one document, used to instantiate the library's parameters.\<close>

definition echo_parse :: "json \<Rightarrow> string \<Rightarrow> json option" where
  "echo_parse doc s = (if s = ''doc'' @ [CHR 0x0A] then Some (reread doc) else None)"

definition echo_dump :: "json \<Rightarrow> string" where
  "echo_dump doc = ''doc''"

lemma echo_reads_back: "is_object doc \<Longrightarrow> reads_back (echo_parse doc) echo_dump doc"
  by (cases doc) (auto simp: reads_back_def echo_parse_def echo_dump_def)

end
