(* ===== verification/Handoff.thy ===== *)
theory Handoff
  imports Sha256 Json_Value
begin

text \<open>
  The instruction file between the application and the forwarder: \<^verbatim>\<open>core/update/handoff.hpp\<close> and
  \<^verbatim>\<open>handoff.cpp\<close>.  Its parser and printer, and the pure decision of what the forwarder does at boot.
\<close>

section \<open>Types\<close>

definition kSupportedHandoffSchema :: int where
  "kSupportedHandoffSchema = 1"

datatype HandoffError =
    NotJson | NotObject | UnsupportedSchemaVersion | MissingField | WrongType | RelativePath
  | PathTraversal | InvalidDigest | InvalidAttempts

record Handoff =
  schemaVersion :: int
  createdAtUnix :: int
  fromVersion :: string
  toVersion :: string
  stagedNro :: string
  stagedSha256 :: Digest
  targetNro :: string
  backupNro :: string
  forwarderNro :: string
  attempts :: int
  maxAttempts :: int

definition attemptsExhausted :: "Handoff \<Rightarrow> bool" where
  "attemptsExhausted h = (attempts h \<ge> maxAttempts h)"

record FilePresence =
  has_handoff :: bool
  has_staged :: bool
  has_target :: bool
  has_backup :: bool

datatype RecoveryAction =
    Nothing | ProceedWithSwap | RetrySwap | RollBack | RestoreBackup | InstallStaged | Unrecoverable

record RecoveryDecision =
  recovery :: RecoveryAction
  recovery_reason :: string

definition mutatesFilesystem :: "RecoveryDecision \<Rightarrow> bool" where
  "mutatesFilesystem d = (recovery d \<noteq> Nothing \<and> recovery d \<noteq> Unrecoverable)"

section \<open>Operations\<close>

definition isSafeAbsolutePath :: "string \<Rightarrow> bool" where
  "isSafeAbsolutePath path =
     (if path = [] \<or> hd path \<noteq> CHR ''/'' then False
      else if has_dotdot path then False
      else if CHR 0x5C \<in> set path then False
      else True)"

definition required_keys :: "string list" where
  "required_keys =
     [''created_at_unix'', ''from_version'', ''to_version'', ''staged_nro'', ''staged_sha256'',
      ''target_nro'', ''backup_nro'', ''forwarder_nro'', ''attempts'', ''max_attempts'']"

definition parse_text :: "json \<Rightarrow> string \<Rightarrow> (HandoffError, string) result" where
  "parse_text doc key =
     (if \<not> is_string (field doc key) then Inl WrongType else Inr (get_string (field doc key)))"

definition parse_path :: "json \<Rightarrow> string \<Rightarrow> (HandoffError, string) result" where
  "parse_path doc key =
     (if \<not> is_string (field doc key) then Inl WrongType
      else
        (let p = get_string (field doc key) in
         if p = [] \<or> hd p \<noteq> CHR ''/'' then Inl RelativePath
         else if \<not> isSafeAbsolutePath p then Inl PathTraversal
         else Inr p))"

text \<open>The checks in front of the fields: a JSON object of the supported schema with every key.\<close>

definition parse_envelope :: "json option \<Rightarrow> (HandoffError, json) result" where
  "parse_envelope parsed =
     (case parsed of
        None \<Rightarrow> Inl NotJson
      | Some doc \<Rightarrow>
          if \<not> is_object doc then Inl NotObject
          else (case member doc ''schema_version'' of
            None \<Rightarrow> Inl MissingField
          | Some v \<Rightarrow>
              if \<not> is_number_integer v then Inl WrongType
              else if get_int v \<noteq> kSupportedHandoffSchema then Inl UnsupportedSchemaVersion
              else if \<not> has_keys doc required_keys then Inl MissingField
              else Inr doc))"

definition parse_attempts :: "json \<Rightarrow> (HandoffError, int \<times> int) result" where
  "parse_attempts doc =
     (if \<not> is_number_integer (field doc ''attempts'') \<or>
         \<not> is_number_integer (field doc ''max_attempts'') then Inl WrongType
      else
        (let a = get_int (field doc ''attempts''); m = get_int (field doc ''max_attempts'') in
         if a < 0 \<or> m < 1 \<or> a > 1000 \<or> m > 1000 then Inl InvalidAttempts else Inr (a, m)))"

definition parseHandoff :: "(string \<Rightarrow> json option) \<Rightarrow> string \<Rightarrow> (HandoffError, Handoff) result" where
  "parseHandoff jparse txt =
     bindE (parse_envelope (jparse txt)) (\<lambda>doc.
     if \<not> is_number_integer (field doc ''created_at_unix'') then Inl WrongType
     else
     bindE (parse_text doc ''from_version'') (\<lambda>from_v.
     bindE (parse_text doc ''to_version'') (\<lambda>to_v.
     bindE (parse_path doc ''staged_nro'') (\<lambda>staged.
     bindE (parse_path doc ''target_nro'') (\<lambda>target.
     bindE (parse_path doc ''backup_nro'') (\<lambda>backup.
     bindE (parse_path doc ''forwarder_nro'') (\<lambda>forwarder.
     if \<not> is_string (field doc ''staged_sha256'') then Inl WrongType
     else (case fromHex (get_string (field doc ''staged_sha256'')) of
       None \<Rightarrow> Inl InvalidDigest
     | Some digest \<Rightarrow>
         bindE (parse_attempts doc) (\<lambda>(a, m).
         Inr \<lparr>schemaVersion = kSupportedHandoffSchema,
              createdAtUnix = get_int64 (field doc ''created_at_unix''),
              fromVersion = from_v, toVersion = to_v, stagedNro = staged, stagedSha256 = digest,
              targetNro = target, backupNro = backup, forwarderNro = forwarder,
              attempts = a, maxAttempts = m\<rparr>)))))))))"

definition handoff_document :: "Handoff \<Rightarrow> json" where
  "handoff_document h =
     JObject [(''schema_version'', JInt (schemaVersion h)),
              (''created_at_unix'', JInt (createdAtUnix h)),
              (''from_version'', JString (fromVersion h)),
              (''to_version'', JString (toVersion h)),
              (''staged_nro'', JString (stagedNro h)),
              (''staged_sha256'', JString (toHex (stagedSha256 h))),
              (''target_nro'', JString (targetNro h)),
              (''backup_nro'', JString (backupNro h)),
              (''forwarder_nro'', JString (forwarderNro h)),
              (''attempts'', JInt (attempts h)),
              (''max_attempts'', JInt (maxAttempts h))]"

definition serializeHandoff :: "(json \<Rightarrow> string) \<Rightarrow> Handoff \<Rightarrow> string" where
  "serializeHandoff jdump h = jdump (handoff_document h) @ [CHR 0x0A]"

fun describe_HandoffError :: "HandoffError \<Rightarrow> string" where
  "describe_HandoffError NotJson = ''handoff is not valid JSON''"
| "describe_HandoffError NotObject = ''handoff top level is not an object''"
| "describe_HandoffError UnsupportedSchemaVersion = ''handoff is newer than this build understands''"
| "describe_HandoffError MissingField = ''handoff is missing a required field''"
| "describe_HandoffError WrongType = ''a handoff field has the wrong type''"
| "describe_HandoffError RelativePath = ''a handoff path is not absolute''"
| "describe_HandoffError PathTraversal = ''a handoff path contains a parent reference''"
| "describe_HandoffError InvalidDigest = ''the staged digest is not 64 lowercase hex''"
| "describe_HandoffError InvalidAttempts = ''the attempt counters are out of range''"

definition decideRecovery :: "Handoff option \<Rightarrow> FilePresence \<Rightarrow> RecoveryDecision" where
  "decideRecovery handoff present =
     (case (if has_handoff present then handoff else None) of
        None \<Rightarrow>
          if has_target present then
            \<lparr>recovery = Nothing, recovery_reason = ''no update in flight''\<rparr>
          else if has_backup present then
            \<lparr>recovery = RestoreBackup,
             recovery_reason = ''no handoff, but a backup exists and the application is missing''\<rparr>
          else
            \<lparr>recovery = Unrecoverable,
             recovery_reason = ''the application is missing and there is nothing to restore''\<rparr>
      | Some h \<Rightarrow>
          if attemptsExhausted h then
            (if has_backup present then
               \<lparr>recovery = RollBack,
                recovery_reason = ''swap failed '' @ show_int (attempts h) @
                  '' time(s); restoring the previous version''\<rparr>
             else if has_target present then
               \<lparr>recovery = RollBack,
                recovery_reason = ''swap failed '' @ show_int (attempts h) @
                  '' time(s); the application is intact, abandoning the update''\<rparr>
             else if has_staged present then
               \<lparr>recovery = InstallStaged,
                recovery_reason = ''no application and no backup; installing the staged binary''\<rparr>
             else
               \<lparr>recovery = Unrecoverable, recovery_reason = ''swap failed and nothing usable remains''\<rparr>)
          else if \<not> has_target present then
            (if has_backup present then
               \<lparr>recovery = RestoreBackup,
                recovery_reason = ''the application is missing; restoring the backup''\<rparr>
             else if has_staged present then
               \<lparr>recovery = InstallStaged,
                recovery_reason = ''the application is missing; installing the staged binary''\<rparr>
             else
               \<lparr>recovery = Unrecoverable,
                recovery_reason = ''the application is missing and nothing is staged''\<rparr>)
          else if \<not> has_staged present then
            \<lparr>recovery = Unrecoverable,
             recovery_reason = ''the staged binary named by the handoff is missing''\<rparr>
          else
            \<lparr>recovery = (if attempts h = 0 then ProceedWithSwap else RetrySwap),
             recovery_reason =
               (if attempts h = 0 then ''installing '' @ toVersion h
                else ''resuming an interrupted swap (attempt '' @ show_int (attempts h + 1) @
                     '' of '' @ show_int (maxAttempts h) @ '')'')\<rparr>)"

fun describe_RecoveryAction :: "RecoveryAction \<Rightarrow> string" where
  "describe_RecoveryAction Nothing = ''nothing to do''"
| "describe_RecoveryAction ProceedWithSwap = ''install the staged update''"
| "describe_RecoveryAction RetrySwap = ''resume an interrupted update''"
| "describe_RecoveryAction RollBack = ''roll back to the previous version''"
| "describe_RecoveryAction RestoreBackup = ''restore the backup''"
| "describe_RecoveryAction InstallStaged = ''install the staged binary''"
| "describe_RecoveryAction Unrecoverable = ''cannot recover automatically''"

section \<open>Well-formed handoffs\<close>

definition wf_handoff :: "Handoff \<Rightarrow> bool" where
  "wf_handoff h =
     (schemaVersion h = kSupportedHandoffSchema \<and> int64_range (createdAtUnix h) \<and>
      isSafeAbsolutePath (stagedNro h) \<and> isSafeAbsolutePath (targetNro h) \<and>
      isSafeAbsolutePath (backupNro h) \<and> isSafeAbsolutePath (forwarderNro h) \<and>
      length (stagedSha256 h) = kDigestSize \<and>
      0 \<le> attempts h \<and> attempts h \<le> 1000 \<and> 1 \<le> maxAttempts h \<and> maxAttempts h \<le> 1000)"

lemma parse_path_Inr: "parse_path doc key = Inr p \<Longrightarrow> isSafeAbsolutePath p"
  by (auto simp: parse_path_def Let_def split: if_splits)

lemma get_int64_range: "int64_range (get_int64 j)"
  by (cases j) (auto simp: wrap64_range, simp_all add: int64_range_def)

lemma parse_attempts_Inr:
  "parse_attempts doc = Inr (a, m) \<Longrightarrow> 0 \<le> a \<and> a \<le> 1000 \<and> 1 \<le> m \<and> m \<le> 1000"
  by (auto simp: parse_attempts_def Let_def split: if_splits)

lemma parseHandoff_wf: "parseHandoff jparse txt = Inr h \<Longrightarrow> wf_handoff h"
  by (auto simp: parseHandoff_def bindE_Inr_iff wf_handoff_def get_int64_range fromHex_iff
      dest!: parse_path_Inr parse_attempts_Inr split: if_splits option.splits)

text \<open>The document of a handoff, key by key.\<close>

lemma handoff_member:
  "member (reread (handoff_document h)) ''schema_version'' = Some (reread (JInt (schemaVersion h)))"
  "member (reread (handoff_document h)) ''created_at_unix'' = Some (reread (JInt (createdAtUnix h)))"
  "member (reread (handoff_document h)) ''from_version'' = Some (JString (fromVersion h))"
  "member (reread (handoff_document h)) ''to_version'' = Some (JString (toVersion h))"
  "member (reread (handoff_document h)) ''staged_nro'' = Some (JString (stagedNro h))"
  "member (reread (handoff_document h)) ''staged_sha256'' = Some (JString (toHex (stagedSha256 h)))"
  "member (reread (handoff_document h)) ''target_nro'' = Some (JString (targetNro h))"
  "member (reread (handoff_document h)) ''backup_nro'' = Some (JString (backupNro h))"
  "member (reread (handoff_document h)) ''forwarder_nro'' = Some (JString (forwarderNro h))"
  "member (reread (handoff_document h)) ''attempts'' = Some (reread (JInt (attempts h)))"
  "member (reread (handoff_document h)) ''max_attempts'' = Some (reread (JInt (maxAttempts h)))"
  unfolding handoff_document_def member_reread by simp_all

lemma safe_path_head: "isSafeAbsolutePath p \<Longrightarrow> p \<noteq> [] \<and> hd p = CHR ''/''"
  by (auto simp: isSafeAbsolutePath_def split: if_splits)

lemma parse_path_string:
  "member doc key = Some (JString p) \<Longrightarrow> isSafeAbsolutePath p \<Longrightarrow> parse_path doc key = Inr p"
  using safe_path_head [of p] by (simp add: parse_path_def field_def)

lemma parse_text_string:
  "member doc key = Some (JString p) \<Longrightarrow> parse_text doc key = Inr p"
  by (simp add: parse_text_def field_def)

lemma parseHandoff_roundtrip:
  assumes "reads_back jparse jdump (handoff_document h)" and wf: "wf_handoff h"
  shows "parseHandoff jparse (serializeHandoff jdump h) = Inr h"
proof -
  from assms(1) obtain doc where doc: "jparse (serializeHandoff jdump h) = Some doc" "is_object doc"
    and m: "\<And>key. member doc key = member (reread (handoff_document h)) key"
    by (auto simp: reads_back_def serializeHandoff_def)
  note mem = handoff_member [of h, folded m]
  have env: "parse_envelope (jparse (serializeHandoff jdump h)) = Inr doc"
    using doc wf
    by (simp add: parse_envelope_def has_keys_def mem required_keys_def wf_handoff_def kSupportedHandoffSchema_def
        int32_range_def del: reread.simps)
  have att: "parse_attempts doc = Inr (attempts h, maxAttempts h)"
    using wf by (simp add: parse_attempts_def field_def mem wf_handoff_def int32_range_def
        del: reread.simps)
  have created: "field doc ''created_at_unix'' = reread (JInt (createdAtUnix h))"
    by (simp add: field_def mem del: reread.simps)
  have digest: "fromHex (get_string (field doc ''staged_sha256'')) = Some (stagedSha256 h)"
    "is_string (field doc ''staged_sha256'')"
    using wf by (simp_all add: field_def mem fromHex_iff wf_handoff_def)
  show ?thesis
    using wf unfolding parseHandoff_def env
    by (simp add: att created digest parse_text_string [OF mem(3)] parse_text_string [OF mem(4)]
        parse_path_string [OF mem(5)] parse_path_string [OF mem(7)] parse_path_string [OF mem(8)]
        parse_path_string [OF mem(9)] wf_handoff_def del: reread.simps)
qed

section \<open>The decision\<close>

lemma decideRecovery_action:
  "has_handoff present \<Longrightarrow>
   recovery (decideRecovery (Some h) present) =
     (if attemptsExhausted h then
        (if has_backup present \<or> has_target present then RollBack
         else if has_staged present then InstallStaged else Unrecoverable)
      else if \<not> has_target present then
        (if has_backup present then RestoreBackup
         else if has_staged present then InstallStaged else Unrecoverable)
      else if \<not> has_staged present then Unrecoverable
      else if attempts h = 0 then ProceedWithSwap else RetrySwap)"
  by (simp add: decideRecovery_def)

section \<open>Properties\<close>


definition sample_handoff :: Handoff where
  "sample_handoff =
     \<lparr>schemaVersion = 1, createdAtUnix = 1700000000, fromVersion = ''1.0.0'', toVersion = ''1.1.0'',
      stagedNro = ''/config/nsx/staging/n.nro'', stagedSha256 = replicate 32 7,
      targetNro = ''/switch/nsx/n.nro'', backupNro = ''/config/nsx/backup/n.nro'',
      forwarderNro = ''/switch/nsx/f.nro'', attempts = 0, maxAttempts = 3\<rparr>"

lemma sample_handoff_wf: "wf_handoff sample_handoff"
  by code_simp


text \<open>A well-formed handoff survives being written and read, given a JSON library that reads back what
  it prints: both binaries see the same instruction.\<close>

theorem handoff_roundtrip:
  assumes "reads_back jparse jdump (handoff_document h)" and "wf_handoff h"
  shows "parseHandoff jparse (serializeHandoff jdump h) = Inr h"
  using assms by (rule parseHandoff_roundtrip)

theorem handoff_roundtrip_witness:
  "parseHandoff (echo_parse (handoff_document sample_handoff))
     (serializeHandoff echo_dump sample_handoff) = Inr sample_handoff"
  by (rule handoff_roundtrip) (simp_all add: echo_reads_back handoff_document_def sample_handoff_wf)



end
