(* ===== verification/Sd_Card.thy ===== *)
theory Sd_Card
  imports Prelude "HOL-Library.State_Monad"
begin

text \<open>
  The SD card as the program sees it through the C library: named files with contents, directories, and
  operations that can fail.  The outcome of the \<open>n\<close>-th mutating call is given by an oracle in the state, so
  a theorem that holds for every oracle covers every I/O error and every power cut: losing power at
  operation \<open>n\<close> is the oracle that lets nothing take effect from \<open>n\<close> on, the write in progress possibly
  torn.  Reads are reliable.  FatFs semantics: a rename onto an existing file fails, and creating a file
  needs its directory.
\<close>

section \<open>State\<close>

datatype outcome =
    Done
  | Fails
  | Torn nat

record sd =
  files :: "(string \<times> string) list"
  dirs :: "string list"
  fate :: "nat \<Rightarrow> outcome"
  tick :: nat

type_synonym 'a io = "(sd, 'a) state"

text \<open>What the card holds, as a map from paths to contents.\<close>

definition content :: "sd \<Rightarrow> string \<Rightarrow> string option" where
  "content w p = map_of (files w) p"

definition parent_dir :: "string \<Rightarrow> string" where
  "parent_dir path = rev (tl (dropWhile (\<lambda>c. c \<noteq> CHR ''/'') (rev path)))"

definition dir_exists :: "sd \<Rightarrow> string \<Rightarrow> bool" where
  "dir_exists w d = (d = [] \<or> d \<in> set (dirs w))"

section \<open>The C library calls\<close>

text \<open>Opening for reading and reading to the end.\<close>

definition c_read :: "string \<Rightarrow> string option io" where
  "c_read path = State (\<lambda>w. (content w path, w))"

definition c_exists :: "string \<Rightarrow> bool io" where
  "c_exists path = State (\<lambda>w. (content w path \<noteq> None, w))"

text \<open>Opening for writing, writing, flushing and closing: either the file could not be opened, or the
  write came short and left a prefix, or everything was written.\<close>

datatype written = NotOpened | Short | Written

definition c_write :: "string \<Rightarrow> string \<Rightarrow> written io" where
  "c_write path data = State (\<lambda>w.
     let w' = w\<lparr>tick := tick w + 1\<rparr> in
     if \<not> dir_exists w (parent_dir path) \<or> path \<in> set (dirs w) then (NotOpened, w')
     else (case fate w (tick w) of
       Done \<Rightarrow> (Written, w'\<lparr>files := AList.update path data (files w)\<rparr>)
     | Torn n \<Rightarrow> (Short, w'\<lparr>files := AList.update path (take n data) (files w)\<rparr>)
     | Fails \<Rightarrow> (NotOpened, w')))"

definition c_remove :: "string \<Rightarrow> bool io" where
  "c_remove path = State (\<lambda>w.
     let w' = w\<lparr>tick := tick w + 1\<rparr> in
     if content w path = None then (False, w')
     else (case fate w (tick w) of
       Done \<Rightarrow> (True, w'\<lparr>files := AList.delete path (files w)\<rparr>)
     | _ \<Rightarrow> (False, w')))"

definition c_rename :: "string \<Rightarrow> string \<Rightarrow> bool io" where
  "c_rename from to = State (\<lambda>w.
     let w' = w\<lparr>tick := tick w + 1\<rparr> in
     (case content w from of
        None \<Rightarrow> (False, w')
      | Some data \<Rightarrow>
          if content w to \<noteq> None \<or> to \<in> set (dirs w) \<or> \<not> dir_exists w (parent_dir to) then (False, w')
          else (case fate w (tick w) of
            Done \<Rightarrow> (True, w'\<lparr>files := AList.update to data (AList.delete from (files w))\<rparr>)
          | _ \<Rightarrow> (False, w'))))"

text \<open>Opening for writing truncates or creates; later writes append; flushing makes them final.\<close>

definition c_open :: "string \<Rightarrow> bool io" where
  "c_open path = State (\<lambda>w.
     let w' = w\<lparr>tick := tick w + 1\<rparr> in
     if \<not> dir_exists w (parent_dir path) \<or> path \<in> set (dirs w) then (False, w')
     else (case fate w (tick w) of
       Done \<Rightarrow> (True, w'\<lparr>files := AList.update path [] (files w)\<rparr>)
     | _ \<Rightarrow> (False, w')))"

definition c_append :: "string \<Rightarrow> string \<Rightarrow> bool io" where
  "c_append path data = State (\<lambda>w.
     let w' = w\<lparr>tick := tick w + 1\<rparr> in
     (case content w path of
        None \<Rightarrow> (False, w')
      | Some old \<Rightarrow>
          (case fate w (tick w) of
             Done \<Rightarrow> (True, w'\<lparr>files := AList.update path (old @ data) (files w)\<rparr>)
           | Torn n \<Rightarrow> (False, w'\<lparr>files := AList.update path (old @ take n data) (files w)\<rparr>)
           | Fails \<Rightarrow> (False, w'))))"

definition c_flush :: "string \<Rightarrow> bool io" where
  "c_flush path = State (\<lambda>w.
     let w' = w\<lparr>tick := tick w + 1\<rparr> in
     (case fate w (tick w) of
        Done \<Rightarrow> (True, w')
      | Torn n \<Rightarrow> (False, (case content w path of None \<Rightarrow> w' |
          Some old \<Rightarrow> w'\<lparr>files := AList.update path (take n old) (files w)\<rparr>))
      | Fails \<Rightarrow> (False, w')))"

text \<open>Directories.\<close>

definition base_name :: "string \<Rightarrow> string" where
  "base_name path = rev (takeWhile (\<lambda>c. c \<noteq> CHR ''/'') (rev path))"

definition paths :: "sd \<Rightarrow> string list" where
  "paths w = map fst (files w) @ dirs w"

definition dir_entries :: "sd \<Rightarrow> string \<Rightarrow> string list" where
  "dir_entries w d =
     map base_name (filter (\<lambda>p. CHR ''/'' \<in> set p \<and> parent_dir p = d \<and> base_name p \<noteq> []) (paths w))"

definition is_dir :: "sd \<Rightarrow> string \<Rightarrow> bool" where
  "is_dir w p = (p = ''/'' \<or> p \<in> set (dirs w))"

definition c_mkdir :: "string \<Rightarrow> bool io" where
  "c_mkdir path = State (\<lambda>w.
     let w' = w\<lparr>tick := tick w + 1\<rparr> in
     if is_dir w path \<or> content w path \<noteq> None \<or> \<not> dir_exists w (parent_dir path) then (False, w')
     else (case fate w (tick w) of
       Done \<Rightarrow> (True, w'\<lparr>dirs := dirs w @ [path]\<rparr>)
     | _ \<Rightarrow> (False, w')))"

definition c_rmdir :: "string \<Rightarrow> bool io" where
  "c_rmdir path = State (\<lambda>w.
     let w' = w\<lparr>tick := tick w + 1\<rparr> in
     if path \<notin> set (dirs w) \<or> dir_entries w path \<noteq> [] then (False, w')
     else (case fate w (tick w) of
       Done \<Rightarrow> (True, w'\<lparr>dirs := removeAll path (dirs w)\<rparr>)
     | _ \<Rightarrow> (False, w')))"

text \<open>A directory is also found under its name with a slash behind it.\<close>

definition c_is_dir :: "string \<Rightarrow> bool io" where
  "c_is_dir path = State (\<lambda>w.
     (is_dir w path \<or> path \<noteq> [] \<and> last path = CHR ''/'' \<and> is_dir w (butlast path), w))"

definition c_stat :: "string \<Rightarrow> bool io" where
  "c_stat path = State (\<lambda>w. (is_dir w path \<or> content w path \<noteq> None, w))"

section \<open>Weakest preconditions\<close>

named_theorems wp "weakest precondition rules"

definition wp_io :: "('s, 'a) state \<Rightarrow> ('a \<Rightarrow> 's \<Rightarrow> bool) \<Rightarrow> 's \<Rightarrow> bool" where
  "wp_io m Q w = (case run_state m w of (a, w') \<Rightarrow> Q a w')"

lemma wp_return [wp]: "wp_io (State_Monad.return a) Q = Q a"
  by (rule ext) (simp add: wp_io_def State_Monad.return_def)

lemma wp_bind [wp]: "wp_io (State_Monad.bind m f) Q = wp_io m (\<lambda>a. wp_io (f a) Q)"
  by (rule ext) (simp add: wp_io_def State_Monad.bind_def split: prod.splits)

lemma wp_if [wp]: "wp_io (if b then m else n) Q = (if b then wp_io m Q else wp_io n Q)"
  by simp

lemma wp_case_option [wp]:
  "wp_io (case x of None \<Rightarrow> m | Some y \<Rightarrow> f y) Q =
     (case x of None \<Rightarrow> wp_io m Q | Some y \<Rightarrow> wp_io (f y) Q)"
  by (cases x) simp_all

lemma wp_case_sum [wp]:
  "wp_io (case x of Inl e \<Rightarrow> m e | Inr y \<Rightarrow> f y) Q =
     (case x of Inl e \<Rightarrow> wp_io (m e) Q | Inr y \<Rightarrow> wp_io (f y) Q)"
  by (cases x) simp_all

lemma wp_mono: "wp_io m P w \<Longrightarrow> (\<And>a w'. P a w' \<Longrightarrow> Q a w') \<Longrightarrow> wp_io m Q w"
  by (auto simp: wp_io_def split: prod.splits)

lemma wp_conj: "wp_io m P w \<Longrightarrow> wp_io m Q w \<Longrightarrow> wp_io m (\<lambda>a w'. P a w' \<and> Q a w') w"
  by (auto simp: wp_io_def split: prod.splits)

lemma wp_result: "wp_io m Q w \<longleftrightarrow> Q (fst (run_state m w)) (snd (run_state m w))"
  by (simp add: wp_io_def case_prod_unfold)

lemma wp_read [wp]: "wp_io (c_read p) Q = (\<lambda>w. Q (content w p) w)"
  by (rule ext) (simp add: wp_io_def c_read_def)

lemma wp_exists [wp]: "wp_io (c_exists p) Q = (\<lambda>w. Q (content w p \<noteq> None) w)"
  by (rule ext) (simp add: wp_io_def c_exists_def)

lemma content_update [simp]: "map_of (AList.update p d fs) = (map_of fs)(p \<mapsto> d)"
  by (simp add: update_conv')

lemma content_delete [simp]: "map_of (AList.delete p fs) = (map_of fs)(p := None)"
  by (simp add: delete_conv')

lemma wp_case_written [wp]:
  "wp_io (case x of NotOpened \<Rightarrow> m | Short \<Rightarrow> n | Written \<Rightarrow> k) Q =
     (case x of NotOpened \<Rightarrow> wp_io m Q | Short \<Rightarrow> wp_io n Q | Written \<Rightarrow> wp_io k Q)"
  by (cases x) simp_all

text \<open>What a call may do to the contents.  The directories and the fate never change here.\<close>

definition same_env :: "sd \<Rightarrow> sd \<Rightarrow> bool" where
  "same_env w w' = (dirs w' = dirs w \<and> fate w' = fate w)"

lemma same_env_refl [simp]: "same_env w w"
  by (simp add: same_env_def)

lemma same_env_trans: "same_env u v \<Longrightarrow> same_env v w \<Longrightarrow> same_env u w"
  by (simp add: same_env_def)

lemma wp_remove:
  assumes "\<And>w'. same_env w w' \<Longrightarrow> content w' = content w \<Longrightarrow> Q False w'"
    and "\<And>w'. same_env w w' \<Longrightarrow> content w p \<noteq> None \<Longrightarrow> content w' = (content w)(p := None) \<Longrightarrow> Q True w'"
  shows "wp_io (c_remove p) Q w"
  using assms
  by (auto simp: wp_io_def c_remove_def Let_def same_env_def content_def [abs_def] split: outcome.splits)

lemma wp_rename:
  assumes "\<And>w'. same_env w w' \<Longrightarrow> content w' = content w \<Longrightarrow> Q False w'"
    and "\<And>w' data. same_env w w' \<Longrightarrow> content w from = Some data \<Longrightarrow> content w to = None \<Longrightarrow>
           content w' = (content w)(from := None, to \<mapsto> data) \<Longrightarrow> Q True w'"
  shows "wp_io (c_rename from to) Q w"
  using assms
  by (auto simp: wp_io_def c_rename_def Let_def same_env_def content_def [abs_def]
      split: outcome.splits option.splits)

lemma wp_write:
  assumes "\<And>w'. same_env w w' \<Longrightarrow> content w' = content w \<Longrightarrow> Q NotOpened w'"
    and "\<And>w' n. same_env w w' \<Longrightarrow> content w' = (content w)(p \<mapsto> take n data) \<Longrightarrow> Q Short w'"
    and "\<And>w'. same_env w w' \<Longrightarrow> content w' = (content w)(p \<mapsto> data) \<Longrightarrow> Q Written w'"
  shows "wp_io (c_write p data) Q w"
  using assms
  by (auto simp: wp_io_def c_write_def Let_def same_env_def content_def [abs_def]
      split: outcome.splits)

text \<open>Without faults.\<close>

definition calm :: "sd \<Rightarrow> bool" where
  "calm w = (\<forall>n. fate w n = Done)"

lemma calm_env: "same_env w w' \<Longrightarrow> calm w' = calm w"
  by (simp add: same_env_def calm_def)

lemma wp_remove_calm:
  assumes "calm w"
    and "\<And>w'. same_env w w' \<Longrightarrow> content w' = (content w)(p := None) \<Longrightarrow> Q (content w p \<noteq> None) w'"
  shows "wp_io (c_remove p) Q w"
proof -
  have "content w p = None \<Longrightarrow> (content w)(p := None) = content w" by auto
  then show ?thesis using assms
    by (auto simp: wp_io_def c_remove_def Let_def same_env_def content_def [abs_def] calm_def)
qed

lemma wp_rename_calm:
  assumes "calm w" and "content w from = Some data" and "content w to = None"
    and "to \<notin> set (dirs w)" and "dir_exists w (parent_dir to)"
    and "\<And>w'. same_env w w' \<Longrightarrow> content w' = (content w)(from := None, to \<mapsto> data) \<Longrightarrow> Q True w'"
  shows "wp_io (c_rename from to) Q w"
  using assms
  by (auto simp: wp_io_def c_rename_def Let_def same_env_def content_def [abs_def] calm_def)

lemma wp_write_calm:
  assumes "calm w" and "p \<notin> set (dirs w)" and "dir_exists w (parent_dir p)"
    and "\<And>w'. same_env w w' \<Longrightarrow> content w' = (content w)(p \<mapsto> data) \<Longrightarrow> Q Written w'"
  shows "wp_io (c_write p data) Q w"
  using assms
  by (auto simp: wp_io_def c_write_def Let_def same_env_def content_def [abs_def] calm_def)

section \<open>Frames\<close>

text \<open>Only files in a given set may have changed.\<close>

definition frame :: "string set \<Rightarrow> sd \<Rightarrow> sd \<Rightarrow> bool" where
  "frame S w w' = (same_env w w' \<and> (\<forall>q. q \<notin> S \<longrightarrow> content w' q = content w q))"

lemma frame_refl [simp]: "frame S w w"
  by (simp add: frame_def)

lemma frame_trans: "frame S u v \<Longrightarrow> frame T v w \<Longrightarrow> frame (S \<union> T) u w"
  by (auto simp: frame_def intro: same_env_trans)

lemma frameD: "frame S w w' \<Longrightarrow> q \<notin> S \<Longrightarrow> content w' q = content w q"
  by (simp add: frame_def)

text \<open>Removals only take files away.\<close>

definition erodes :: "sd \<Rightarrow> sd \<Rightarrow> bool" where
  "erodes w w' = (\<forall>q. content w' q = content w q \<or> content w' q = None)"

lemma erodes_trans: "erodes u v \<Longrightarrow> erodes v w \<Longrightarrow> erodes u w"
  unfolding erodes_def by metis

lemma wp_remove_frame:
  assumes "\<And>w' b. frame {p} w w' \<Longrightarrow> erodes w w' \<Longrightarrow> Q b w'"
  shows "wp_io (c_remove p) Q w"
  by (rule wp_remove) (rule assms; auto simp: frame_def erodes_def)+

lemma wp_open:
  assumes "\<And>w'. same_env w w' \<Longrightarrow> content w' = content w \<Longrightarrow> Q False w'"
    and "\<And>w'. same_env w w' \<Longrightarrow> content w' = (content w)(p \<mapsto> []) \<Longrightarrow> Q True w'"
  shows "wp_io (c_open p) Q w"
  using assms
  by (auto simp: wp_io_def c_open_def Let_def same_env_def content_def [abs_def] split: outcome.splits)

lemma wp_append:
  assumes "\<And>w'. frame {p} w w' \<Longrightarrow> Q False w'"
    and "\<And>w' old. same_env w w' \<Longrightarrow> content w p = Some old \<Longrightarrow>
      content w' = (content w)(p \<mapsto> old @ data) \<Longrightarrow> Q True w'"
  shows "wp_io (c_append p data) Q w"
  using assms
  by (auto simp: wp_io_def c_append_def Let_def same_env_def frame_def content_def [abs_def]
      split: outcome.splits option.splits)

lemma wp_flush:
  assumes "\<And>w'. frame {p} w w' \<Longrightarrow> Q False w'"
    and "\<And>w'. same_env w w' \<Longrightarrow> content w' = content w \<Longrightarrow> Q True w'"
  shows "wp_io (c_flush p) Q w"
  using assms
  by (auto simp: wp_io_def c_flush_def Let_def same_env_def frame_def content_def [abs_def]
      split: outcome.splits option.splits)

end
