(* ===== verification/Swap.thy ===== *)
theory Swap
  imports Handoff Sd_Card
begin

text \<open>
  The forwarder: \<^verbatim>\<open>apps/forwarder/src/swap.hpp\<close> and \<^verbatim>\<open>swap.cpp\<close>.  It reads the handoff, decides what to
  do and replaces the application binary with two renames.  The properties are about the card after
  \<^verbatim>\<open>runSwap\<close> for every fate of its file operations: the application is never lost, whatever fails and
  whenever the power goes.
\<close>

section \<open>Types\<close>

datatype SwapResult =
    NothingToDo | Installed | RolledBack | Restored | DigestMismatch | IoFailed | SwapUnrecoverable

record SwapOutcome =
  swap_result :: SwapResult
  swap_detail :: string

definition applicationUsable :: "SwapOutcome \<Rightarrow> bool" where
  "applicationUsable out = (swap_result out \<noteq> SwapUnrecoverable)"

definition kIoChunk :: nat where
  "kIoChunk = 64 * 1024"

section \<open>File helpers\<close>

definition exists :: "string \<Rightarrow> bool io" where
  "exists path = c_exists path"

definition readFile :: "string \<Rightarrow> string option io" where
  "readFile path = c_read path"

definition writeFileAtomic :: "string \<Rightarrow> string \<Rightarrow> bool io" where
  "writeFileAtomic path data = do {
     let tmp = path @ ''.tmp'';
     r \<leftarrow> c_write tmp data;
     case r of
       NotOpened \<Rightarrow> State_Monad.return False
     | Short \<Rightarrow> do { _ \<leftarrow> c_remove tmp; State_Monad.return False }
     | Written \<Rightarrow> do {
         _ \<leftarrow> c_remove path;
         ok \<leftarrow> c_rename tmp path;
         if \<not> ok then do { _ \<leftarrow> c_remove tmp; State_Monad.return False }
         else State_Monad.return True
       }
   }"

text \<open>Copying a file onto itself would read nothing, because opening for writing truncates it first.\<close>

definition copyFile :: "string \<Rightarrow> string \<Rightarrow> bool io" where
  "copyFile from to = do {
     src \<leftarrow> c_read from;
     case src of
       None \<Rightarrow> State_Monad.return False
     | Some data \<Rightarrow> do {
         r \<leftarrow> c_write to (if from = to then [] else data);
         case r of
           NotOpened \<Rightarrow> State_Monad.return False
         | Short \<Rightarrow> do { _ \<leftarrow> c_remove to; State_Monad.return False }
         | Written \<Rightarrow> State_Monad.return True
       }
   }"

text \<open>The pieces in which a file is read.\<close>

function chunks_of :: "nat \<Rightarrow> 'a list \<Rightarrow> 'a list list" where
  "chunks_of n xs = (if xs = [] \<or> n = 0 then [] else take n xs # chunks_of n (drop n xs))"
  by pat_completeness auto
termination
  by (relation "measure (\<lambda>(n, xs). length xs)") auto

declare chunks_of.simps [simp del]

definition hashFile :: "string \<Rightarrow> Digest option io" where
  "hashFile path = do {
     src \<leftarrow> c_read path;
     State_Monad.return
       (map_option (\<lambda>data. fst (finish (foldl update reset (chunks_of kIoChunk (bytes_of data))))) src)
   }"

definition renameOver :: "string \<Rightarrow> string \<Rightarrow> bool io" where
  "renameOver from to = do { _ \<leftarrow> c_remove to; c_rename from to }"

definition cleanUp :: "Handoff \<Rightarrow> string \<Rightarrow> unit io" where
  "cleanUp h handoffPath = do {
     _ \<leftarrow> c_remove (backupNro h);
     _ \<leftarrow> c_remove (stagedNro h);
     _ \<leftarrow> c_remove handoffPath;
     State_Monad.return ()
   }"

definition swap_fail :: "SwapResult \<Rightarrow> string \<Rightarrow> SwapOutcome io" where
  "swap_fail result detail = State_Monad.return \<lparr>swap_result = result, swap_detail = detail\<rparr>"

definition rollBack :: "Handoff \<Rightarrow> string \<Rightarrow> string \<Rightarrow> SwapOutcome io" where
  "rollBack h handoffPath why = do {
     b \<leftarrow> exists (backupNro h);
     t \<leftarrow> exists (targetNro h);
     restored \<leftarrow> (if b \<and> \<not> t then renameOver (backupNro h) (targetNro h) else State_Monad.return True);
     if \<not> restored then swap_fail IoFailed (''could not restore the backup: '' @ backupNro h)
     else do {
       _ \<leftarrow> cleanUp h handoffPath;
       State_Monad.return \<lparr>swap_result = RolledBack, swap_detail = why\<rparr>
     }
   }"

section \<open>The swap\<close>

text \<open>Step 7: confirm before destroying the only copy of the old binary.\<close>

definition confirmInstalled :: "Handoff \<Rightarrow> string \<Rightarrow> SwapOutcome io" where
  "confirmInstalled h handoffPath = do {
     installed \<leftarrow> hashFile (targetNro h);
     if (case installed of None \<Rightarrow> True | Some d \<Rightarrow> \<not> digestsEqual d (stagedSha256 h)) then do {
       b \<leftarrow> exists (backupNro h);
       _ \<leftarrow> (if b then renameOver (backupNro h) (targetNro h) else State_Monad.return True);
       swap_fail IoFailed ''the installed binary did not verify; the previous version was restored''
     }
     else do {
       _ \<leftarrow> cleanUp h handoffPath;
       State_Monad.return \<lparr>swap_result = Installed, swap_detail = ''updated to '' @ toVersion h\<rparr>
     }
   }"

text \<open>Steps 5 and 6: the two renames.\<close>

definition placeIncoming :: "Handoff \<Rightarrow> string \<Rightarrow> SwapOutcome io" where
  "placeIncoming h handoffPath = do {
     let incoming = targetNro h @ ''.new'';
     t \<leftarrow> exists (targetNro h);
     aside \<leftarrow> (if t then renameOver (targetNro h) (backupNro h) else State_Monad.return True);
     if \<not> aside then do {
       _ \<leftarrow> c_remove incoming;
       swap_fail IoFailed ''could not move the current version aside''
     }
     else do {
       landed \<leftarrow> renameOver incoming (targetNro h);
       if \<not> landed then do {
         b \<leftarrow> exists (backupNro h);
         _ \<leftarrow> (if b then renameOver (backupNro h) (targetNro h) else State_Monad.return True);
         _ \<leftarrow> c_remove incoming;
         swap_fail IoFailed ''could not move the new version into place''
       }
       else confirmInstalled h handoffPath
     }
   }"

text \<open>Steps 2 to 4: record the attempt, re-verify the staged binary, copy it next to the target.\<close>

definition performSwap :: "(json \<Rightarrow> string) \<Rightarrow> Handoff \<Rightarrow> string \<Rightarrow> SwapOutcome io" where
  "performSwap jdump h0 handoffPath = do {
     let h = h0\<lparr>attempts := attempts h0 + 1\<rparr>;
     recorded \<leftarrow> writeFileAtomic handoffPath (serializeHandoff jdump h);
     if \<not> recorded then swap_fail IoFailed ''could not record the attempt counter''
     else do {
       actual \<leftarrow> hashFile (stagedNro h);
       case actual of
         None \<Rightarrow> swap_fail IoFailed ''could not read the staged binary''
       | Some d \<Rightarrow>
           if \<not> digestsEqual d (stagedSha256 h) then
             swap_fail DigestMismatch
               (''staged binary does not match its recorded digest; the update was '' @
                ''discarded and your current version is untouched'')
           else do {
             let incoming = targetNro h @ ''.new'';
             copied \<leftarrow> copyFile (stagedNro h) incoming;
             if \<not> copied then do {
               _ \<leftarrow> c_remove incoming;
               swap_fail IoFailed ''could not stage the new binary next to the target''
             }
             else placeIncoming h handoffPath
           }
     }
   }"

definition runSwap ::
  "(string \<Rightarrow> json option) \<Rightarrow> (json \<Rightarrow> string) \<Rightarrow> string \<Rightarrow> SwapOutcome io" where
  "runSwap jparse jdump handoffPath = do {
     raw \<leftarrow> readFile handoffPath;
     case (case raw of None \<Rightarrow> Inr None | Some txt \<Rightarrow> map_sum id Some (parseHandoff jparse txt)) of
       Inl e \<Rightarrow> swap_fail SwapUnrecoverable (describe_HandoffError e)
     | Inr handoff \<Rightarrow> do {
         present \<leftarrow> (case handoff of
             None \<Rightarrow> State_Monad.return
               \<lparr>has_handoff = raw \<noteq> None, has_staged = False, has_target = False, has_backup = False\<rparr>
           | Some h \<Rightarrow> do {
               s \<leftarrow> exists (stagedNro h);
               t \<leftarrow> exists (targetNro h);
               b \<leftarrow> exists (backupNro h);
               State_Monad.return
                 \<lparr>has_handoff = raw \<noteq> None, has_staged = s, has_target = t, has_backup = b\<rparr>
             });
         let decision = decideRecovery handoff present;
         case handoff of
           None \<Rightarrow>
             if recovery decision = Nothing then
               State_Monad.return \<lparr>swap_result = NothingToDo, swap_detail = recovery_reason decision\<rparr>
             else swap_fail SwapUnrecoverable (recovery_reason decision)
         | Some h \<Rightarrow>
             (case recovery decision of
                Nothing \<Rightarrow>
                  State_Monad.return \<lparr>swap_result = NothingToDo, swap_detail = recovery_reason decision\<rparr>
              | Unrecoverable \<Rightarrow> swap_fail SwapUnrecoverable (recovery_reason decision)
              | RollBack \<Rightarrow> rollBack h handoffPath (recovery_reason decision)
              | RestoreBackup \<Rightarrow> do {
                  ok \<leftarrow> renameOver (backupNro h) (targetNro h);
                  if \<not> ok then swap_fail IoFailed ''could not restore the backup''
                  else do {
                    _ \<leftarrow> cleanUp h handoffPath;
                    State_Monad.return
                      \<lparr>swap_result = Restored, swap_detail = recovery_reason decision\<rparr>
                  }
                }
              | _ \<Rightarrow> performSwap jdump h handoffPath)
       }
   }"

fun describe_SwapResult :: "SwapResult \<Rightarrow> string" where
  "describe_SwapResult NothingToDo = ''nothing to do''"
| "describe_SwapResult Installed = ''update installed''"
| "describe_SwapResult RolledBack = ''update failed and was rolled back''"
| "describe_SwapResult Restored = ''previous version restored''"
| "describe_SwapResult DigestMismatch = ''the staged update did not verify''"
| "describe_SwapResult IoFailed = ''a file operation failed''"
| "describe_SwapResult SwapUnrecoverable = ''cannot recover automatically''"

section \<open>Hashing a file\<close>

lemma concat_chunks_of: "0 < n \<Longrightarrow> concat (chunks_of n xs) = xs"
proof (induction n xs rule: chunks_of.induct)
  case (1 n xs)
  then show ?case by (subst chunks_of.simps) simp
qed

lemma hash_chunks:
  "fst (finish (foldl update reset (chunks_of kIoChunk m))) = sha256_spec m"
  using concat_chunks_of [of kIoChunk m] by (simp add: sha.chunked kIoChunk_def)

lemma wp_hashFile [wp]:
  "wp_io (hashFile p) Q = (\<lambda>w. Q (map_option (\<lambda>data. sha256_spec (bytes_of data)) (content w p)) w)"
  by (simp add: hashFile_def wp hash_chunks)

lemma wp_exists' [wp]: "wp_io (exists p) Q = (\<lambda>w. Q (content w p \<noteq> None) w)"
  by (simp add: exists_def wp)

lemma wp_readFile [wp]: "wp_io (readFile p) Q = (\<lambda>w. Q (content w p) w)"
  by (simp add: readFile_def wp)

lemma wp_swap_fail [wp]:
  "wp_io (swap_fail r d) Q = Q \<lparr>swap_result = r, swap_detail = d\<rparr>"
  by (simp add: swap_fail_def wp)

section \<open>Effects of the helpers\<close>

lemma tmp_neq [simp]: "p @ ''.tmp'' \<noteq> p" "p \<noteq> p @ ''.tmp''"
  by simp_all

lemma wp_writeFileAtomic:
  assumes "\<And>w'. frame {p, p @ ''.tmp''} w w' \<Longrightarrow> content w' p = Some data \<Longrightarrow> Q True w'"
    and "\<And>w'. frame {p, p @ ''.tmp''} w w' \<Longrightarrow> content w' p \<in> {content w p, None} \<Longrightarrow> Q False w'"
  shows "wp_io (writeFileAtomic p data) Q w"
  unfolding writeFileAtomic_def Let_def wp
proof (rule wp_write, goal_cases)
  case (1 w1)
  then show ?case by (simp add: wp assms(2) frame_def)
next
  case (2 w1 n)
  show ?case unfolding written.case wp
    by (rule wp_remove; rule assms(2)) (use 2 in \<open>auto simp: frame_def same_env_def\<close>)
next
  case (3 w1)
  have after: "wp_io (c_rename (p @ ''.tmp'') p)
      (\<lambda>a. if \<not> a then wp_io (c_remove (p @ ''.tmp'')) (\<lambda>_. Q False) else Q True) w2"
    if w2: "same_env w w2" "\<forall>q. q \<noteq> p \<and> q \<noteq> p @ ''.tmp'' \<longrightarrow> content w2 q = content w q"
      "content w2 (p @ ''.tmp'') = Some data" "content w2 p \<in> {content w p, None}" for w2
  proof (rule wp_rename, goal_cases)
    case (1 w3)
    show ?case unfolding simp_thms if_True
      by (rule wp_remove; rule assms(2)) (use 1 w2 in \<open>auto simp: frame_def same_env_def\<close>)
  next
    case (2 w3 d)
    then show ?case using w2 by (simp add: wp) (rule assms(1); auto simp: frame_def same_env_def)
  qed
  show ?case unfolding written.case wp
    by (rule wp_remove; rule after) (use 3 in \<open>auto simp: same_env_def\<close>)
qed

lemma wp_renameOver:
  assumes "from \<noteq> to"
    and "\<And>w'. same_env w w' \<Longrightarrow> content w' = content w \<or> content w' = (content w)(to := None) \<Longrightarrow> Q False w'"
    and "\<And>w' data. same_env w w' \<Longrightarrow> content w from = Some data \<Longrightarrow>
           content w' = (content w)(from := None, to \<mapsto> data) \<Longrightarrow> Q True w'"
  shows "wp_io (renameOver from to) Q w"
  unfolding renameOver_def wp
proof (rule wp_remove, goal_cases)
  case (1 w1)
  show ?case
    by (rule wp_rename) (use 1 assms in \<open>auto simp: same_env_def\<close>)
next
  case (2 w1)
  show ?case
  proof (rule wp_rename, goal_cases)
    case (1 w2)
    with 2 show ?case by (intro assms(2)) (auto simp: same_env_def)
  next
    case (2 w2 d)
    with \<open>content w1 = _\<close> assms(1) have "content w from = Some d"
      "content w2 = (content w)(from := None, to \<mapsto> d)"
      by (auto simp: fun_eq_iff split: if_splits)
    with 2 \<open>same_env w w1\<close> show ?case by (intro assms(3)) (auto intro: same_env_trans)
  qed
qed

lemma wp_copyFile:
  assumes "from \<noteq> to"
    and "\<And>w'. frame {to} w w' \<Longrightarrow> Q False w'"
    and "\<And>w' data. frame {to} w w' \<Longrightarrow> content w from = Some data \<Longrightarrow> content w' to = Some data \<Longrightarrow> Q True w'"
  shows "wp_io (copyFile from to) Q w"
proof (cases "content w from")
  case None
  then show ?thesis by (simp add: copyFile_def wp assms(2))
next
  case (Some data)
  show ?thesis unfolding copyFile_def wp Some option.case
  proof (rule wp_write, goal_cases)
    case (1 w1)
    then show ?case by (simp add: wp) (rule assms(2), simp add: frame_def)
  next
    case (2 w1 n)
    show ?case unfolding written.case wp
      by (rule wp_remove_frame, rule assms(2)) (use 2 in \<open>auto simp: frame_def same_env_def\<close>)
  next
    case (3 w1)
    with Some assms(1) show ?case by (simp add: wp) (rule assms(3); auto simp: frame_def)
  qed
qed

lemma wp_cleanUp:
  assumes "\<And>w'. frame {backupNro h, stagedNro h, hp} w w' \<Longrightarrow> erodes w w' \<Longrightarrow> Q () w'"
  shows "wp_io (cleanUp h hp) Q w"
  unfolding cleanUp_def wp
proof (intro wp_remove_frame, goal_cases)
  case (1 w1 _ w2 _ w3 _)
  have "frame ({backupNro h} \<union> ({stagedNro h} \<union> {hp})) w w3" using 1 by (blast intro: frame_trans)
  moreover have "erodes w w3" using 1 by (blast intro: erodes_trans)
  ultimately show ?case by (intro assms) (simp_all add: insert_commute)
qed

section \<open>The application is never lost\<close>

text \<open>The files the swap works with are different files.\<close>

definition apart :: "string \<Rightarrow> Handoff \<Rightarrow> bool" where
  "apart hp h =
     distinct [hp, hp @ ''.tmp'', stagedNro h, targetNro h, backupNro h, targetNro h @ ''.new'']"

text \<open>The handoff file holds this handoff, up to its attempt counter.\<close>

definition carries :: "(string \<Rightarrow> json option) \<Rightarrow> string \<Rightarrow> Handoff \<Rightarrow> sd \<Rightarrow> bool" where
  "carries jparse hp h w =
     (\<exists>raw a. content w hp = Some raw \<and> parseHandoff jparse raw = Inr (h\<lparr>attempts := a\<rparr>))"

text \<open>The application is there, or it can be restored: it is a working binary at its path, or its path is
  free, the backup is a working binary and the handoff that says so is readable.\<close>

definition app_safe ::
  "(string \<Rightarrow> json option) \<Rightarrow> string set \<Rightarrow> string \<Rightarrow> Handoff \<Rightarrow> sd \<Rightarrow> bool" where
  "app_safe jparse good hp h w =
     ((\<exists>c\<in>good. content w (targetNro h) = Some c) \<or>
      content w (targetNro h) = None \<and> (\<exists>c\<in>good. content w (backupNro h) = Some c) \<and>
      carries jparse hp h w)"

definition swap_inv ::
  "(string \<Rightarrow> json option) \<Rightarrow> string set \<Rightarrow> string \<Rightarrow> Handoff \<Rightarrow> sd \<Rightarrow> bool" where
  "swap_inv jparse good hp h w =
     ((content w hp = None \<or> carries jparse hp h w) \<and> app_safe jparse good hp h w)"

text \<open>What the swap relies on: a JSON library that reads back the handoffs it prints, and that a binary
  with the recorded digest works.\<close>

definition json_faithful :: "(string \<Rightarrow> json option) \<Rightarrow> (json \<Rightarrow> string) \<Rightarrow> Handoff \<Rightarrow> bool" where
  "json_faithful jparse jdump h =
     (\<forall>a. 0 \<le> a \<and> a \<le> 1000 \<longrightarrow> reads_back jparse jdump (handoff_document (h\<lparr>attempts := a\<rparr>)))"

definition digest_trusted :: "string set \<Rightarrow> Handoff \<Rightarrow> bool" where
  "digest_trusted good h = (\<forall>data. sha256_spec (bytes_of data) = stagedSha256 h \<longrightarrow> data \<in> good)"

lemma carries_cong:
  "content w' hp = content w hp \<Longrightarrow> carries jparse hp h w' = carries jparse hp h w"
  by (simp add: carries_def)

lemma swap_inv_targetI:
  assumes "content w (targetNro h) = Some c" and "c \<in> good"
    and "content w hp = None \<or> carries jparse hp h w"
  shows "swap_inv jparse good hp h w"
  using assms by (auto simp: swap_inv_def app_safe_def)

lemma swap_inv_backupI:
  assumes "content w (targetNro h) = None" and "content w (backupNro h) = Some c" and "c \<in> good"
    and "carries jparse hp h w"
  shows "swap_inv jparse good hp h w"
  using assms by (auto simp: swap_inv_def app_safe_def)

text \<open>The invariant is about the files at the target, the backup and the handoff.\<close>

lemma swap_inv_cong:
  assumes "content w' (targetNro h) = content w (targetNro h)"
    and "content w' (backupNro h) = content w (backupNro h)" and "content w' hp = content w hp"
  shows "swap_inv jparse good hp h w' = swap_inv jparse good hp h w"
  using assms by (simp add: swap_inv_def app_safe_def carries_def)

lemma cleanUp_inv:
  assumes "content w (targetNro h) = Some c" and "c \<in> good" and "apart hp h"
    and "content w hp = None \<or> carries jparse hp h w"
  shows "wp_io (cleanUp h hp) (\<lambda>_. swap_inv jparse good hp h) w"
proof (rule wp_cleanUp)
  fix w' assume f: "frame {backupNro h, stagedNro h, hp} w w'" and e: "erodes w w'"
  have "content w' (targetNro h) = Some c"
    using frameD [OF f, of "targetNro h"] assms(1,3) by (auto simp: apart_def)
  moreover have "content w' hp = None \<or> carries jparse hp h w'"
  proof -
    have "content w' hp = content w hp \<or> content w' hp = None" using e by (simp add: erodes_def)
    then show ?thesis using assms(4) carries_cong [of w' hp w jparse h] by auto
  qed
  ultimately show "swap_inv jparse good hp h w'" using assms(2) by (intro swap_inv_targetI)
qed

lemma confirmInstalled_inv:
  assumes "content w (targetNro h) = Some d" and "sha256_spec (bytes_of d) = stagedSha256 h"
    and "digest_trusted good h" and "apart hp h" and "content w hp = None \<or> carries jparse hp h w"
  shows "wp_io (confirmInstalled h hp) (\<lambda>_. swap_inv jparse good hp h) w"
proof -
  have "digestsEqual (stagedSha256 h) (stagedSha256 h)"
    using digestsEqual_iff [of "stagedSha256 h" "stagedSha256 h"] assms(2) length_sha256_spec by metis
  moreover have "d \<in> good" using assms(2,3) by (simp add: digest_trusted_def)
  ultimately show ?thesis
    using cleanUp_inv [OF assms(1) _ assms(4,5), of good] assms(1,2)
    by (simp add: confirmInstalled_def wp)
qed

text \<open>Restoring the backup while the target is missing.\<close>

lemma restore_inv:
  assumes "content w (targetNro h) = None" and "content w (backupNro h) = Some c" and "c \<in> good"
    and "carries jparse hp h w" and "apart hp h"
  shows "wp_io (renameOver (backupNro h) (targetNro h))
    (\<lambda>ok w'. swap_inv jparse good hp h w' \<and> content w' hp = content w hp \<and>
      (ok \<longrightarrow> content w' (targetNro h) = Some c)) w"
proof (rule wp_renameOver, goal_cases)
  case 1
  then show ?case using assms(5) by (auto simp: apart_def)
next
  case (2 w')
  then have "content w' = content w" using assms(1) by auto
  then show ?case using assms swap_inv_backupI [of w' h c good jparse hp] by (simp add: carries_def)
next
  case (3 w' data)
  then have "content w' (targetNro h) = Some c" "content w' hp = content w hp"
    using assms by (auto simp: apart_def)
  then show ?case using assms swap_inv_targetI [of w' h c good hp jparse] by (simp add: carries_def)
qed

lemma remove_incoming_inv:
  assumes "swap_inv jparse good hp h w" and "apart hp h"
  shows "wp_io (c_remove (targetNro h @ ''.new'')) (\<lambda>_. swap_inv jparse good hp h) w"
proof (rule wp_remove_frame)
  fix w' assume f: "frame {targetNro h @ ''.new''} w w'"
  have "content w' q = content w q" if "q \<in> {targetNro h, backupNro h, hp}" for q
    using frameD [OF f, of q] that assms(2) by (auto simp: apart_def)
  then show "swap_inv jparse good hp h w'" using assms(1) swap_inv_cong [of w' h w hp] by simp
qed

text \<open>Steps 6 and 7, from the moment the target is out of the way.\<close>

definition land :: "Handoff \<Rightarrow> string \<Rightarrow> SwapOutcome io" where
  "land h hp = do {
     landed \<leftarrow> renameOver (targetNro h @ ''.new'') (targetNro h);
     if \<not> landed then do {
       b \<leftarrow> exists (backupNro h);
       _ \<leftarrow> (if b then renameOver (backupNro h) (targetNro h) else State_Monad.return True);
       _ \<leftarrow> c_remove (targetNro h @ ''.new'');
       swap_fail IoFailed ''could not move the new version into place''
     }
     else confirmInstalled h hp
   }"

lemma land_inv:
  assumes "content w (targetNro h) = None" and "content w (backupNro h) = Some c" and "c \<in> good"
    and "carries jparse hp h w" and "apart hp h"
    and "content w (targetNro h @ ''.new'') = Some d" and "sha256_spec (bytes_of d) = stagedSha256 h"
    and "digest_trusted good h"
  shows "wp_io (land h hp) (\<lambda>_. swap_inv jparse good hp h) w"
  unfolding land_def wp
proof (rule wp_renameOver, goal_cases)
  case 1
  then show ?case by simp
next
  case (2 w')
  then have same: "content w' = content w" using assms(1) by auto
  have pre: "content w' (targetNro h) = None" "content w' (backupNro h) = Some c"
    "carries jparse hp h w'"
    using same assms carries_cong [of w' hp w] by simp_all
  have "wp_io (renameOver (backupNro h) (targetNro h))
      (\<lambda>_. wp_io (c_remove (targetNro h @ ''.new'')) (\<lambda>_. swap_inv jparse good hp h)) w'"
    by (rule wp_mono [OF restore_inv [OF pre(1,2) assms(3) pre(3) assms(5)]])
      (use remove_incoming_inv assms(5) in blast)
  then show ?case using pre(2) unfolding wp by simp
next
  case (3 w' d')
  then have "content w' (targetNro h) = Some d" "content w' hp = content w hp"
    using assms by (auto simp: apart_def)
  then show ?case
    using confirmInstalled_inv [of w' h d good hp jparse] assms carries_cong [of w' hp w] by simp
qed

lemma placeIncoming_eq:
  "placeIncoming h hp = do {
     t \<leftarrow> exists (targetNro h);
     aside \<leftarrow> (if t then renameOver (targetNro h) (backupNro h) else State_Monad.return True);
     if \<not> aside then do {
       _ \<leftarrow> c_remove (targetNro h @ ''.new'');
       swap_fail IoFailed ''could not move the current version aside''
     }
     else land h hp
   }"
  unfolding placeIncoming_def land_def Let_def ..

lemma placeIncoming_inv:
  assumes "app_safe jparse good hp h w" and "carries jparse hp h w" and "apart hp h"
    and "content w (targetNro h @ ''.new'') = Some d" and "sha256_spec (bytes_of d) = stagedSha256 h"
    and "digest_trusted good h"
  shows "wp_io (placeIncoming h hp) (\<lambda>_. swap_inv jparse good hp h) w"
proof (cases "content w (targetNro h)")
  case None
  with assms(1) obtain c where "c \<in> good" "content w (backupNro h) = Some c"
    by (auto simp: app_safe_def)
  with None assms land_inv [of w h c good jparse hp d] show ?thesis
    unfolding placeIncoming_eq wp by simp
next
  case (Some c)
  with assms(1) have c: "c \<in> good" by (auto simp: app_safe_def)
  have "wp_io (renameOver (targetNro h) (backupNro h))
      (\<lambda>aside. if \<not> aside then wp_io (c_remove (targetNro h @ ''.new'')) (\<lambda>_. swap_inv jparse good hp h)
        else wp_io (land h hp) (\<lambda>_. swap_inv jparse good hp h)) w"
  proof (rule wp_renameOver, goal_cases)
    case 1
    then show ?case using assms(3) by (auto simp: apart_def)
  next
    case (2 w')
    then have "content w' (targetNro h) = Some c" "content w' hp = content w hp"
      using Some assms(3) by (auto simp: apart_def)
    then have "swap_inv jparse good hp h w'"
      using c assms(2) carries_cong [of w' hp w] by (intro swap_inv_targetI) auto
    then show ?case using remove_incoming_inv assms(3) by simp
  next
    case (3 w' c')
    then have "content w' (targetNro h) = None" "content w' (backupNro h) = Some c"
      "content w' hp = content w hp" "content w' (targetNro h @ ''.new'') = Some d"
      using Some assms(3,4) by (auto simp: apart_def)
    then show ?case
      using land_inv [of w' h c good jparse hp d] c assms carries_cong [of w' hp w] by simp
  qed
  then show ?thesis using Some unfolding placeIncoming_eq wp by simp
qed

lemma apart_attempts [simp]: "apart hp (h\<lparr>attempts := a\<rparr>) = apart hp h"
  by (simp add: apart_def)

lemma carries_attempts [simp]: "carries jparse hp (h\<lparr>attempts := a\<rparr>) = carries jparse hp h"
  by (simp add: carries_def [abs_def])

lemma app_safe_attempts [simp]: "app_safe jparse good hp (h\<lparr>attempts := a\<rparr>) = app_safe jparse good hp h"
  by (simp add: app_safe_def [abs_def])

lemma swap_inv_attempts [simp]: "swap_inv jparse good hp (h\<lparr>attempts := a\<rparr>) = swap_inv jparse good hp h"
  by (simp add: swap_inv_def [abs_def])

lemma digest_trusted_attempts [simp]: "digest_trusted good (h\<lparr>attempts := a\<rparr>) = digest_trusted good h"
  by (simp add: digest_trusted_def)

lemma json_faithful_attempts [simp]:
  "json_faithful jparse jdump (h\<lparr>attempts := a\<rparr>) = json_faithful jparse jdump h"
  by (simp add: json_faithful_def)

lemma carries_written:
  assumes "json_faithful jparse jdump h" and "wf_handoff h" and "attempts h < maxAttempts h"
    and "content w hp = Some (serializeHandoff jdump (h\<lparr>attempts := attempts h + 1\<rparr>))"
  shows "carries jparse hp h w"
proof -
  have wf: "wf_handoff (h\<lparr>attempts := attempts h + 1\<rparr>)"
    using assms(2,3) by (simp add: wf_handoff_def)
  have "reads_back jparse jdump (handoff_document (h\<lparr>attempts := attempts h + 1\<rparr>))"
    using assms(1-3) by (simp add: json_faithful_def wf_handoff_def)
  from parseHandoff_roundtrip [OF this wf] assms(4) show ?thesis by (auto simp: carries_def)
qed

lemma performSwap_inv:
  assumes "content w (targetNro h) = Some c" and "c \<in> good" and "carries jparse hp h w"
    and "apart hp h" and "json_faithful jparse jdump h" and "wf_handoff h"
    and "attempts h < maxAttempts h" and "digest_trusted good h"
  shows "wp_io (performSwap jdump h hp) (\<lambda>_. swap_inv jparse good hp h) w"
  unfolding performSwap_def Let_def wp
proof (rule wp_writeFileAtomic, goal_cases)
  case (1 w1)
  let ?h = "h\<lparr>attempts := attempts h + 1\<rparr>"
  have t1: "content w1 (targetNro h) = Some c"
    using frameD [OF 1(1), of "targetNro h"] assms(1,4) by (auto simp: apart_def)
  have c1: "carries jparse hp h w1" using carries_written assms(5-7) 1(2) by blast
  have inv: "swap_inv jparse good hp h w1" using t1 c1 assms(2) by (intro swap_inv_targetI) auto
  show ?case
  proof (cases "content w1 (stagedNro h)")
    case None
    then show ?thesis using inv by (simp add: wp)
  next
    case (Some d)
    show ?thesis
    proof (cases "digestsEqual (sha256_spec (bytes_of d)) (stagedSha256 h)")
      case False
      then show ?thesis using inv Some by (simp add: wp)
    next
      case True
      then have dig: "sha256_spec (bytes_of d) = stagedSha256 h"
        using digestsEqual_iff assms(6) by (simp add: wf_handoff_def)
      have "wp_io (copyFile (stagedNro h) (targetNro h @ ''.new''))
          (\<lambda>copied. if \<not> copied
             then wp_io (c_remove (targetNro h @ ''.new'')) (\<lambda>_. swap_inv jparse good hp h)
             else wp_io (placeIncoming ?h hp) (\<lambda>_. swap_inv jparse good hp h)) w1"
      proof (rule wp_copyFile, goal_cases)
        case 1
        then show ?case using assms(4) by (auto simp: apart_def)
      next
        case (2 w2)
        have "content w2 q = content w1 q" if "q \<in> {targetNro h, backupNro h, hp}" for q
          using frameD [OF 2, of q] that assms(4) by (auto simp: apart_def)
        then have "swap_inv jparse good hp h w2" using inv swap_inv_cong [of w2 h w1 hp] by simp
        then show ?case using remove_incoming_inv assms(4) by simp
      next
        case (3 w2 d')
        have same: "content w2 q = content w1 q" if "q \<in> {targetNro h, backupNro h, hp}" for q
          using frameD [OF 3(1), of q] that assms(4) by (auto simp: apart_def)
        have "app_safe jparse good hp ?h w2" "carries jparse hp ?h w2"
          using same t1 assms(2) c1 carries_cong [of w2 hp w1] by (auto simp: app_safe_def)
        then have "wp_io (placeIncoming ?h hp) (\<lambda>_. swap_inv jparse good hp ?h) w2"
          by (rule placeIncoming_inv [where d = d])
            (use 3 Some dig assms(4,8) in auto)
        then show ?case by simp
      qed
      then show ?thesis using Some True unfolding wp by (simp cong del: if_weak_cong)
    qed
  qed
next
  case (2 w1)
  have "content w1 (targetNro h) = Some c"
    using frameD [OF 2(1), of "targetNro h"] assms(1,4) by (auto simp: apart_def)
  moreover have "content w1 hp = None \<or> carries jparse hp h w1"
    using 2(2) assms(3) carries_cong [of w1 hp w] by auto
  ultimately show ?case using assms(2) by (simp add: swap_inv_targetI wp)
qed

lemma rollBack_inv:
  assumes "swap_inv jparse good hp h w" and "apart hp h"
  shows "wp_io (rollBack h hp why) (\<lambda>_. swap_inv jparse good hp h) w"
proof (cases "content w (targetNro h)")
  case (Some c)
  with assms have "c \<in> good" "content w hp = None \<or> carries jparse hp h w"
    by (auto simp: swap_inv_def app_safe_def)
  with Some cleanUp_inv [of w h c good hp jparse] assms(2) show ?thesis
    unfolding rollBack_def wp by simp
next
  case None
  with assms(1) obtain c where c: "c \<in> good" "content w (backupNro h) = Some c" "carries jparse hp h w"
    by (auto simp: swap_inv_def app_safe_def)
  have "wp_io (renameOver (backupNro h) (targetNro h))
      (\<lambda>restored. if \<not> restored then swap_inv jparse good hp h
        else wp_io (cleanUp h hp) (\<lambda>_. swap_inv jparse good hp h)) w"
  proof (rule wp_mono [OF restore_inv [OF None c(2,1,3) assms(2)]])
    fix ok w'
    assume w': "swap_inv jparse good hp h w' \<and> content w' hp = content w hp \<and>
      (ok \<longrightarrow> content w' (targetNro h) = Some c)"
    show "(if \<not> ok then swap_inv jparse good hp h
        else wp_io (cleanUp h hp) (\<lambda>_. swap_inv jparse good hp h)) w'"
      using w' cleanUp_inv [of w' h c good hp jparse] c assms(2) carries_cong [of w' hp w]
      by (cases ok) simp_all
  qed
  with None c(2) show ?thesis unfolding rollBack_def wp by simp
qed

lemma wp_case_RecoveryAction:
  "wp_io (case x of Nothing \<Rightarrow> a | ProceedWithSwap \<Rightarrow> b | RetrySwap \<Rightarrow> c | RollBack \<Rightarrow> d
     | RestoreBackup \<Rightarrow> e | InstallStaged \<Rightarrow> f | Unrecoverable \<Rightarrow> g) Q =
   (case x of Nothing \<Rightarrow> wp_io a Q | ProceedWithSwap \<Rightarrow> wp_io b Q | RetrySwap \<Rightarrow> wp_io c Q
     | RollBack \<Rightarrow> wp_io d Q | RestoreBackup \<Rightarrow> wp_io e Q | InstallStaged \<Rightarrow> wp_io f Q
     | Unrecoverable \<Rightarrow> wp_io g Q)"
  by (cases x) simp_all

lemma runSwap_parsed:
  assumes "content w hp = Some raw" and "parseHandoff jparse raw = Inr h"
  defines "present \<equiv> \<lparr>has_handoff = True, has_staged = content w (stagedNro h) \<noteq> None,
      has_target = content w (targetNro h) \<noteq> None, has_backup = content w (backupNro h) \<noteq> None\<rparr>"
  shows "wp_io (runSwap jparse jdump hp) Q w =
    (case recovery (decideRecovery (Some h) present) of
       Nothing \<Rightarrow> Q \<lparr>swap_result = NothingToDo,
         swap_detail = recovery_reason (decideRecovery (Some h) present)\<rparr> w
     | Unrecoverable \<Rightarrow> Q \<lparr>swap_result = SwapUnrecoverable,
         swap_detail = recovery_reason (decideRecovery (Some h) present)\<rparr> w
     | RollBack \<Rightarrow> wp_io (rollBack h hp (recovery_reason (decideRecovery (Some h) present))) Q w
     | RestoreBackup \<Rightarrow> wp_io (renameOver (backupNro h) (targetNro h)) (\<lambda>ok.
         if \<not> ok then Q \<lparr>swap_result = IoFailed, swap_detail = ''could not restore the backup''\<rparr>
         else wp_io (cleanUp h hp) (\<lambda>_. Q \<lparr>swap_result = Restored,
                swap_detail = recovery_reason (decideRecovery (Some h) present)\<rparr>)) w
     | _ \<Rightarrow> wp_io (performSwap jdump h hp) Q w)"
proof -
  have some: "(Some raw = None) = False" by simp
  show ?thesis
    unfolding runSwap_def wp assms(1,2) option.case map_sum.simps sum.case Let_def present_def some
      not_False_eq_True wp_case_RecoveryAction
    by (cases "recovery (decideRecovery (Some h) \<lparr>has_handoff = True,
        has_staged = content w (stagedNro h) \<noteq> None, has_target = content w (targetNro h) \<noteq> None,
        has_backup = content w (backupNro h) \<noteq> None\<rparr>)")
      (simp_all only: RecoveryAction.case)
qed

lemma runSwap_absent:
  "content w hp = None \<Longrightarrow>
   wp_io (runSwap jparse jdump hp) Q w =
     Q \<lparr>swap_result = SwapUnrecoverable,
        swap_detail = ''the application is missing and there is nothing to restore''\<rparr> w"
  by (simp add: runSwap_def wp decideRecovery_def)

lemma runSwap_inv:
  assumes inv: "swap_inv jparse good hp h w" and ap: "apart hp h" and json: "json_faithful jparse jdump h"
    and trusted: "digest_trusted good h"
  shows "wp_io (runSwap jparse jdump hp) (\<lambda>_. swap_inv jparse good hp h) w"
proof (cases "content w hp")
  case None
  then show ?thesis using inv by (simp add: runSwap_absent)
next
  case (Some raw)
  with inv obtain a where parsed: "parseHandoff jparse raw = Inr (h\<lparr>attempts := a\<rparr>)"
    by (auto simp: swap_inv_def carries_def)
  let ?h = "h\<lparr>attempts := a\<rparr>"
  let ?present = "\<lparr>has_handoff = True, has_staged = content w (stagedNro ?h) \<noteq> None,
      has_target = content w (targetNro ?h) \<noteq> None, has_backup = content w (backupNro ?h) \<noteq> None\<rparr>"
  let ?d = "decideRecovery (Some ?h) ?present"
  have wf: "wf_handoff ?h" by (rule parseHandoff_wf [OF parsed])
  have inv': "swap_inv jparse good hp ?h w" using inv by simp
  have carries: "carries jparse hp ?h w" using Some parsed by (auto simp: carries_def)
  have safe: "app_safe jparse good hp ?h w" using inv by (simp add: swap_inv_def)
  have action: "recovery ?d =
     (if attemptsExhausted ?h then
        (if content w (backupNro ?h) \<noteq> None \<or> content w (targetNro ?h) \<noteq> None then RollBack
         else if content w (stagedNro ?h) \<noteq> None then InstallStaged else Unrecoverable)
      else if content w (targetNro ?h) = None then
        (if content w (backupNro ?h) \<noteq> None then RestoreBackup
         else if content w (stagedNro ?h) \<noteq> None then InstallStaged else Unrecoverable)
      else if content w (stagedNro ?h) = None then Unrecoverable
      else if attempts ?h = 0 then ProceedWithSwap else RetrySwap)"
    by (subst decideRecovery_action) simp_all
  have swap: "wp_io (performSwap jdump ?h hp) (\<lambda>_. swap_inv jparse good hp ?h) w"
    if "recovery ?d \<in> {ProceedWithSwap, RetrySwap, InstallStaged}"
  proof -
    have "content w (targetNro ?h) \<noteq> None \<and> \<not> attemptsExhausted ?h \<or>
        content w (targetNro ?h) = None \<and> content w (backupNro ?h) = None"
      using that unfolding action by (simp split: if_splits)
    with safe obtain c where "content w (targetNro ?h) = Some c" "c \<in> good" "attempts ?h < maxAttempts ?h"
      by (auto simp: app_safe_def attemptsExhausted_def)
    then show ?thesis
      using performSwap_inv [of w ?h c good jparse hp jdump] carries ap json wf trusted by simp
  qed
  have restore: "wp_io (renameOver (backupNro ?h) (targetNro ?h)) (\<lambda>ok.
         if \<not> ok then swap_inv jparse good hp ?h
         else wp_io (cleanUp ?h hp) (\<lambda>_. swap_inv jparse good hp ?h)) w"
    if "recovery ?d = RestoreBackup"
  proof -
    have "content w (targetNro ?h) = None" using that unfolding action by (simp split: if_splits)
    with safe obtain c where c: "content w (targetNro ?h) = None" "content w (backupNro ?h) = Some c" "c \<in> good"
      by (auto simp: app_safe_def)
    show ?thesis
    proof (rule wp_mono [OF restore_inv [OF c carries]])
      show "apart hp ?h" using ap by simp
      fix ok w'
      assume w': "swap_inv jparse good hp ?h w' \<and> content w' hp = content w hp \<and>
        (ok \<longrightarrow> content w' (targetNro ?h) = Some c)"
      show "(if \<not> ok then swap_inv jparse good hp ?h
          else wp_io (cleanUp ?h hp) (\<lambda>_. swap_inv jparse good hp ?h)) w'"
        using w' cleanUp_inv [of w' ?h c good hp jparse] c ap carries carries_cong [of w' hp w]
        by (cases ok) simp_all
    qed
  qed
  show ?thesis
    using swap restore rollBack_inv [OF inv', of "recovery_reason ?d"] inv ap
    unfolding runSwap_parsed [OF Some parsed]
    by (cases "recovery ?d") (simp_all cong del: if_weak_cong)
qed

section \<open>Boots\<close>

text \<open>The forwarder is started again and again, each time with file operations that may fail or be cut
  short in their own way.\<close>

inductive boots :: "(string \<Rightarrow> json option) \<Rightarrow> (json \<Rightarrow> string) \<Rightarrow> string \<Rightarrow> sd \<Rightarrow> sd \<Rightarrow> bool"
  for jparse jdump hp where
  none: "boots jparse jdump hp w w"
| again: "boots jparse jdump hp w w' \<Longrightarrow>
    run_state (runSwap jparse jdump hp) (w'\<lparr>fate := f, tick := n\<rparr>) = (out, w'') \<Longrightarrow>
    boots jparse jdump hp w w''"

lemma content_fate [simp]: "content (w\<lparr>fate := f, tick := n\<rparr>) = content w"
  by (simp add: content_def [abs_def])

lemma swap_inv_fate [simp]:
  "swap_inv jparse good hp h (w\<lparr>fate := f, tick := n\<rparr>) = swap_inv jparse good hp h w"
  by (rule swap_inv_cong) simp_all

lemma boots_inv:
  assumes "boots jparse jdump hp w w'" and "swap_inv jparse good hp h w" and "apart hp h"
    and "json_faithful jparse jdump h" and "digest_trusted good h"
  shows "swap_inv jparse good hp h w'"
  using assms
proof (induction rule: boots.induct)
  case (again w w' n f out w'')
  then have "wp_io (runSwap jparse jdump hp) (\<lambda>_. swap_inv jparse good hp h) (w'\<lparr>fate := f, tick := n\<rparr>)"
    by (intro runSwap_inv) simp_all
  with again(2) show ?case by (simp add: wp_io_def)
qed

section \<open>A boot without faults\<close>

text \<open>A path at which a file can be created.\<close>

definition hosts :: "sd \<Rightarrow> string \<Rightarrow> bool" where
  "hosts w p = (dir_exists w (parent_dir p) \<and> p \<notin> set (dirs w))"

lemma hosts_env: "same_env w w' \<Longrightarrow> hosts w' = hosts w"
  by (simp add: hosts_def [abs_def] same_env_def dir_exists_def)

lemma wp_renameOver_calm:
  assumes "calm w" and "from \<noteq> to" and "hosts w to" and "content w from = Some data"
    and "\<And>w'. same_env w w' \<Longrightarrow> content w' = (content w)(from := None, to \<mapsto> data) \<Longrightarrow> Q True w'"
  shows "wp_io (renameOver from to) Q w"
  unfolding renameOver_def wp
proof (rule wp_remove_calm [OF assms(1)])
  fix w1 assume w1: "same_env w w1" "content w1 = (content w)(to := None)"
  show "wp_io (c_rename from to) Q w1"
  proof (rule wp_rename_calm [where data = data])
    show "calm w1" using calm_env [OF w1(1)] assms(1) by simp
    show "to \<notin> set (dirs w1)" "dir_exists w1 (parent_dir to)"
      using w1(1) assms(3) by (simp_all add: hosts_def same_env_def dir_exists_def)
    show "content w1 from = Some data" "content w1 to = None" using w1(2) assms(2,4) by simp_all
    fix w2 assume "same_env w1 w2" "content w2 = (content w1)(from := None, to \<mapsto> data)"
    then show "Q True w2"
      using w1 assms(2) by (intro assms(5)) (auto intro: same_env_trans simp: fun_eq_iff)
  qed
qed

lemma wp_cleanUp_calm:
  assumes "calm w"
    and "\<And>w'. same_env w w' \<Longrightarrow> content w' = (content w)(backupNro h := None, stagedNro h := None, hp := None) \<Longrightarrow>
      Q () w'"
  shows "wp_io (cleanUp h hp) Q w"
  unfolding cleanUp_def wp
proof (rule wp_remove_calm [OF assms(1)], goal_cases)
  case (1 w1)
  then show ?case
    using assms(1) calm_env [OF 1(1)]
    by (intro wp_remove_calm; auto intro!: assms(2) intro: same_env_trans simp: calm_env)
qed

lemma wp_writeFileAtomic_calm:
  assumes "calm w" and "hosts w p" and "hosts w (p @ ''.tmp'')"
    and "\<And>w'. same_env w w' \<Longrightarrow> content w' = (content w)(p @ ''.tmp'' := None, p \<mapsto> data) \<Longrightarrow> Q True w'"
  shows "wp_io (writeFileAtomic p data) Q w"
  unfolding writeFileAtomic_def Let_def wp
proof (rule wp_write_calm [OF assms(1)])
  show "p @ ''.tmp'' \<notin> set (dirs w)" "dir_exists w (parent_dir (p @ ''.tmp''))"
    using assms(3) by (simp_all add: hosts_def)
  fix w1 assume w1: "same_env w w1" "content w1 = (content w)(p @ ''.tmp'' \<mapsto> data)"
  have calm: "calm w1" and host: "hosts w1 p" and tmp: "content w1 (p @ ''.tmp'') = Some data"
    using calm_env [OF w1(1)] hosts_env [OF w1(1)] assms w1(2) by simp_all
  have "wp_io (renameOver (p @ ''.tmp'') p)
      (\<lambda>a. if \<not> a then wp_io (c_remove (p @ ''.tmp'')) (\<lambda>_. Q False) else Q True) w1"
    by (rule wp_renameOver_calm [OF calm _ host tmp])
      (use w1 in \<open>auto intro!: assms(4) intro: same_env_trans simp: fun_eq_iff\<close>)
  then show "(case Written of NotOpened \<Rightarrow> Q False
      | Short \<Rightarrow> wp_io (c_remove (p @ ''.tmp'')) (\<lambda>_. Q False)
      | Written \<Rightarrow> wp_io (c_remove p) (\<lambda>_. wp_io (c_rename (p @ ''.tmp'') p)
          (\<lambda>a. if \<not> a then wp_io (c_remove (p @ ''.tmp'')) (\<lambda>_. Q False) else Q True))) w1"
    by (simp add: renameOver_def wp cong del: if_weak_cong)
qed

lemma wp_copyFile_calm:
  assumes "calm w" and "from \<noteq> to" and "hosts w to" and "content w from = Some data"
    and "\<And>w'. same_env w w' \<Longrightarrow> content w' = (content w)(to \<mapsto> data) \<Longrightarrow> Q True w'"
  shows "wp_io (copyFile from to) Q w"
  unfolding copyFile_def wp assms(4) option.case
  by (rule wp_write_calm) (use assms in \<open>auto simp: hosts_def wp\<close>)

text \<open>Without faults the target is never left missing.\<close>

lemma apart_target:
  assumes "apart hp h"
  shows "targetNro h \<noteq> hp" "targetNro h \<noteq> hp @ ''.tmp''" "targetNro h \<noteq> stagedNro h" "targetNro h \<noteq> backupNro h"
  using assms by (auto simp: apart_def)

lemma cleanUp_keeps:
  assumes "apart hp h" and "content w (targetNro h) \<noteq> None"
  shows "wp_io (cleanUp h hp) (\<lambda>_ w'. content w' (targetNro h) \<noteq> None) w"
  by (rule wp_cleanUp, subst frameD, assumption) (use assms apart_target in auto)

lemma remove_keeps:
  assumes "p \<noteq> t" and "content w t \<noteq> None"
  shows "wp_io (c_remove p) (\<lambda>_ w'. content w' t \<noteq> None) w"
  by (rule wp_remove) (use assms in auto)

lemma confirmInstalled_keeps:
  assumes "calm w" and "apart hp h" and "hosts w (targetNro h)" and "content w (targetNro h) \<noteq> None"
  shows "wp_io (confirmInstalled h hp) (\<lambda>_ w'. content w' (targetNro h) \<noteq> None) w"
proof (cases "content w (backupNro h)")
  case None
  then show ?thesis
    using cleanUp_keeps [OF assms(2,4)] assms(4) unfolding confirmInstalled_def wp by simp
next
  case (Some c)
  have "wp_io (renameOver (backupNro h) (targetNro h)) (\<lambda>_ w'. content w' (targetNro h) \<noteq> None) w"
    by (rule wp_renameOver_calm [OF assms(1) _ assms(3) Some]) (use apart_target [OF assms(2)] in auto)
  then show ?thesis
    using Some cleanUp_keeps [OF assms(2,4)] unfolding confirmInstalled_def wp by simp
qed

lemma land_calm:
  assumes "calm w" and "hosts w (targetNro h)" and "content w (targetNro h @ ''.new'') = Some d"
    and "\<And>w'. same_env w w' \<Longrightarrow>
      content w' = (content w)(targetNro h @ ''.new'' := None, targetNro h \<mapsto> d) \<Longrightarrow>
      wp_io (confirmInstalled h hp) Q w'"
  shows "wp_io (land h hp) Q w"
  unfolding land_def wp
  by (rule wp_renameOver_calm [OF assms(1) _ assms(2,3)]) (use assms(4) in auto)

lemma land_keeps:
  assumes "calm w" and "apart hp h" and "hosts w (targetNro h)"
    and "content w (targetNro h @ ''.new'') = Some d"
  shows "wp_io (land h hp) (\<lambda>_ w'. content w' (targetNro h) \<noteq> None) w"
  by (rule land_calm [OF assms(1,3,4)], rule confirmInstalled_keeps)
    (use assms in \<open>auto simp: calm_env hosts_env\<close>)

lemma placeIncoming_keeps:
  assumes "calm w" and "apart hp h" and "hosts w (targetNro h)" and "content w (targetNro h) \<noteq> None"
    and "content w (targetNro h @ ''.new'') = Some d"
  shows "wp_io (placeIncoming h hp) (\<lambda>_ w'. content w' (targetNro h) \<noteq> None) w"
proof -
  have "wp_io (renameOver (targetNro h) (backupNro h))
      (\<lambda>aside. if \<not> aside then wp_io (c_remove (targetNro h @ ''.new'')) (\<lambda>_ w'. content w' (targetNro h) \<noteq> None)
        else wp_io (land h hp) (\<lambda>_ w'. content w' (targetNro h) \<noteq> None)) w"
  proof (rule wp_renameOver, goal_cases)
    case 1
    show ?case by (rule apart_target [OF assms(2)])
  next
    case (2 w')
    then have "content w' (targetNro h) \<noteq> None" using assms(4) apart_target [OF assms(2)] by auto
    then show ?case by (simp add: remove_keeps del: not_None_eq)
  next
    case (3 w' c)
    have "content w' (targetNro h @ ''.new'') = Some d" using 3(3) assms(2,5) by (auto simp: apart_def)
    then have "wp_io (land h hp) (\<lambda>_ w'. content w' (targetNro h) \<noteq> None) w'"
      using calm_env [OF 3(1)] hosts_env [OF 3(1)] assms(1-3) by (intro land_keeps) simp_all
    then show ?case by simp
  qed
  then show ?thesis using assms(4) unfolding placeIncoming_eq wp by simp
qed

lemma performSwap_keeps:
  assumes "calm w" and "apart hp h" and "hosts w (targetNro h)" and "content w (targetNro h) \<noteq> None"
  shows "wp_io (performSwap jdump h hp) (\<lambda>_ w'. content w' (targetNro h) \<noteq> None) w"
  unfolding performSwap_def Let_def wp
proof (rule wp_writeFileAtomic, goal_cases)
  case (2 w1)
  then show ?case
    using frameD [OF 2(1), of "targetNro h"] apart_target [OF assms(2)] assms(4) by (simp add: wp)
next
  case (1 w1)
  let ?h = "h\<lparr>attempts := attempts h + 1\<rparr>"
  have env: "same_env w w1" using 1(1) by (simp add: frame_def)
  have t: "content w1 (targetNro h) \<noteq> None"
    using frameD [OF 1(1), of "targetNro h"] apart_target [OF assms(2)] assms(4) by simp
  have "wp_io (copyFile (stagedNro h) (targetNro h @ ''.new''))
      (\<lambda>copied. if \<not> copied
         then wp_io (c_remove (targetNro h @ ''.new'')) (\<lambda>_ w'. content w' (targetNro h) \<noteq> None)
         else wp_io (placeIncoming ?h hp) (\<lambda>_ w'. content w' (targetNro h) \<noteq> None)) w1"
  proof (rule wp_copyFile, goal_cases)
    case 1
    show ?case using assms(2) by (auto simp: apart_def)
  next
    case (2 w2)
    then show ?case using frameD [OF 2, of "targetNro h"] t by (simp add: remove_keeps del: not_None_eq)
  next
    case (3 w2 d)
    have env2: "same_env w w2" using env 3(1) by (auto simp: frame_def intro: same_env_trans)
    have "wp_io (placeIncoming ?h hp) (\<lambda>_ w'. content w' (targetNro ?h) \<noteq> None) w2"
      by (rule placeIncoming_keeps [where d = d])
        (use calm_env [OF env2] hosts_env [OF env2] frameD [OF 3(1), of "targetNro h"] t 3 assms in simp_all)
    then show ?case by simp
  qed
  then show ?case using t unfolding wp
    by (simp split: option.split cong del: if_weak_cong)
qed

lemma restoring_calm:
  assumes "calm w" and "apart hp h" and "hosts w (targetNro h)" and "content w (backupNro h) = Some c"
    and "\<And>w'. same_env w w' \<Longrightarrow> content w' = (content w)(targetNro h \<mapsto> c, backupNro h := None) \<Longrightarrow> Q True w'"
  shows "wp_io (renameOver (backupNro h) (targetNro h)) Q w"
  by (rule wp_renameOver_calm [OF assms(1) _ assms(3,4)])
    (use apart_target [OF assms(2)] assms(5) in \<open>auto simp: fun_upd_twist\<close>)

lemma rollBack_calm:
  assumes "calm w" and "apart hp h" and "hosts w (targetNro h)"
    and "content w (targetNro h) \<noteq> None \<or> content w (backupNro h) \<noteq> None"
  shows "wp_io (rollBack h hp why)
    (\<lambda>out w'. swap_result out = RolledBack \<and> content w' (targetNro h) =
        (if content w (targetNro h) = None then content w (backupNro h) else content w (targetNro h)) \<and>
      content w' hp = None) w"
proof (cases "content w (targetNro h)")
  case (Some c)
  have "wp_io (cleanUp h hp) (\<lambda>_ w'. content w' (targetNro h) = Some c \<and> content w' hp = None) w"
    by (rule wp_cleanUp_calm [OF assms(1)]) (use Some apart_target [OF assms(2)] in simp)
  with Some show ?thesis unfolding rollBack_def wp by simp
next
  case None
  with assms(4) obtain c where c: "content w (backupNro h) = Some c" by auto
  have "wp_io (renameOver (backupNro h) (targetNro h)) (\<lambda>restored. if \<not> restored then (\<lambda>_. False) else
      wp_io (cleanUp h hp) (\<lambda>_ w'. content w' (targetNro h) = Some c \<and> content w' hp = None)) w"
  proof (rule restoring_calm [OF assms(1,2,3) c])
    fix w1 assume w1: "same_env w w1" "content w1 = (content w)(targetNro h \<mapsto> c, backupNro h := None)"
    have "wp_io (cleanUp h hp) (\<lambda>_ w'. content w' (targetNro h) = Some c \<and> content w' hp = None) w1"
      by (rule wp_cleanUp_calm)
        (use w1 calm_env [OF w1(1)] assms(1) apart_target [OF assms(2)] in simp_all)
    then show "(if \<not> True then (\<lambda>_. False) else
      wp_io (cleanUp h hp) (\<lambda>_ w'. content w' (targetNro h) = Some c \<and> content w' hp = None)) w1" by simp
  qed
  then show ?thesis using None c unfolding rollBack_def wp
    by (simp cong del: if_weak_cong)
qed

lemma runSwap_keeps:
  assumes "calm w" and "apart hp h" and "hosts w (targetNro h)" and "swap_inv jparse good hp h w"
  shows "wp_io (runSwap jparse jdump hp) (\<lambda>_ w'. content w' (targetNro h) \<noteq> None) w"
proof (cases "content w hp")
  case None
  with assms(4) show ?thesis
    by (simp add: runSwap_absent) (auto simp: swap_inv_def app_safe_def carries_def)
next
  case (Some raw)
  with assms(4) obtain a where parsed: "parseHandoff jparse raw = Inr (h\<lparr>attempts := a\<rparr>)"
    by (auto simp: swap_inv_def carries_def)
  let ?h = "h\<lparr>attempts := a\<rparr>"
  let ?present = "\<lparr>has_handoff = True, has_staged = content w (stagedNro ?h) \<noteq> None,
      has_target = content w (targetNro ?h) \<noteq> None, has_backup = content w (backupNro ?h) \<noteq> None\<rparr>"
  let ?Q = "\<lambda>_ w'. content w' (targetNro h) \<noteq> None"
  have calm: "calm w" and ap: "apart hp ?h" and host: "hosts w (targetNro ?h)" using assms by simp_all
  have there: "content w (targetNro h) \<noteq> None \<or> content w (backupNro h) \<noteq> None"
    using assms(4) by (auto simp: swap_inv_def app_safe_def)
  have rolled: "wp_io (rollBack ?h hp why) ?Q w" for why
    by (rule wp_mono [OF rollBack_calm [OF calm ap host]]) (use there in \<open>auto split: if_splits\<close>)
  show ?thesis
  proof (cases "content w (targetNro h)")
    case None
    with there obtain c where c: "content w (backupNro ?h) = Some c" by auto
    have "wp_io (renameOver (backupNro ?h) (targetNro ?h)) (\<lambda>ok. if \<not> ok then ?Q () else
        wp_io (cleanUp ?h hp) (\<lambda>_. ?Q ())) w"
      by (rule restoring_calm [OF calm ap host c])
        (use cleanUp_keeps [OF ap] apart_target [OF assms(2)] in simp)
    with None c rolled show ?thesis unfolding runSwap_parsed [OF Some parsed]
      by (simp add: decideRecovery_action cong del: if_weak_cong)
  next
    case (Some t)
    then show ?thesis
      using performSwap_keeps [OF calm ap host] rolled unfolding runSwap_parsed [OF \<open>content w hp = _\<close> parsed]
      by (cases "a = 0") (simp_all add: decideRecovery_action cong del: if_weak_cong)
  qed
qed

section \<open>A successful installation\<close>

text \<open>The card after the new version was put in place.\<close>

definition installed_card ::
  "Handoff \<Rightarrow> string \<Rightarrow> string \<Rightarrow> (string \<Rightarrow> string option) \<Rightarrow> string \<Rightarrow> string option" where
  "installed_card h hp d f =
     f(hp @ ''.tmp'' := None, targetNro h @ ''.new'' := None, backupNro h := None, stagedNro h := None,
       hp := None, targetNro h \<mapsto> d)"

text \<open>Every path the swap creates a file at can hold one.\<close>

definition writable :: "Handoff \<Rightarrow> string \<Rightarrow> sd \<Rightarrow> bool" where
  "writable h hp w =
     (hosts w hp \<and> hosts w (hp @ ''.tmp'') \<and> hosts w (targetNro h) \<and> hosts w (targetNro h @ ''.new'') \<and>
      hosts w (backupNro h))"

lemma writable_env: "same_env w w' \<Longrightarrow> writable h hp w' = writable h hp w"
  by (simp add: writable_def hosts_env)

lemma writable_attempts [simp]: "writable (h\<lparr>attempts := a\<rparr>) hp = writable h hp"
  by (simp add: writable_def [abs_def])

lemma confirmInstalled_calm:
  assumes "calm w" and "content w (targetNro h) = Some d" and "sha256_spec (bytes_of d) = stagedSha256 h"
    and "\<And>w' out. content w' = (content w)(backupNro h := None, stagedNro h := None, hp := None) \<Longrightarrow>
      swap_result out = Installed \<Longrightarrow> Q out w'"
  shows "wp_io (confirmInstalled h hp) Q w"
proof -
  have "digestsEqual (stagedSha256 h) (stagedSha256 h)"
    using digestsEqual_iff [of "stagedSha256 h" "stagedSha256 h"] assms(3) length_sha256_spec by metis
  moreover have "wp_io (cleanUp h hp)
      (\<lambda>_. Q \<lparr>swap_result = Installed, swap_detail = ''updated to '' @ toVersion h\<rparr>) w"
    by (rule wp_cleanUp_calm [OF assms(1)]) (simp add: assms(4))
  ultimately show ?thesis using assms(2,3) unfolding confirmInstalled_def wp by simp
qed

lemma placeIncoming_calm:
  assumes "calm w" and "apart hp h" and "writable h hp w" and "content w (targetNro h) = Some c"
    and "content w (targetNro h @ ''.new'') = Some d" and "sha256_spec (bytes_of d) = stagedSha256 h"
    and "\<And>w' out. content w' = (content w)(targetNro h @ ''.new'' := None, backupNro h := None,
        stagedNro h := None, hp := None, targetNro h \<mapsto> d) \<Longrightarrow> swap_result out = Installed \<Longrightarrow> Q out w'"
  shows "wp_io (placeIncoming h hp) Q w"
proof -
  have hosts: "hosts w (targetNro h)" "hosts w (backupNro h)" using assms(3) by (simp_all add: writable_def)
  have "wp_io (renameOver (targetNro h) (backupNro h))
      (\<lambda>aside. if \<not> aside then (\<lambda>_. False) else wp_io (land h hp) Q) w"
  proof (rule wp_renameOver_calm [OF assms(1) _ hosts(2) assms(4)])
    show "targetNro h \<noteq> backupNro h" by (rule apart_target [OF assms(2)])
    fix w1 assume w1: "same_env w w1" "content w1 = (content w)(targetNro h := None, backupNro h \<mapsto> c)"
    have "wp_io (land h hp) Q w1"
    proof (rule land_calm)
      show "calm w1" "hosts w1 (targetNro h)"
        using calm_env [OF w1(1)] hosts_env [OF w1(1)] assms(1) hosts by simp_all
      show "content w1 (targetNro h @ ''.new'') = Some d" using w1(2) assms(2,5) by (auto simp: apart_def)
      fix w2 assume w2: "same_env w1 w2"
        "content w2 = (content w1)(targetNro h @ ''.new'' := None, targetNro h \<mapsto> d)"
      show "wp_io (confirmInstalled h hp) Q w2"
      proof (rule confirmInstalled_calm [OF _ _ assms(6)])
        show "calm w2" using calm_env [OF w2(1)] calm_env [OF w1(1)] assms(1) by simp
        show "content w2 (targetNro h) = Some d" using w2(2) by simp
        fix w' and out :: SwapOutcome
        assume "content w' = (content w2)(backupNro h := None, stagedNro h := None, hp := None)"
          and out: "swap_result out = Installed"
        then have "content w' = (content w)(targetNro h @ ''.new'' := None, backupNro h := None,
            stagedNro h := None, hp := None, targetNro h \<mapsto> d)"
          using w1(2) w2(2) apart_target [OF assms(2)] by (simp add: fun_eq_iff)
        then show "Q out w'" using out by (rule assms(7))
      qed
    qed
    then show "(if \<not> True then (\<lambda>_. False) else wp_io (land h hp) Q) w1" by simp
  qed
  then have "wp_io (renameOver (targetNro h) (backupNro h))
      (\<lambda>aside. if \<not> aside then wp_io (c_remove (targetNro h @ ''.new''))
          (\<lambda>_. Q \<lparr>swap_result = IoFailed, swap_detail = ''could not move the current version aside''\<rparr>)
        else wp_io (land h hp) Q) w"
    by (rule wp_mono) (simp split: if_splits)
  then show ?thesis using assms(4) unfolding placeIncoming_eq wp by simp
qed

lemma performSwap_calm:
  assumes "calm w" and "apart hp h" and "writable h hp w" and "content w (targetNro h) = Some c"
    and "content w (stagedNro h) = Some d" and "sha256_spec (bytes_of d) = stagedSha256 h"
    and "\<And>w' out. content w' = installed_card h hp d (content w) \<Longrightarrow> swap_result out = Installed \<Longrightarrow> Q out w'"
  shows "wp_io (performSwap jdump h hp) Q w"
  unfolding performSwap_def Let_def wp
proof (rule wp_writeFileAtomic_calm [OF assms(1)], goal_cases)
  case (3 w1)
  let ?h = "h\<lparr>attempts := attempts h + 1\<rparr>" and ?new = "targetNro h @ ''.new''"
  have calm: "calm w1" and able: "writable h hp w1"
    using calm_env [OF 3(1)] writable_env [OF 3(1)] assms(1,3) by simp_all
  have files: "content w1 (targetNro h) = Some c" "content w1 (stagedNro h) = Some d" "stagedNro h \<noteq> ?new"
    using 3(2) assms(2,4,5) by (auto simp: apart_def)
  have host: "hosts w1 ?new" using able by (simp add: writable_def)
  have dig: "digestsEqual (stagedSha256 h) (stagedSha256 h)"
    using digestsEqual_iff [of "stagedSha256 h" "stagedSha256 h"] assms(6) length_sha256_spec by metis
  have "wp_io (copyFile (stagedNro h) ?new)
      (\<lambda>copied. if \<not> copied then (\<lambda>_. False) else wp_io (placeIncoming ?h hp) Q) w1"
  proof (rule wp_copyFile_calm [OF calm files(3) host files(2)])
    fix w2 assume w2: "same_env w1 w2" "content w2 = (content w1)(?new \<mapsto> d)"
    have "wp_io (placeIncoming ?h hp) Q w2"
    proof (rule placeIncoming_calm [where c = c and d = d])
      show "calm w2" using calm_env [OF w2(1)] calm by simp
      show "writable ?h hp w2" using writable_env [OF w2(1)] able by simp
      fix w' and out :: SwapOutcome
      assume "content w' = (content w2)(targetNro ?h @ ''.new'' := None, backupNro ?h := None,
          stagedNro ?h := None, hp := None, targetNro ?h \<mapsto> d)" and out: "swap_result out = Installed"
      then have "content w' = installed_card h hp d (content w)"
        using 3(2) w2(2) by (simp add: installed_card_def fun_eq_iff)
      then show "Q out w'" using out by (rule assms(7))
    qed (use w2 files assms in \<open>auto simp: apart_def\<close>)
    then show "(if \<not> True then (\<lambda>_. False) else wp_io (placeIncoming ?h hp) Q) w2" by simp
  qed
  then have "wp_io (copyFile (stagedNro h) ?new)
      (\<lambda>copied. if \<not> copied then wp_io (c_remove ?new) (\<lambda>_. Q \<lparr>swap_result = IoFailed,
          swap_detail = ''could not stage the new binary next to the target''\<rparr>)
        else wp_io (placeIncoming ?h hp) Q) w1"
    by (rule wp_mono) (simp split: if_splits)
  then show ?case using files dig assms(6) unfolding wp by (simp cong del: if_weak_cong)
qed (use assms(3) in \<open>simp_all add: writable_def\<close>)

lemma runSwap_performs:
  assumes "content w hp = Some raw" and "parseHandoff jparse raw = Inr h" and "\<not> attemptsExhausted h"
    and "content w (targetNro h) \<noteq> None" and "content w (stagedNro h) \<noteq> None"
  shows "wp_io (runSwap jparse jdump hp) Q w = wp_io (performSwap jdump h hp) Q w"
  using assms(3-5) unfolding runSwap_parsed [OF assms(1,2)]
  by (cases "attempts h = 0") (simp_all add: decideRecovery_action)

section \<open>Repeated boots\<close>

text \<open>No operation changes the directories or the fate.\<close>

definition keeps_env :: "'a io \<Rightarrow> bool" where
  "keeps_env m = (\<forall>w. same_env w (snd (run_state m w)))"

lemma keeps_env_return: "keeps_env (State_Monad.return a)"
  by (simp add: keeps_env_def State_Monad.return_def)

lemma keeps_env_bind: "keeps_env m \<Longrightarrow> (\<And>a. keeps_env (f a)) \<Longrightarrow> keeps_env (State_Monad.bind m f)"
  by (simp add: keeps_env_def State_Monad.bind_def split: prod.splits) (metis same_env_trans snd_conv)

lemma keeps_env_if: "keeps_env m \<Longrightarrow> keeps_env n \<Longrightarrow> keeps_env (if b then m else n)"
  by simp

lemma keeps_env_option: "keeps_env m \<Longrightarrow> (\<And>y. keeps_env (f y)) \<Longrightarrow> keeps_env (case x of None \<Rightarrow> m | Some y \<Rightarrow> f y)"
  by (cases x) simp_all

lemma keeps_env_calls:
  "keeps_env (c_read p)" "keeps_env (c_exists p)" "keeps_env (c_write p d)" "keeps_env (c_remove p)"
  "keeps_env (c_rename p q)"
  by (auto simp: keeps_env_def same_env_def c_read_def c_exists_def c_write_def c_remove_def c_rename_def
      Let_def split: outcome.splits option.splits)

lemmas keeps_env_rules = keeps_env_return keeps_env_bind keeps_env_if keeps_env_option keeps_env_calls

lemma keeps_env_helpers:
  "keeps_env (exists p)" "keeps_env (readFile p)" "keeps_env (hashFile p)" "keeps_env (renameOver p q)"
  "keeps_env (cleanUp h hp)" "keeps_env (swap_fail r d)" "keeps_env (copyFile p q)"
  "keeps_env (writeFileAtomic p d)"
  by (auto simp: exists_def readFile_def hashFile_def renameOver_def cleanUp_def swap_fail_def copyFile_def
      writeFileAtomic_def Let_def intro!: keeps_env_rules split: written.split)

lemma keeps_env_rollBack: "keeps_env (rollBack h hp why)"
  by (auto simp: rollBack_def intro!: keeps_env_rules keeps_env_helpers)

lemma keeps_env_performSwap: "keeps_env (performSwap jdump h hp)"
  by (auto simp: performSwap_def placeIncoming_def confirmInstalled_def Let_def
      intro!: keeps_env_rules keeps_env_helpers)

lemma keeps_env_runSwap: "keeps_env (runSwap jparse jdump hp)"
  by (auto simp: runSwap_def Let_def
      intro!: keeps_env_rules keeps_env_helpers keeps_env_rollBack keeps_env_performSwap
      split: sum.split option.split RecoveryAction.split)

lemma wp_keeps_env: "keeps_env m \<Longrightarrow> wp_io m Q w \<Longrightarrow> wp_io m (\<lambda>a w'. same_env w w' \<and> Q a w') w"
  by (auto simp: wp_result keeps_env_def)

lemma performSwap_mismatch_calm:
  assumes "calm w" and "apart hp h" and "writable h hp w" and "content w (stagedNro h) = Some d"
    and "sha256_spec (bytes_of d) \<noteq> stagedSha256 h" and "length (stagedSha256 h) = kDigestSize"
    and "\<And>w' out. content w' = (content w)(hp @ ''.tmp'' := None,
        hp \<mapsto> serializeHandoff jdump (h\<lparr>attempts := attempts h + 1\<rparr>)) \<Longrightarrow>
      swap_result out = DigestMismatch \<Longrightarrow> Q out w'"
  shows "wp_io (performSwap jdump h hp) Q w"
  unfolding performSwap_def Let_def wp
proof (rule wp_writeFileAtomic_calm [OF assms(1)], goal_cases)
  case (3 w1)
  have "content w1 (stagedNro h) = Some d" using 3(2) assms(2,4) by (auto simp: apart_def)
  moreover have "\<not> digestsEqual (sha256_spec (bytes_of d)) (stagedSha256 h)"
    using digestsEqual_iff assms(5,6) length_sha256_spec by simp
  ultimately show ?case using assms(7) [OF 3(2)] by (simp add: wp)
qed (use assms(3) in \<open>simp_all add: writable_def\<close>)

text \<open>Starting the forwarder \<open>n\<close> times.\<close>

primrec reboot :: "(string \<Rightarrow> json option) \<Rightarrow> (json \<Rightarrow> string) \<Rightarrow> string \<Rightarrow> nat \<Rightarrow> sd \<Rightarrow> sd" where
  "reboot jparse jdump hp 0 w = w"
| "reboot jparse jdump hp (Suc n) w =
     reboot jparse jdump hp n (snd (run_state (runSwap jparse jdump hp) w))"

lemma reboot_idle: "content w hp = None \<Longrightarrow> content (reboot jparse jdump hp n w) = content w"
proof (induction n arbitrary: w)
  case (Suc n)
  from runSwap_absent [OF Suc.prems, of jparse jdump "\<lambda>_ w'. w' = w"]
  have "snd (run_state (runSwap jparse jdump hp) w) = w" by (simp add: wp_result)
  with Suc show ?case by simp
qed simp

lemma reboot_finishes:
  assumes "calm w" and "apart hp h" and "writable h hp w" and "json_faithful jparse jdump h"
    and "content w hp = Some raw" and "parseHandoff jparse raw = Inr h"
    and "content w (targetNro h) = Some c" and "content w (stagedNro h) = Some d"
    and "n = nat (maxAttempts h - attempts h)"
  defines "w' \<equiv> reboot jparse jdump hp (Suc n) w"
  shows "content w' hp = None \<and> content w' (targetNro h) =
    Some (if sha256_spec (bytes_of d) = stagedSha256 h \<and> 0 < n then d else c)"
  using assms(1-9) unfolding w'_def
proof (induction n arbitrary: w h raw)
  case 0
  then have "attemptsExhausted h" by (simp add: attemptsExhausted_def)
  moreover have "hosts w (targetNro h)" using 0(3) by (simp add: writable_def)
  ultimately have "wp_io (runSwap jparse jdump hp)
      (\<lambda>_ w'. content w' hp = None \<and> content w' (targetNro h) = Some c) w"
    unfolding runSwap_parsed [OF 0(5,6)] using 0(7)
    by (simp add: decideRecovery_action)
      (rule wp_mono [OF rollBack_calm [OF 0(1,2)]]; simp)
  then show ?case by (simp add: wp_result)
next
  case (Suc n)
  let ?h = "h\<lparr>attempts := attempts h + 1\<rparr>" and ?w = "snd (run_state (runSwap jparse jdump hp) w)"
  have wf: "wf_handoff h" by (rule parseHandoff_wf [OF Suc.prems(6)])
  have some: "content w (targetNro h) \<noteq> None" "content w (stagedNro h) \<noteq> None" using Suc.prems by simp_all
  have budget: "attempts h < maxAttempts h" using Suc.prems(9) by simp
  then have more: "\<not> attemptsExhausted h" by (simp add: attemptsExhausted_def)
  have env: "same_env w ?w" using keeps_env_runSwap by (simp add: keeps_env_def)
  note go = runSwap_performs [OF Suc.prems(5,6) more some, of jdump]
  show ?case
  proof (cases "sha256_spec (bytes_of d) = stagedSha256 h")
    case True
    have "wp_io (performSwap jdump h hp) (\<lambda>_ w'. content w' = installed_card h hp d (content w)) w"
      by (rule performSwap_calm [OF Suc.prems(1-3,7,8) True])
    then have "content ?w = installed_card h hp d (content w)" unfolding go [symmetric] by (simp add: wp_result)
    then have "content ?w hp = None" "content ?w (targetNro h) = Some d"
      using apart_target [OF Suc.prems(2)] by (simp_all add: installed_card_def)
    with True show ?thesis
      using reboot_idle [of ?w hp jparse jdump "Suc n"] by simp
  next
    case False
    have "wp_io (performSwap jdump h hp)
      (\<lambda>_ w'. content w' = (content w)(hp @ ''.tmp'' := None, hp \<mapsto> serializeHandoff jdump ?h)) w"
      by (rule performSwap_mismatch_calm [OF Suc.prems(1-3,8) False])
        (use wf in \<open>simp_all add: wf_handoff_def\<close>)
    then have w1: "content ?w = (content w)(hp @ ''.tmp'' := None, hp \<mapsto> serializeHandoff jdump ?h)"
      unfolding go [symmetric] by (simp add: wp_result)
    have "reads_back jparse jdump (handoff_document ?h)" "wf_handoff ?h"
      using Suc.prems(4) wf budget by (simp_all add: json_faithful_def wf_handoff_def)
    then have parsed: "parseHandoff jparse (serializeHandoff jdump ?h) = Inr ?h"
      by (rule parseHandoff_roundtrip)
    have "content (reboot jparse jdump hp (Suc n) ?w) hp = None \<and>
      content (reboot jparse jdump hp (Suc n) ?w) (targetNro ?h) =
        Some (if sha256_spec (bytes_of d) = stagedSha256 ?h \<and> 0 < n then d else c)"
    proof (rule Suc.IH [OF _ _ _ _ _ parsed])
      show "calm ?w" "writable ?h hp ?w"
        using calm_env [OF env] writable_env [OF env] Suc.prems(1,3) by simp_all
      show "content ?w (targetNro ?h) = Some c" "content ?w (stagedNro ?h) = Some d"
        using w1 Suc.prems(2,7,8) by (auto simp: apart_def)
    qed (use w1 Suc.prems in simp_all)
    with False show ?thesis by simp
  qed
qed

lemma boots_dirs: "boots jparse jdump hp w w' \<Longrightarrow> dirs w' = dirs w"
proof (induction rule: boots.induct)
  case (again w w' n f out w'')
  have "same_env (w'\<lparr>fate := f, tick := n\<rparr>) w''"
    using keeps_env_runSwap [of jparse jdump hp] again(2) unfolding keeps_env_def by (metis snd_conv)
  with again(3) show ?case by (simp add: same_env_def)
qed simp

section \<open>An example card\<close>

text \<open>A printer and reader for the handoffs that differ in the attempt counter.\<close>

definition tally_dump :: "json \<Rightarrow> string" where
  "tally_dump doc = replicate (nat (get_int (field doc ''attempts''))) CHR ''x''"

definition tally_parse :: "Handoff \<Rightarrow> string \<Rightarrow> json option" where
  "tally_parse h s = Some (reread (handoff_document (h\<lparr>attempts := int (length s) - 1\<rparr>)))"

definition update_handoff :: Handoff where
  "update_handoff = sample_handoff\<lparr>stagedSha256 := sha256_spec (bytes_of ''new'')\<rparr>"

definition handoff_path :: string where
  "handoff_path = ''/config/nsx/handoff.json''"

definition update_card :: sd where
  "update_card =
     \<lparr>files = [(handoff_path, serializeHandoff tally_dump update_handoff),
               (stagedNro update_handoff, ''new''), (targetNro update_handoff, ''old'')],
      dirs = [''/config/nsx'', ''/config/nsx/staging'', ''/config/nsx/backup'', ''/switch/nsx''],
      fate = (\<lambda>_. Done), tick = 0\<rparr>"

lemma tally_faithful: "json_faithful (tally_parse h) tally_dump h"
proof -
  have "int32_range a" if "0 \<le> a" "a \<le> 1000" for a :: int using that by (simp add: int32_range_def)
  then show ?thesis
    by (auto simp: json_faithful_def reads_back_def tally_parse_def tally_dump_def field_def
        handoff_document_def)
qed

lemma update_handoff_fields:
  "attempts update_handoff = 0" "maxAttempts update_handoff = 3"
  "sha256_spec (bytes_of ''new'') = stagedSha256 update_handoff"
  by (simp_all add: update_handoff_def sample_handoff_def)

lemma update_handoff_wf: "wf_handoff update_handoff"
  using sample_handoff_wf by (simp add: wf_handoff_def update_handoff_def length_sha256_spec)

lemma update_handoff_apart: "apart handoff_path update_handoff"
  by (simp add: apart_def handoff_path_def update_handoff_def sample_handoff_def)

lemma update_handoff_trusted:
  "digest_trusted (insert ''old'' {d. sha256_spec (bytes_of d) = stagedSha256 update_handoff}) update_handoff"
  by (simp add: digest_trusted_def)

lemma update_card_content:
  "content update_card handoff_path = Some (serializeHandoff tally_dump update_handoff)"
  "content update_card (stagedNro update_handoff) = Some ''new''"
  "content update_card (targetNro update_handoff) = Some ''old''"
  by (simp_all add: content_def update_card_def handoff_path_def update_handoff_def sample_handoff_def)

lemma update_card_writable: "writable update_handoff handoff_path update_card"
  by (simp add: writable_def hosts_def dir_exists_def parent_dir_def update_card_def handoff_path_def
      update_handoff_def sample_handoff_def)

lemma update_card_calm: "calm update_card"
  by (simp add: calm_def update_card_def)

lemma update_card_parsed:
  "parseHandoff (tally_parse update_handoff) (serializeHandoff tally_dump update_handoff) = Inr update_handoff"
proof (rule parseHandoff_roundtrip [OF _ update_handoff_wf])
  have "update_handoff\<lparr>attempts := 0\<rparr> = update_handoff"
    by (simp add: update_handoff_def sample_handoff_def)
  then show "reads_back (tally_parse update_handoff) tally_dump (handoff_document update_handoff)"
    using tally_faithful [of update_handoff] unfolding json_faithful_def
    by (metis order_refl zero_le_numeral)
qed

lemma update_card_inv:
  "swap_inv (tally_parse update_handoff)
     (insert ''old'' {d. sha256_spec (bytes_of d) = stagedSha256 update_handoff})
     handoff_path update_handoff update_card"
proof (rule swap_inv_targetI [OF update_card_content(3)])
  have "update_handoff = update_handoff\<lparr>attempts := attempts update_handoff\<rparr>" by simp
  then show "content update_card handoff_path = None \<or>
      carries (tally_parse update_handoff) handoff_path update_handoff update_card"
    unfolding carries_def using update_card_content(1) update_card_parsed by metis
qed simp

section \<open>Properties\<close>

text \<open>C2: However often the forwarder is started, and wherever in each run operations fail, writes are torn or
  the power goes, the application is not lost: a working binary is at its path, or the path is free, a
  working backup exists and the handoff that leads to restoring it is readable.\<close>

theorem boots_keep_application:
  assumes "boots jparse jdump hp w w'" and "swap_inv jparse good hp h w" and "apart hp h"
    and "json_faithful jparse jdump h" and "digest_trusted good h"
  shows "app_safe jparse good hp h w'"
  using boots_inv [OF assms] by (simp add: swap_inv_def)

theorem boots_keep_application_witness:
  "app_safe (tally_parse update_handoff)
     (insert ''old'' {d. sha256_spec (bytes_of d) = stagedSha256 update_handoff})
     handoff_path update_handoff
     (snd (run_state (runSwap (tally_parse update_handoff) tally_dump handoff_path)
        (update_card\<lparr>fate := (\<lambda>n. if n < 5 then Done else Fails), tick := 0\<rparr>)))"
  by (rule boots_keep_application [OF boots.again [OF boots.none prod.collapse [symmetric]]
        update_card_inv update_handoff_apart tally_faithful update_handoff_trusted])

text \<open>C3: After any such history, one boot in which the file operations succeed leaves a working binary at the
  application's path.\<close>

theorem clean_boot_recovers:
  assumes "boots jparse jdump hp w w'" and "swap_inv jparse good hp h w" and "apart hp h"
    and "json_faithful jparse jdump h" and "digest_trusted good h" and "hosts w (targetNro h)"
  shows "\<exists>c\<in>good. content (snd (run_state (runSwap jparse jdump hp) (w'\<lparr>fate := (\<lambda>_. Done), tick := n\<rparr>)))
    (targetNro h) = Some c"
proof -
  let ?v = "w'\<lparr>fate := (\<lambda>_. Done), tick := n\<rparr>"
  have inv: "swap_inv jparse good hp h ?v" using boots_inv [OF assms(1-5)] by simp
  have "hosts ?v (targetNro h)" "calm ?v"
    using assms(6) boots_dirs [OF assms(1)] by (simp_all add: hosts_def dir_exists_def calm_def)
  with inv assms(3) have "wp_io (runSwap jparse jdump hp) (\<lambda>_ v. content v (targetNro h) \<noteq> None) ?v"
    by (intro runSwap_keeps) simp_all
  moreover have "wp_io (runSwap jparse jdump hp) (\<lambda>_. swap_inv jparse good hp h) ?v"
    by (rule runSwap_inv [OF inv assms(3-5)])
  ultimately show ?thesis by (auto simp: wp_result swap_inv_def app_safe_def)
qed

theorem clean_boot_recovers_witness:
  "\<exists>c\<in>insert ''old'' {d. sha256_spec (bytes_of d) = stagedSha256 update_handoff}.
     content (snd (run_state (runSwap (tally_parse update_handoff) tally_dump handoff_path)
       (update_card\<lparr>fate := (\<lambda>_. Done), tick := 0\<rparr>))) (targetNro update_handoff) = Some c"
  using update_card_writable
  by (intro clean_boot_recovers [OF boots.none update_card_inv update_handoff_apart tally_faithful
        update_handoff_trusted]) (simp add: writable_def)

text \<open>C16: A boot without faults installs the staged binary when it matches its recorded digest: the result is
  \<^verbatim>\<open>Installed\<close>, the target holds the staged binary, and handoff, backup, staged copy and temporary files
  are gone, every other file as before.\<close>

theorem clean_boot_installs:
  assumes "calm w" and "apart hp h" and "writable h hp w" and "content w hp = Some raw"
    and "parseHandoff jparse raw = Inr h" and "attempts h < maxAttempts h"
    and "content w (targetNro h) = Some c" and "content w (stagedNro h) = Some d"
    and "sha256_spec (bytes_of d) = stagedSha256 h"
  shows "case run_state (runSwap jparse jdump hp) w of (out, w') \<Rightarrow>
    swap_result out = Installed \<and> content w' = installed_card h hp d (content w)"
proof -
  have "\<not> attemptsExhausted h" using assms(6) by (simp add: attemptsExhausted_def)
  note go = runSwap_performs [OF assms(4,5) this]
  have "wp_io (performSwap jdump h hp)
      (\<lambda>out w'. swap_result out = Installed \<and> content w' = installed_card h hp d (content w)) w"
    by (rule performSwap_calm [OF assms(1-3,7-9)]) simp
  with go assms(7,8) show ?thesis by (simp add: wp_io_def)
qed

theorem clean_boot_installs_witness:
  "swap_result (fst (run_state (runSwap (tally_parse update_handoff) tally_dump handoff_path) update_card)) =
     Installed"
  using clean_boot_installs [OF update_card_calm update_handoff_apart update_card_writable
      update_card_content(1) update_card_parsed _ update_card_content(3,2) update_handoff_fields(3)]
  by (simp add: update_handoff_fields(1,2) case_prod_unfold)



text \<open>A boot that finds no handoff changes nothing on the card, and reports \<^verbatim>\<open>Unrecoverable\<close>, never
  \<^verbatim>\<open>NothingToDo\<close>: without a handoff no file is looked for.\<close>

theorem no_handoff_unrecoverable:
  assumes "content w hp = None"
  shows "run_state (runSwap jparse jdump hp) w =
    (\<lparr>swap_result = SwapUnrecoverable,
      swap_detail = ''the application is missing and there is nothing to restore''\<rparr>, w)"
  using runSwap_absent [OF assms, of jparse jdump "\<lambda>out w'. out = \<lparr>swap_result = SwapUnrecoverable,
      swap_detail = ''the application is missing and there is nothing to restore''\<rparr> \<and> w' = w"]
  by (simp add: wp_io_def case_prod_unfold prod_eq_iff)

theorem no_handoff_unrecoverable_witness:
  "applicationUsable (fst (run_state (runSwap (tally_parse update_handoff) tally_dump ''/absent'') update_card)) =
     False"
  using no_handoff_unrecoverable [of update_card "''/absent''" "tally_parse update_handoff" tally_dump]
  by (simp add: applicationUsable_def content_def update_card_def handoff_path_def update_handoff_def
      sample_handoff_def)

end
