(* ===== verification/Semver.thy ===== *)
theory Semver
  imports Prelude
begin

text \<open>
  Semantic versions: \<^verbatim>\<open>core/version/semver.hpp\<close> and \<^verbatim>\<open>semver.cpp\<close>.  The strict parser, the lenient
  parser, the printer and the precedence comparison, with the exactness of the parser with respect to
  the printer and the order laws of the comparison.
\<close>

section \<open>Types\<close>

datatype SemVerError =
    Empty | MissingMinor | MissingPatch | NonNumericField | LeadingZero | NumericOverflow
  | InvalidPrerelease | InvalidBuild | TrailingGarbage

record SemVer =
  major :: "32 word"
  minor :: "32 word"
  patch :: "32 word"
  prerelease :: string
  build :: string

section \<open>Operations\<close>

definition isDigit :: "char \<Rightarrow> bool" where
  "isDigit c = (c \<ge> CHR ''0'' \<and> c \<le> CHR ''9'')"

definition isIdentifierChar :: "char \<Rightarrow> bool" where
  "isIdentifierChar c =
     (isDigit c \<or> (c \<ge> CHR ''a'' \<and> c \<le> CHR ''z'') \<or> (c \<ge> CHR ''A'' \<and> c \<le> CHR ''Z'') \<or> c = CHR ''-'')"

definition isNumericIdentifier :: "string \<Rightarrow> bool" where
  "isNumericIdentifier s = (s \<noteq> [] \<and> list_all isDigit s)"

text \<open>The accumulation loop of \<^verbatim>\<open>parseNumber\<close>: a 64-bit accumulator, left as soon as it exceeds 32 bits.\<close>

fun parseNumber_loop :: "64 word \<Rightarrow> string \<Rightarrow> (SemVerError, 32 word) result" where
  "parseNumber_loop acc [] = Inr (ucast acc)"
| "parseNumber_loop acc (c # cs) =
     (let acc' = acc * 10 + (of_char c - 48) in
      if acc' > 0xFFFFFFFF then Inl NumericOverflow else parseNumber_loop acc' cs)"

definition parseNumber :: "string \<Rightarrow> (SemVerError, 32 word) result" where
  "parseNumber s =
     (if s = [] then Inl NonNumericField
      else if \<not> list_all isDigit s then Inl NonNumericField
      else if length s > 1 \<and> hd s = CHR ''0'' then Inl LeadingZero
      else parseNumber_loop 0 s)"

text \<open>The identifiers of a prerelease or build field, examined one at a time from the left.\<close>

function isValidDotSeparated_loop :: "string \<Rightarrow> bool" where
  "isValidDotSeparated_loop s =
     (let part = takeWhile (\<lambda>c. c \<noteq> CHR ''.'') s in
      if part = [] \<or> \<not> list_all isIdentifierChar part then False
      else (case dropWhile (\<lambda>c. c \<noteq> CHR ''.'') s of
              [] \<Rightarrow> True
            | _ # rest \<Rightarrow> isValidDotSeparated_loop rest))"
  by pat_completeness auto
termination
proof (relation "measure length")
  fix s p c and rest :: string
  assume "dropWhile (\<lambda>c. c \<noteq> CHR ''.'') s = c # rest"
  then have "length (c # rest) \<le> length s" by (metis length_dropWhile_le)
  then show "(rest, s) \<in> measure length" by simp
qed simp

declare isValidDotSeparated_loop.simps [simp del]

definition isValidDotSeparated :: "string \<Rightarrow> bool" where
  "isValidDotSeparated s = (if s = [] then False else isValidDotSeparated_loop s)"

definition semver_split :: "string \<Rightarrow> char \<Rightarrow> string list" where
  "semver_split s sep = split_on sep s"

text \<open>The body of the loop over shared identifiers, and the loop with the final comparison of the
  number of identifiers.\<close>

definition compareIdentifier :: "string \<Rightarrow> string \<Rightarrow> strong_ordering" where
  "compareIdentifier l r =
     (if isNumericIdentifier l \<and> isNumericIdentifier r then
        (if length l \<noteq> length r then spaceship (length l) (length r) else spaceship l r)
      else if isNumericIdentifier l \<noteq> isNumericIdentifier r then
        (if isNumericIdentifier l then Less else Greater)
      else spaceship l r)"

fun compareShared :: "string list \<Rightarrow> string list \<Rightarrow> strong_ordering" where
  "compareShared (l # ls) (r # rs) =
     (if compareIdentifier l r \<noteq> Equal then compareIdentifier l r else compareShared ls rs)"
| "compareShared ls rs = spaceship (length ls) (length rs)"

definition comparePrerelease :: "string \<Rightarrow> string \<Rightarrow> strong_ordering" where
  "comparePrerelease a b =
     (if a = [] \<and> b = [] then Equal
      else if a = [] then Greater
      else if b = [] then Less
      else compareShared (semver_split a CHR ''.'') (semver_split b CHR ''.''))"

definition toString :: "SemVer \<Rightarrow> string" where
  "toString v =
     show_nat (unat (major v)) @ ''.'' @ show_nat (unat (minor v)) @ ''.'' @ show_nat (unat (patch v))
     @ (if prerelease v \<noteq> [] then ''-'' @ prerelease v else [])
     @ (if build v \<noteq> [] then ''+'' @ build v else [])"

definition dropV :: "string \<Rightarrow> string" where
  "dropV s = (if s \<noteq> [] \<and> (hd s = CHR ''v'' \<or> hd s = CHR ''V'') then tl s else s)"

text \<open>The numeric part of \<^verbatim>\<open>parseSemVer\<close>, once build metadata and prerelease have been cut off.\<close>

definition parseFields :: "string \<Rightarrow> string \<Rightarrow> string \<Rightarrow> (SemVerError, SemVer) result" where
  "parseFields pre bld s =
     (case semver_split s CHR ''.'' of
        [] \<Rightarrow> Inl MissingMinor
      | [_] \<Rightarrow> Inl MissingMinor
      | [_, _] \<Rightarrow> Inl MissingPatch
      | [a, b, c] \<Rightarrow>
          bindE (parseNumber a) (\<lambda>ma.
          bindE (parseNumber b) (\<lambda>mi.
          bindE (parseNumber c) (\<lambda>pa.
          Inr \<lparr>major = ma, minor = mi, patch = pa, prerelease = pre, build = bld\<rparr>)))
      | _ \<Rightarrow> Inl TrailingGarbage)"

definition parsePrerelease :: "string \<Rightarrow> string \<Rightarrow> (SemVerError, SemVer) result" where
  "parsePrerelease bld s =
     (if CHR ''-'' \<in> set s then
        (let pre = after CHR ''-'' s in
         if \<not> isValidDotSeparated pre then Inl InvalidPrerelease
         else parseFields pre bld (before CHR ''-'' s))
      else parseFields [] bld s)"

definition parseSemVer :: "string \<Rightarrow> (SemVerError, SemVer) result" where
  "parseSemVer text0 =
     (let s = dropV text0 in
      if s = [] then Inl Empty
      else if CHR ''+'' \<in> set s then
        (let bld = after CHR ''+'' s in
         if \<not> isValidDotSeparated bld then Inl InvalidBuild
         else parsePrerelease bld (before CHR ''+'' s))
      else parsePrerelease [] s)"

text \<open>The lenient parser keeps the leading run of digits and dots.\<close>

fun lenientNumber_loop :: "64 word \<Rightarrow> string \<Rightarrow> 32 word option" where
  "lenientNumber_loop acc [] = Some (ucast acc)"
| "lenientNumber_loop acc (c # cs) =
     (if \<not> isDigit c then None
      else let acc' = acc * 10 + (of_char c - 48) in
        if acc' > 0xFFFFFFFF then None else lenientNumber_loop acc' cs)"

definition lenientNumber :: "string \<Rightarrow> 32 word option" where
  "lenientNumber s = (if s = [] then None else lenientNumber_loop 0 s)"

definition dropTrailingDots :: "string \<Rightarrow> string" where
  "dropTrailingDots s = rev (dropWhile (\<lambda>c. c = CHR ''.'') (rev s))"

definition field_at :: "32 word list \<Rightarrow> nat \<Rightarrow> 32 word" where
  "field_at ns i = (if i < length ns then ns ! i else 0)"

definition tryParseSemVer :: "string \<Rightarrow> SemVer option" where
  "tryParseSemVer text0 =
     (case parseSemVer text0 of
        Inr v \<Rightarrow> Some v
      | Inl _ \<Rightarrow>
          (let s = dropV text0;
               head = dropTrailingDots (takeWhile (\<lambda>c. isDigit c \<or> c = CHR ''.'') s)
           in
           if head = [] \<or> \<not> isDigit (hd head) then None
           else (case those (map lenientNumber (take 3 (semver_split head CHR ''.''))) of
                   None \<Rightarrow> None
                 | Some ns \<Rightarrow>
                     Some \<lparr>major = field_at ns 0, minor = field_at ns 1, patch = field_at ns 2,
                           prerelease = [], build = []\<rparr>)))"

definition compare :: "SemVer \<Rightarrow> SemVer \<Rightarrow> strong_ordering" where
  "compare a b =
     (if spaceship (major a) (major b) \<noteq> Equal then spaceship (major a) (major b)
      else if spaceship (minor a) (minor b) \<noteq> Equal then spaceship (minor a) (minor b)
      else if spaceship (patch a) (patch b) \<noteq> Equal then spaceship (patch a) (patch b)
      else comparePrerelease (prerelease a) (prerelease b))"

definition isNewerThan :: "SemVer \<Rightarrow> SemVer \<Rightarrow> bool" where
  "isNewerThan candidate current = (compare candidate current = Greater)"

fun describe_SemVerError :: "SemVerError \<Rightarrow> string" where
  "describe_SemVerError Empty = ''version string is empty''"
| "describe_SemVerError MissingMinor = ''missing minor component''"
| "describe_SemVerError MissingPatch = ''missing patch component''"
| "describe_SemVerError NonNumericField = ''a version component is not a number''"
| "describe_SemVerError LeadingZero = ''a version component has a leading zero''"
| "describe_SemVerError NumericOverflow = ''a version component is too large''"
| "describe_SemVerError InvalidPrerelease = ''malformed prerelease identifier''"
| "describe_SemVerError InvalidBuild = ''malformed build metadata''"
| "describe_SemVerError TrailingGarbage = ''unexpected trailing characters''"

section \<open>Numeric components\<close>

lemma isDigit_eq [simp]: "isDigit = is_digit"
  by (auto simp: isDigit_def is_digit_def)

lemma unat_of_char_64: "is_digit c \<Longrightarrow> unat (of_char c - 48 :: 64 word) = digit_val c"
proof -
  assume "is_digit c"
  then have le: "(48 :: nat) \<le> of_char c" "of_char c \<le> (57 :: nat)" by (auto simp: is_digit_iff)
  have "(of_char c :: 64 word) = of_nat (of_char c)" by (rule of_nat_of_char [symmetric])
  with le have "(of_char c - 48 :: 64 word) = of_nat (of_char c - 48)" by (simp only: of_nat_diff of_nat_numeral)
  with le show ?thesis by (simp only: digit_val_def unat_of_nat) simp
qed

text \<open>One step of the accumulation does not wrap: the accumulator stays far below 64 bits.\<close>

lemma acc_step_unat:
  assumes "is_digit c" and "unat (acc :: 64 word) \<le> 0xFFFFFFFF"
  shows "unat (acc * 10 + (of_char c - 48)) = unat acc * 10 + digit_val c"
proof -
  have d: "unat (of_char c - 48 :: 64 word) = digit_val c" "digit_val c < 10"
    using assms(1) by (auto simp: unat_of_char_64 digit_val_less)
  have m: "unat (acc * 10) = unat acc * 10"
    using assms(2) by (subst unat_mult_lem [THEN iffD1]) auto
  show ?thesis
    using assms(2) d m by (subst unat_add_lem [THEN iffD1]) auto
qed

lemma num_foldl_mono: "a \<le> foldl (\<lambda>a c. a * 10 + digit_val c) a s"
proof (induction s arbitrary: a)
  case (Cons c s)
  have "a \<le> a * 10 + digit_val c" by simp
  also have "\<dots> \<le> foldl (\<lambda>a c. a * 10 + digit_val c) (a * 10 + digit_val c) s" by (rule Cons)
  finally show ?case by simp
qed simp

lemma parseNumber_loop_correct:
  assumes "list_all is_digit s" and "unat acc \<le> 0xFFFFFFFF"
  shows "parseNumber_loop acc s =
    (let v = foldl (\<lambda>a c. a * 10 + digit_val c) (unat acc) s
     in if v \<le> 0xFFFFFFFF then Inr (of_nat v) else Inl NumericOverflow)"
  using assms
proof (induction s arbitrary: acc)
  case Nil
  then show ?case by (simp add: Let_def)
next
  case (Cons c s)
  let ?acc = "acc * 10 + (of_char c - 48)"
  have u: "unat ?acc = unat acc * 10 + digit_val c"
    using Cons.prems by (intro acc_step_unat) auto
  have gt: "?acc > 0xFFFFFFFF \<longleftrightarrow> unat ?acc > 0xFFFFFFFF"
    by (simp add: word_less_nat_alt)
  show ?case
  proof (cases "unat ?acc > 0xFFFFFFFF")
    case True
    with num_foldl_mono [of "unat acc * 10 + digit_val c" s] u gt show ?thesis
      by (simp add: Let_def)
  next
    case False
    with Cons.IH [of ?acc] Cons.prems gt u show ?thesis by (simp add: Let_def)
  qed
qed

lemma parseNumber_eq:
  "parseNumber s =
     (if s = [] \<or> \<not> list_all is_digit s then Inl NonNumericField
      else if \<not> canonical_num s then Inl LeadingZero
      else if num_val s \<le> 0xFFFFFFFF then Inr (of_nat (num_val s)) else Inl NumericOverflow)"
  by (simp add: parseNumber_def parseNumber_loop_correct num_val_def [symmetric] canonical_num_def)

lemma parseNumber_Inr_iff: "parseNumber s = Inr n \<longleftrightarrow> s = show_nat (unat n)"
proof
  assume "parseNumber s = Inr n"
  then have "canonical_num s" "num_val s \<le> 0xFFFFFFFF" "n = of_nat (num_val s)"
    by (auto simp: parseNumber_eq split: if_splits)
  then show "s = show_nat (unat n)"
    by (simp add: unat_of_nat show_nat_num_val)
next
  assume s: "s = show_nat (unat n)"
  have "canonical_num s" by (simp add: s)
  moreover note unat_le_max_32 [of n]
  ultimately show "parseNumber s = Inr n"
    using s by (simp add: parseNumber_eq)
qed

lemma parseNumber_show_nat [simp]: "parseNumber (show_nat (unat n)) = Inr n"
  by (simp add: parseNumber_Inr_iff)

section \<open>Identifiers\<close>

lemma isValidDotSeparated_loop_iff:
  "isValidDotSeparated_loop s \<longleftrightarrow>
     list_all (\<lambda>p. p \<noteq> [] \<and> list_all isIdentifierChar p) (split_on CHR ''.'' s)"
proof (induction s rule: isValidDotSeparated_loop.induct)
  case (1 s)
  show ?case
  proof (cases "dropWhile (\<lambda>c. c \<noteq> CHR ''.'') s")
    case Nil
    then have "CHR ''.'' \<notin> set s" by (simp only: dropWhile_Nil_free) simp
    then show ?thesis
      by (subst isValidDotSeparated_loop.simps) (simp add: Let_def)
  next
    case (Cons c rest)
    have "split_on CHR ''.'' s = takeWhile (\<lambda>c. c \<noteq> CHR ''.'') s # split_on CHR ''.'' rest"
      by (subst split_on.simps) (simp add: Cons)
    then show ?thesis
      using 1 [OF refl _ Cons] by (subst isValidDotSeparated_loop.simps) (auto simp: Cons Let_def)
  qed
qed

lemma isValidDotSeparated_iff:
  "isValidDotSeparated s \<longleftrightarrow>
     list_all (\<lambda>p. p \<noteq> [] \<and> list_all isIdentifierChar p) (split_on CHR ''.'' s)"
  by (simp add: isValidDotSeparated_def isValidDotSeparated_loop_iff)

lemma isIdentifierChar_not [simp]: "\<not> isIdentifierChar CHR ''+''" "\<not> isIdentifierChar CHR ''.''"
  by (simp_all add: isIdentifierChar_def is_digit_iff less_eq_char_def)

lemma join_chars: "set (join_with sep ps) \<subseteq> insert sep (\<Union>p\<in>set ps. set p)"
  by (induction sep ps rule: join_with.induct) auto

lemma valid_no_plus: "isValidDotSeparated s \<Longrightarrow> CHR ''+'' \<notin> set s"
proof
  assume v: "isValidDotSeparated s" and "CHR ''+'' \<in> set s"
  then have "CHR ''+'' \<in> set (join_with CHR ''.'' (split_on CHR ''.'' s))" by simp
  with join_chars [of "CHR ''.''" "split_on CHR ''.'' s"]
  obtain p where "p \<in> set (split_on CHR ''.'' s)" "CHR ''+'' \<in> set p" by auto
  with v have "isIdentifierChar CHR ''+''" unfolding isValidDotSeparated_iff list_all_iff by blast
  then show False by simp
qed

section \<open>The strict parser is the inverse of the printer\<close>

text \<open>The versions the program handles: prerelease and build fields absent or well formed.\<close>

definition wf_SemVer :: "SemVer \<Rightarrow> bool" where
  "wf_SemVer v =
     ((prerelease v = [] \<or> isValidDotSeparated (prerelease v)) \<and>
      (build v = [] \<or> isValidDotSeparated (build v)))"

definition numbers :: "SemVer \<Rightarrow> string" where
  "numbers v = join_with CHR ''.''
     [show_nat (unat (major v)), show_nat (unat (minor v)), show_nat (unat (patch v))]"

lemma show_nat_chars: "c \<in> set (show_nat n) \<Longrightarrow> is_digit c"
  using show_nat_digits by blast

lemma not_digit [simp]:
  "\<not> is_digit CHR ''.''" "\<not> is_digit CHR ''-''" "\<not> is_digit CHR ''+''"
  "\<not> is_digit CHR ''v''" "\<not> is_digit CHR ''V''"
  by (simp_all add: is_digit_iff)

lemma show_nat_free [simp]: "\<not> is_digit c \<Longrightarrow> c \<notin> set (show_nat n)"
  using show_nat_chars by blast

lemma numbers_free [simp]: "CHR ''-'' \<notin> set (numbers v)" "CHR ''+'' \<notin> set (numbers v)"
  by (simp_all add: numbers_def)

lemma split_numbers:
  "split_on CHR ''.'' (numbers v) =
     [show_nat (unat (major v)), show_nat (unat (minor v)), show_nat (unat (patch v))]"
  unfolding numbers_def by (rule split_join) auto

lemma parseFields_Inr_iff:
  "parseFields pre bld s = Inr v \<longleftrightarrow> s = numbers v \<and> prerelease v = pre \<and> build v = bld"
proof
  assume p: "parseFields pre bld s = Inr v"
  then obtain a b c where sp: "split_on CHR ''.'' s = [a, b, c]"
    by (auto simp: parseFields_def semver_split_def split: list.splits)
  with p have "a = show_nat (unat (major v)) \<and> b = show_nat (unat (minor v)) \<and>
      c = show_nat (unat (patch v)) \<and> prerelease v = pre \<and> build v = bld"
    by (auto simp: parseFields_def semver_split_def bindE_Inr_iff parseNumber_Inr_iff)
  moreover from sp have "s = join_with CHR ''.'' [a, b, c]" by (metis join_split)
  ultimately show "s = numbers v \<and> prerelease v = pre \<and> build v = bld"
    by (simp add: numbers_def)
next
  assume "s = numbers v \<and> prerelease v = pre \<and> build v = bld"
  then show "parseFields pre bld s = Inr v"
    by (cases v) (simp add: parseFields_def semver_split_def split_numbers)
qed

lemma parsePrerelease_Inr_iff:
  "parsePrerelease bld s = Inr v \<longleftrightarrow>
     build v = bld \<and> (prerelease v = [] \<or> isValidDotSeparated (prerelease v)) \<and>
     s = numbers v @ (if prerelease v \<noteq> [] then CHR ''-'' # prerelease v else [])"
proof
  assume p: "parsePrerelease bld s = Inr v"
  show "build v = bld \<and> (prerelease v = [] \<or> isValidDotSeparated (prerelease v)) \<and>
     s = numbers v @ (if prerelease v \<noteq> [] then CHR ''-'' # prerelease v else [])"
  proof (cases "CHR ''-'' \<in> set s")
    case True
    with p have "isValidDotSeparated (after CHR ''-'' s)" "before CHR ''-'' s = numbers v"
      "prerelease v = after CHR ''-'' s" "build v = bld"
      by (auto simp: parsePrerelease_def Let_def parseFields_Inr_iff split: if_splits)
    with before_after [OF True] show ?thesis
      by (auto simp: isValidDotSeparated_def split: if_splits)
  next
    case False
    with p show ?thesis by (auto simp: parsePrerelease_def parseFields_Inr_iff)
  qed
next
  assume "build v = bld \<and> (prerelease v = [] \<or> isValidDotSeparated (prerelease v)) \<and>
     s = numbers v @ (if prerelease v \<noteq> [] then CHR ''-'' # prerelease v else [])"
  then show "parsePrerelease bld s = Inr v"
    by (auto simp: parsePrerelease_def Let_def parseFields_Inr_iff)
qed

lemma toString_eq:
  "toString v = (numbers v @ (if prerelease v \<noteq> [] then CHR ''-'' # prerelease v else []))
     @ (if build v \<noteq> [] then CHR ''+'' # build v else [])"
  by (simp add: toString_def numbers_def)

lemma parse_dropped_Inr_iff:
  "s \<noteq> [] \<Longrightarrow>
   (if CHR ''+'' \<in> set s then
      (let bld = after CHR ''+'' s in
       if \<not> isValidDotSeparated bld then Inl InvalidBuild
       else parsePrerelease bld (before CHR ''+'' s))
    else parsePrerelease [] s) = Inr v \<longleftrightarrow> wf_SemVer v \<and> s = toString v" (is "_ \<Longrightarrow> ?P = _ \<longleftrightarrow> _")
proof
  assume "s \<noteq> []" and p: "?P = Inr v"
  show "wf_SemVer v \<and> s = toString v"
  proof (cases "CHR ''+'' \<in> set s")
    case True
    with p have "isValidDotSeparated (build v)" "build v = after CHR ''+'' s"
      "before CHR ''+'' s = numbers v @ (if prerelease v \<noteq> [] then CHR ''-'' # prerelease v else [])"
      "prerelease v = [] \<or> isValidDotSeparated (prerelease v)"
      by (auto simp: Let_def parsePrerelease_Inr_iff split: if_splits)
    with before_after [OF True] show ?thesis
      unfolding wf_SemVer_def toString_eq by (auto simp: isValidDotSeparated_def split: if_splits)
  next
    case False
    with p show ?thesis by (auto simp: wf_SemVer_def toString_eq parsePrerelease_Inr_iff)
  qed
next
  assume "s \<noteq> []" and v: "wf_SemVer v \<and> s = toString v"
  let ?core = "numbers v @ (if prerelease v \<noteq> [] then CHR ''-'' # prerelease v else [])"
  from v have core: "CHR ''+'' \<notin> set ?core"
    using valid_no_plus [of "prerelease v"] by (auto simp: wf_SemVer_def)
  have p: "parsePrerelease (build v) ?core = Inr v"
    using v by (simp add: parsePrerelease_Inr_iff wf_SemVer_def)
  show "?P = Inr v"
  proof (cases "build v = []")
    case True
    then have "s = ?core" using v toString_eq [of v] by simp
    with True core p show ?thesis by auto
  next
    case False
    then have s: "s = ?core @ CHR ''+'' # build v" using v toString_eq [of v] by simp
    from False v have "isValidDotSeparated (build v)" by (simp add: wf_SemVer_def)
    then show ?thesis
      using p unfolding s before_append_sep [OF core] after_append_sep [OF core] by simp
  qed
qed

lemma toString_not_Nil [simp]: "toString v \<noteq> []" "[] \<noteq> toString v"
  by (simp_all add: toString_def)

lemma hd_toString: "is_digit (hd (toString v))"
  by (simp add: toString_def show_nat_chars [OF hd_in_set])

lemma dropV_toString [simp]: "dropV (toString v) = toString v"
proof -
  have "hd (toString v) \<noteq> CHR ''v''" "hd (toString v) \<noteq> CHR ''V''"
    using hd_toString [of v] not_digit by metis+
  then show ?thesis by (simp add: dropV_def)
qed

lemma dropV_eq_toString_iff:
  "dropV s = toString v \<longleftrightarrow>
     s = toString v \<or> s = CHR ''v'' # toString v \<or> s = CHR ''V'' # toString v"
proof
  assume "dropV s = toString v"
  then show "s = toString v \<or> s = CHR ''v'' # toString v \<or> s = CHR ''V'' # toString v"
    by (cases s) (auto simp: dropV_def split: if_splits)
qed (auto simp: dropV_def [of "_ # _"])

lemma parseSemVer_Inr_iff: "parseSemVer s = Inr v \<longleftrightarrow> wf_SemVer v \<and> dropV s = toString v"
  using parse_dropped_Inr_iff [of "dropV s" v]
  by (cases "dropV s = []") (auto simp: parseSemVer_def Let_def)

section \<open>Precedence is a total preorder that ignores build metadata\<close>

lemma compareIdentifier_eq:
  "compareIdentifier l r =
     or_else (spaceship (\<not> isNumericIdentifier l) (\<not> isNumericIdentifier r))
       (or_else (spaceship (if isNumericIdentifier l then length l else 0)
                           (if isNumericIdentifier r then length r else 0))
         (spaceship l r))"
  by (auto simp: compareIdentifier_def or_else_def spaceship_def)

lemma three_way_compareIdentifier: "three_way compareIdentifier"
  unfolding compareIdentifier_eq [abs_def]
  by (intro three_way_or_else three_way_spaceship three_way_via [OF three_way_spaceship])

interpretation ident: three_way compareIdentifier
  by (rule three_way_compareIdentifier)

lemma compareIdentifier_Equal: "compareIdentifier l r = Equal \<longleftrightarrow> l = r"
  by (auto simp: compareIdentifier_def split: if_splits)

lemma compareShared_Cons:
  "compareShared (l # ls) (r # rs) = or_else (compareIdentifier l r) (compareShared ls rs)"
  by (simp add: or_else_def)

lemma compareShared_Equal: "compareShared ls rs = Equal \<longleftrightarrow> ls = rs"
  by (induction ls rs rule: compareShared.induct) (auto simp: compareIdentifier_Equal ident.cmp_refl)

lemma compareShared_flip: "compareShared rs ls = flip (compareShared ls rs)"
proof (induction ls rs rule: compareShared.induct)
  case (1 l ls r rs)
  then show ?case
    using ident.cmp_flip [of r l] by (cases "compareIdentifier l r") (auto simp: compareShared_Cons)
qed (simp_all add: spaceship_def)

lemma compareShared_trans:
  "compareShared as bs \<noteq> Greater \<Longrightarrow> compareShared bs cs \<noteq> Greater \<Longrightarrow> compareShared as cs \<noteq> Greater"
proof (induction as arbitrary: bs cs)
  case Nil
  then show ?case by (cases cs) auto
next
  case (Cons a as)
  then obtain b bs' where bs: "bs = b # bs'" by (cases bs) (auto simp: spaceship_def)
  with Cons.prems obtain c cs' where cs: "cs = c # cs'" by (cases cs) (auto simp: spaceship_def)
  have ab: "compareIdentifier a b \<noteq> Greater" and bc: "compareIdentifier b c \<noteq> Greater"
    using Cons.prems bs cs by (auto split: if_splits)
  show ?case
  proof (cases "compareIdentifier a c")
    case Equal
    then have "a = c" by (simp add: compareIdentifier_Equal)
    with ab bc ident.cmp_flip [of b a] have "a = b"
      by (cases "compareIdentifier a b") (auto simp: compareIdentifier_Equal)
    with \<open>a = c\<close> Cons.prems bs cs Cons.IH [of bs' cs'] show ?thesis by (simp add: ident.cmp_refl)
  qed (use ident.cmp_trans [OF ab bc] cs in \<open>auto simp: compareShared_Cons\<close>)
qed

lemma three_way_compareShared: "three_way compareShared"
proof
  fix a b c
  show "compareShared a a = Equal" by (simp add: compareShared_Equal)
  show "compareShared b a = flip (compareShared a b)" by (rule compareShared_flip)
  show "compareShared a b = Equal \<Longrightarrow> compareShared a c = compareShared b c"
    by (simp add: compareShared_Equal)
qed (rule compareShared_trans)

lemma comparePrerelease_eq:
  "comparePrerelease a b =
     or_else (spaceship (a = []) (b = []))
       (compareShared (split_on CHR ''.'' a) (split_on CHR ''.'' b))"
  by (auto simp: comparePrerelease_def semver_split_def or_else_def spaceship_def ident.cmp_refl)

lemma three_way_comparePrerelease: "three_way comparePrerelease"
  unfolding comparePrerelease_eq [abs_def]
  by (intro three_way_or_else three_way_via [OF three_way_spaceship]
      three_way_via [OF three_way_compareShared])

lemma comparePrerelease_Equal: "comparePrerelease a b = Equal \<longleftrightarrow> a = b"
  by (auto simp: comparePrerelease_def semver_split_def compareShared_Equal split_on_inject)

lemma compare_eq:
  "compare a b =
     or_else (spaceship (major a) (major b))
       (or_else (spaceship (minor a) (minor b))
         (or_else (spaceship (patch a) (patch b))
           (comparePrerelease (prerelease a) (prerelease b))))"
  by (simp add: compare_def or_else_def)

interpretation version: three_way compare
  unfolding compare_eq [abs_def]
  by (intro three_way_or_else three_way_via [OF three_way_spaceship]
      three_way_via [OF three_way_comparePrerelease])

lemma compare_Equal_iff:
  "compare a b = Equal \<longleftrightarrow>
     major a = major b \<and> minor a = minor b \<and> patch a = patch b \<and> prerelease a = prerelease b"
  by (auto simp: compare_def comparePrerelease_Equal)

lemma compareIdentifier_by_value:
  assumes "canonical_num l" and "canonical_num r"
  shows "compareIdentifier l r = spaceship (num_val l) (num_val r)"
proof -
  have num: "isNumericIdentifier l" "isNumericIdentifier r"
    using assms by (auto simp: isNumericIdentifier_def canonical_num_def)
  have eq: "num_val l = num_val r \<longleftrightarrow> l = r"
    using assms by (metis show_nat_num_val)
  show ?thesis
    using canonical_less_iff [OF assms] eq num by (auto simp: compareIdentifier_def spaceship_def)
qed

section \<open>The lenient parser\<close>

lemma lenientNumber_loop_correct:
  assumes "list_all is_digit s" and "unat acc \<le> 0xFFFFFFFF"
  shows "lenientNumber_loop acc s =
    (case parseNumber_loop acc s of Inl _ \<Rightarrow> None | Inr n \<Rightarrow> Some n)"
  using assms
proof (induction s arbitrary: acc)
  case (Cons c s)
  let ?acc = "acc * 10 + (of_char c - 48)"
  have "unat ?acc \<le> 0xFFFFFFFF \<longleftrightarrow> \<not> ?acc > 0xFFFFFFFF"
    by (simp add: word_less_nat_alt linorder_not_less)
  with Cons show ?case by (simp add: Let_def)
qed simp

lemma lenientNumber_show_nat [simp]: "lenientNumber (show_nat (unat n)) = Some n"
proof -
  have "parseNumber_loop 0 (show_nat (unat n)) = Inr n"
    using unat_le_max_32 [of n]
    by (simp add: parseNumber_loop_correct num_val_def [symmetric])
  then show ?thesis by (simp add: lenientNumber_def lenientNumber_loop_correct)
qed

definition head_char :: "char \<Rightarrow> bool" where
  "head_char c = (is_digit c \<or> c = CHR ''.'')"

lemma numbers_head_chars: "\<forall>c\<in>set (numbers v). head_char c"
  by (auto simp: numbers_def head_char_def show_nat_chars)

lemma takeWhile_numbers:
  "rest = [] \<or> \<not> head_char (hd rest) \<Longrightarrow> takeWhile head_char (numbers v @ rest) = numbers v"
  using numbers_head_chars [of v] by (cases rest) (auto simp: takeWhile_append2)

lemma dropTrailingDots_numbers [simp]: "dropTrailingDots (numbers v) = numbers v"
proof -
  obtain ds d where "show_nat (unat (patch v)) = ds @ [d]"
    by (metis show_nat_not_Nil rev_exhaust)
  moreover have "d \<noteq> CHR ''.''"
    using calculation show_nat_chars [of d "unat (patch v)"] by auto
  ultimately show ?thesis by (simp add: dropTrailingDots_def numbers_def)
qed

lemma numbers_eq_iff:
  "numbers v = numbers w \<longleftrightarrow> major v = major w \<and> minor v = minor w \<and> patch v = patch w"
proof
  assume "numbers v = numbers w"
  then have "split_on CHR ''.'' (numbers v) = split_on CHR ''.'' (numbers w)" by simp
  then show "major v = major w \<and> minor v = minor w \<and> patch v = patch w"
    by (simp add: split_numbers word_unat_eq_iff)
qed (simp add: numbers_def)

lemma hd_numbers: "is_digit (hd (numbers v))" "numbers v \<noteq> []"
  by (simp_all add: numbers_def show_nat_chars [OF hd_in_set])

lemma dropV_digit: "s \<noteq> [] \<Longrightarrow> is_digit (hd s) \<Longrightarrow> dropV s = s"
  using not_digit by (auto simp: dropV_def)

lemma takeWhile_toString: "takeWhile head_char (toString v) = numbers v"
  unfolding toString_eq append_assoc
  by (rule takeWhile_numbers) (auto simp: head_char_def)


text \<open>C21: \<^const>\<open>isNewerThan\<close> is a strict weak order on versions, and two versions neither of which is newer
  agree on everything but build metadata: irreflexive, asymmetric, transitive, total up to the build
  field.\<close>

theorem isNewerThan_order:
  "\<not> isNewerThan a a \<and>
   (isNewerThan a b \<longrightarrow> \<not> isNewerThan b a) \<and>
   (isNewerThan a b \<and> isNewerThan b c \<longrightarrow> isNewerThan a c) \<and>
   (\<not> isNewerThan a b \<and> \<not> isNewerThan b a) =
     (major a = major b \<and> minor a = minor b \<and> patch a = patch b \<and> prerelease a = prerelease b)"
  unfolding isNewerThan_def
  using version.greater_irrefl version.greater_asym [of a b] version.greater_trans [of a b c]
    version.total [of a b] compare_Equal_iff [of a b] version.cmp_flip [of b a]
  by auto

theorem isNewerThan_order_witness:
  "isNewerThan \<lparr>major = 1, minor = 2, patch = 0, prerelease = ''rc.10'', build = []\<rparr>
     \<lparr>major = 1, minor = 1, patch = 9, prerelease = [], build = []\<rparr>"
  using isNewerThan_order
    [of "\<lparr>major = 1, minor = 2, patch = 0, prerelease = ''rc.10'', build = []\<rparr>"
        "\<lparr>major = 1, minor = 2, patch = 0, prerelease = ''rc.9'', build = []\<rparr>"
        "\<lparr>major = 1, minor = 1, patch = 9, prerelease = [], build = []\<rparr>"]
  by (simp add: isNewerThan_def compare_def comparePrerelease_def semver_split_def split_on_Cons
      compareIdentifier_def isNumericIdentifier_def is_digit_iff spaceship_def)

text \<open>Prerelease identifiers that are numerals without leading zeros are compared by value, although
  the code compares lengths and then bytes.\<close>

theorem compareIdentifier_numeric:
  assumes "canonical_num l" and "canonical_num r"
  shows "compareIdentifier l r = spaceship (num_val l) (num_val r)"
  using assms by (rule compareIdentifier_by_value)

theorem compareIdentifier_numeric_witness:
  "canonical_num ''9'' \<and> canonical_num ''10'' \<and> compareIdentifier ''9'' ''10'' = Less"
proof -
  have c: "canonical_num ''9''" "canonical_num ''10''"
    by (simp_all add: canonical_num_def is_digit_iff)
  show ?thesis
    using c compareIdentifier_numeric [OF c]
    by (simp add: num_val_def digit_val_def spaceship_def)
qed

text \<open>The lenient parser recovers the three numbers of any tag that starts with them: whatever
  follows the numbers (a date, a parenthesis, a well-formed or malformed prerelease), as long as it does
  not continue the run of digits and dots, the result is a version with these numbers.\<close>

theorem tryParseSemVer_prefix:
  assumes "rest = [] \<or> \<not> (isDigit (hd rest) \<or> hd rest = CHR ''.'')"
  shows "\<exists>v. tryParseSemVer (show_nat (unat a) @ ''.'' @ show_nat (unat b) @ ''.'' @ show_nat (unat c) @ rest)
           = Some v \<and> major v = a \<and> minor v = b \<and> patch v = c"
proof -
  let ?w = "\<lparr>major = a, minor = b, patch = c, prerelease = [], build = []\<rparr>"
  let ?s = "numbers ?w @ rest"
  have s: "show_nat (unat a) @ ''.'' @ show_nat (unat b) @ ''.'' @ show_nat (unat c) @ rest = ?s"
    by (simp add: numbers_def)
  have r: "rest = [] \<or> \<not> head_char (hd rest)" using assms by (simp add: head_char_def)
  have d: "dropV ?s = ?s" by (rule dropV_digit) (simp_all add: hd_numbers)
  have hc: "(\<lambda>c. is_digit c \<or> c = CHR ''.'') = head_char" by (auto simp: head_char_def)
  show ?thesis
  proof (cases "parseSemVer ?s")
    case (Inr v)
    then have "?s = toString v" using d by (simp add: parseSemVer_Inr_iff)
    then have "numbers ?w = numbers v"
      using takeWhile_numbers [OF r, of ?w] takeWhile_toString [of v] by simp
    moreover have "tryParseSemVer ?s = Some v" using Inr by (simp add: tryParseSemVer_def)
    ultimately show ?thesis unfolding s by (simp add: numbers_eq_iff)
  next
    case (Inl e)
    have "tryParseSemVer ?s = Some ?w"
      using Inl d takeWhile_numbers [OF r, of ?w]
      by (simp add: tryParseSemVer_def hc hd_numbers semver_split_def split_numbers field_at_def)
    then show ?thesis unfolding s by simp
  qed
qed

theorem tryParseSemVer_prefix_witness:
  "\<exists>v. tryParseSemVer ''4.2.1 (2026-09-23)'' = Some v \<and> major v = 4 \<and> minor v = 2 \<and> patch v = 1"
  using tryParseSemVer_prefix [of "'' (2026-09-23)''" 4 2 1]
  by (simp add: show_nat.simps is_digit_iff)

end
