(* ===== verification/Manifest.thy ===== *)
theory Manifest
  imports Semver Sha256 Json_Value Traversal_Guard
begin

text \<open>
  The published release description: \<^verbatim>\<open>core/update/manifest.hpp\<close> and \<^verbatim>\<open>manifest.cpp\<close>.  The manifest is
  remote data; what its validation guarantees about names, addresses, sizes and digests is stated and
  proved here for every text.
\<close>

section \<open>Types\<close>

definition kSupportedManifestSchema :: int where
  "kSupportedManifestSchema = 1"

datatype Channel = Stable | Beta

datatype AssetKind = AppNro | ForwarderNro | SdOverlayZip

datatype ManifestError =
    NotJson | NotObject | UnsupportedSchemaVersion | WrongProduct | MissingField | WrongType
  | InvalidVersion | InvalidTag | InvalidTimestamp | InvalidChannel | NoAssets | InvalidAssetName
  | InsecureUrl | InvalidDigest | InvalidSize | NoAppAsset

record ManifestAsset =
  asset_name :: string
  asset_kind :: AssetKind
  asset_url :: string
  asset_size :: "64 word"
  asset_sha256 :: Digest

record UpdateManifest =
  man_schemaVersion :: int
  man_version :: SemVer
  man_tag :: string
  man_publishedAt :: string
  man_channel :: Channel
  man_mandatory :: bool
  man_minSupported :: SemVer
  man_minAtmosphere :: "SemVer option"
  man_changelogUrl :: string
  man_releaseNotesUrl :: string
  man_assets :: "ManifestAsset list"

section \<open>Operations\<close>

definition kProduct :: string where
  "kProduct = ''nsx-manager''"

definition kUrlPrefix :: string where
  "kUrlPrefix = ''https://github.com/''"

definition isNameChar :: "char \<Rightarrow> bool" where
  "isNameChar c =
     (CHR ''A'' \<le> c \<and> c \<le> CHR ''Z'' \<or> CHR ''a'' \<le> c \<and> c \<le> CHR ''z'' \<or> CHR ''0'' \<le> c \<and> c \<le> CHR ''9'' \<or>
      c = CHR ''.'' \<or> c = CHR ''_'' \<or> c = CHR ''-'' \<or> c = CHR ''+'')"

definition isBareFilename :: "string \<Rightarrow> bool" where
  "isBareFilename name =
     (if name = [] \<or> hd name = CHR ''.'' then False
      else if CHR ''/'' \<in> set name \<or> CHR 0x5C \<in> set name then False
      else if has_dotdot name then False
      else list_all isNameChar name)"

definition isReleaseUrl :: "string \<Rightarrow> bool" where
  "isReleaseUrl url = (length url > length kUrlPrefix \<and> take (length kUrlPrefix) url = kUrlPrefix)"

definition isIso8601Utc :: "string \<Rightarrow> bool" where
  "isIso8601Utc s =
     (if length s \<noteq> 20 then False
      else if \<not> list_all (\<lambda>i. is_digit (s ! i)) [0, 1, 2, 3, 5, 6, 8, 9, 11, 12, 14, 15, 17, 18] then False
      else s ! 4 = CHR ''-'' \<and> s ! 7 = CHR ''-'' \<and> s ! 10 = CHR ''T'' \<and> s ! 13 = CHR '':'' \<and>
           s ! 16 = CHR '':'' \<and> s ! 19 = CHR ''Z'')"

definition parseKind :: "string \<Rightarrow> AssetKind option" where
  "parseKind s =
     (if s = ''app-nro'' then Some AppNro
      else if s = ''forwarder-nro'' then Some ForwarderNro
      else if s = ''sd-overlay-zip'' then Some SdOverlayZip
      else None)"

definition findAsset :: "UpdateManifest \<Rightarrow> AssetKind \<Rightarrow> ManifestAsset option" where
  "findAsset m kind = find (\<lambda>a. asset_kind a = kind) (man_assets m)"

text \<open>The schema and product, which come before everything else.\<close>

definition parse_identity :: "json option \<Rightarrow> (ManifestError, json) result" where
  "parse_identity parsed =
     (case parsed of
        None \<Rightarrow> Inl NotJson
      | Some doc \<Rightarrow>
          if \<not> is_object doc then Inl NotObject
          else if member doc ''schema_version'' = None then Inl MissingField
          else if \<not> is_number_integer (field doc ''schema_version'') then Inl WrongType
          else if get_int (field doc ''schema_version'') \<noteq> kSupportedManifestSchema
            then Inl UnsupportedSchemaVersion
          else if member doc ''product'' = None then Inl MissingField
          else if \<not> is_string (field doc ''product'') then Inl WrongType
          else if get_string (field doc ''product'') \<noteq> kProduct then Inl WrongProduct
          else if \<not> has_keys doc [''version'', ''tag'', ''published_at'', ''channel'', ''mandatory'',
              ''min_supported'', ''assets''] then Inl MissingField
          else Inr doc)"

definition parse_version :: "string \<Rightarrow> (ManifestError, SemVer) result" where
  "parse_version s = (case parseSemVer s of Inl _ \<Rightarrow> Inl InvalidVersion | Inr v \<Rightarrow> Inr v)"

definition parse_tag :: "json \<Rightarrow> (ManifestError, string) result" where
  "parse_tag doc =
     (if \<not> is_string (field doc ''tag'') then Inl WrongType
      else
        (let tag = get_string (field doc ''tag'') in
         if length tag < 2 \<or> hd tag \<noteq> CHR ''v'' \<or> tl tag \<noteq> get_string (field doc ''version'')
         then Inl InvalidTag else Inr tag))"

definition parse_published :: "json \<Rightarrow> (ManifestError, string) result" where
  "parse_published doc =
     (if \<not> is_string (field doc ''published_at'') then Inl WrongType
      else if \<not> isIso8601Utc (get_string (field doc ''published_at'')) then Inl InvalidTimestamp
      else Inr (get_string (field doc ''published_at'')))"

definition parse_channel :: "json \<Rightarrow> (ManifestError, Channel) result" where
  "parse_channel doc =
     (if \<not> is_string (field doc ''channel'') then Inl WrongType
      else
        (let channel = get_string (field doc ''channel'') in
         if channel = ''stable'' then Inr Stable
         else if channel = ''beta'' then Inr Beta
         else Inl InvalidChannel))"

definition parse_minAtmosphere :: "json \<Rightarrow> (ManifestError, SemVer option) result" where
  "parse_minAtmosphere doc =
     (case member doc ''min_atmosphere'' of
        None \<Rightarrow> Inr None
      | Some v \<Rightarrow>
          if \<not> is_string v then Inl WrongType
          else bindE (parse_version (get_string v)) (\<lambda>ams. Inr (Some ams)))"

definition parse_link :: "json \<Rightarrow> string \<Rightarrow> (ManifestError, string) result" where
  "parse_link doc key =
     (case member doc key of
        None \<Rightarrow> Inr []
      | Some v \<Rightarrow> if \<not> is_string v then Inl WrongType else Inr (get_string v))"

text \<open>One pass of the asset loop: an error, or an asset, or nothing for an unknown kind.\<close>

definition parse_asset :: "json \<Rightarrow> (ManifestError, ManifestAsset option) result" where
  "parse_asset entry =
     (if \<not> is_object entry then Inl WrongType
      else if \<not> has_keys entry [''name'', ''kind'', ''url'', ''size'', ''sha256''] then Inl MissingField
      else if \<not> is_string (field entry ''name'') \<or> \<not> is_string (field entry ''kind'') \<or>
              \<not> is_string (field entry ''url'') \<or> \<not> is_string (field entry ''sha256'') then Inl WrongType
      else if \<not> isBareFilename (get_string (field entry ''name'')) then Inl InvalidAssetName
      else if \<not> isReleaseUrl (get_string (field entry ''url'')) then Inl InsecureUrl
      else (case fromHex (get_string (field entry ''sha256'')) of
        None \<Rightarrow> Inl InvalidDigest
      | Some digest \<Rightarrow>
          if \<not> is_number_unsigned (field entry ''size'') then Inl InvalidSize
          else if get_uint64 (field entry ''size'') = 0 then Inl InvalidSize
          else (case parseKind (get_string (field entry ''kind'')) of
            None \<Rightarrow> Inr None
          | Some kind \<Rightarrow>
              Inr (Some \<lparr>asset_name = get_string (field entry ''name''), asset_kind = kind,
                asset_url = get_string (field entry ''url''), asset_size = get_uint64 (field entry ''size''),
                asset_sha256 = digest\<rparr>))))"

definition parse_assets :: "json \<Rightarrow> (ManifestError, ManifestAsset list) result" where
  "parse_assets doc =
     (if \<not> is_array (field doc ''assets'') then Inl WrongType
      else if elements (field doc ''assets'') = [] then Inl NoAssets
      else bindE (mapE parse_asset (elements (field doc ''assets''))) (\<lambda>found.
        Inr (List.map_filter id found)))"

definition parseManifest :: "(string \<Rightarrow> json option) \<Rightarrow> string \<Rightarrow> (ManifestError, UpdateManifest) result" where
  "parseManifest jparse txt =
     bindE (parse_identity (jparse txt)) (\<lambda>doc.
     if \<not> is_string (field doc ''version'') \<or> \<not> is_string (field doc ''min_supported'') then Inl WrongType
     else
     bindE (parse_version (get_string (field doc ''version''))) (\<lambda>version.
     bindE (parse_version (get_string (field doc ''min_supported''))) (\<lambda>minSupported.
     bindE (parse_tag doc) (\<lambda>tag.
     bindE (parse_published doc) (\<lambda>published.
     bindE (parse_channel doc) (\<lambda>channel.
     if \<not> is_boolean (field doc ''mandatory'') then Inl WrongType
     else
     bindE (parse_minAtmosphere doc) (\<lambda>minAtmosphere.
     bindE (parse_link doc ''changelog_url'') (\<lambda>changelog.
     bindE (parse_link doc ''release_notes_url'') (\<lambda>notes.
     bindE (parse_assets doc) (\<lambda>assets.
     (let out = \<lparr>man_schemaVersion = kSupportedManifestSchema, man_version = version, man_tag = tag,
            man_publishedAt = published, man_channel = channel,
            man_mandatory = get_bool (field doc ''mandatory''), man_minSupported = minSupported,
            man_minAtmosphere = minAtmosphere, man_changelogUrl = changelog, man_releaseNotesUrl = notes,
            man_assets = assets\<rparr>
      in if findAsset out AppNro = None then Inl NoAppAsset else Inr out)))))))))))"

fun describe_ManifestError :: "ManifestError \<Rightarrow> string" where
  "describe_ManifestError NotJson = ''not valid JSON''"
| "describe_ManifestError NotObject = ''top level is not an object''"
| "describe_ManifestError UnsupportedSchemaVersion = ''manifest is newer than this version understands''"
| "describe_ManifestError WrongProduct = ''manifest is for a different product''"
| "describe_ManifestError MissingField = ''a required field is missing''"
| "describe_ManifestError WrongType = ''a field has the wrong type''"
| "describe_ManifestError InvalidVersion = ''a version field is not valid SemVer''"
| "describe_ManifestError InvalidTag = ''tag does not match version''"
| "describe_ManifestError InvalidTimestamp = ''published_at is not ISO-8601 UTC''"
| "describe_ManifestError InvalidChannel = ''channel is not stable or beta''"
| "describe_ManifestError NoAssets = ''no assets listed''"
| "describe_ManifestError InvalidAssetName = ''an asset name is not a bare filename''"
| "describe_ManifestError InsecureUrl = ''an asset URL is not an https GitHub release''"
| "describe_ManifestError InvalidDigest = ''an asset digest is not 64 lowercase hex''"
| "describe_ManifestError InvalidSize = ''an asset size is not a positive integer''"
| "describe_ManifestError NoAppAsset = ''no application asset to download''"

fun toString_AssetKind :: "AssetKind \<Rightarrow> string" where
  "toString_AssetKind AppNro = ''app-nro''"
| "toString_AssetKind ForwarderNro = ''forwarder-nro''"
| "toString_AssetKind SdOverlayZip = ''sd-overlay-zip''"

section \<open>Names and addresses\<close>

text \<open>The manifest's kind names are read as they are printed.\<close>

lemma parseKind_iff: "parseKind s = Some k \<longleftrightarrow> s = toString_AssetKind k"
  by (cases k) (auto simp: parseKind_def)

lemma name_char_facts:
  "isNameChar c \<Longrightarrow> c \<noteq> CHR ''/'' \<and> c \<noteq> CHR 0x5C \<and> c \<noteq> CHR 0x00 \<and> c \<noteq> CHR '':''"
  by (auto simp: isNameChar_def less_eq_char_def)

lemma bare_not_slash: "isBareFilename name \<Longrightarrow> CHR ''/'' \<notin> set name"
  by (auto simp: isBareFilename_def split: if_splits)

lemma bare_component: "isBareFilename name \<Longrightarrow> name \<noteq> [] \<and> name \<noteq> ''.'' \<and> name \<noteq> ''..''"
  by (auto simp: isBareFilename_def split: if_splits)

text \<open>A bare name joined to a directory names a file directly in that directory.\<close>

lemma bare_location:
  assumes "isBareFilename name"
  shows "location (dir @ CHR ''/'' # name) = location dir @ [name]"
  using bare_not_slash [OF assms] bare_component [OF assms]
  by (simp add: location_append split_on_free walk_step_def)

lemma release_url_iff: "isReleaseUrl url \<longleftrightarrow> (\<exists>rest. rest \<noteq> [] \<and> url = ''https://github.com/'' @ rest)"
proof
  assume "isReleaseUrl url"
  then have "url = kUrlPrefix @ drop (length kUrlPrefix) url" "drop (length kUrlPrefix) url \<noteq> []"
    by (auto simp: isReleaseUrl_def) (metis append_take_drop_id)
  then show "\<exists>rest. rest \<noteq> [] \<and> url = ''https://github.com/'' @ rest" unfolding kUrlPrefix_def by blast
qed (auto simp: isReleaseUrl_def kUrlPrefix_def)

section \<open>Accepted manifests\<close>

definition wf_asset :: "ManifestAsset \<Rightarrow> bool" where
  "wf_asset a =
     (isBareFilename (asset_name a) \<and> isReleaseUrl (asset_url a) \<and> 0 < asset_size a \<and>
      length (asset_sha256 a) = kDigestSize)"

definition wf_manifest :: "UpdateManifest \<Rightarrow> bool" where
  "wf_manifest m =
     (man_schemaVersion m = kSupportedManifestSchema \<and> wf_SemVer (man_version m) \<and>
      wf_SemVer (man_minSupported m) \<and> (\<exists>v. man_tag m = CHR ''v'' # v \<and> parseSemVer v = Inr (man_version m)) \<and>
      isIso8601Utc (man_publishedAt m) \<and> list_all wf_asset (man_assets m) \<and>
      (\<exists>a\<in>set (man_assets m). asset_kind a = AppNro))"

lemma parse_asset_Inr:
  "parse_asset entry = Inr x \<Longrightarrow>
   (\<forall>a. x = Some a \<longrightarrow> wf_asset a \<and> asset_name a = get_string (field entry ''name'')) \<and>
   is_object entry \<and> isBareFilename (get_string (field entry ''name'')) \<and>
   isReleaseUrl (get_string (field entry ''url'')) \<and> fromHex (get_string (field entry ''sha256'')) \<noteq> None \<and>
   get_uint64 (field entry ''size'') \<noteq> 0"
  by (auto simp: parse_asset_def wf_asset_def fromHex_iff word_gt_0 split: if_splits option.splits)

lemma map_filter_id_set: "set (List.map_filter id xs) = {a. Some a \<in> set xs}"
  by (force simp: map_filter_def)

lemma parse_assets_Inr:
  assumes "parse_assets doc = Inr xs"
  shows "list_all wf_asset xs"
    and "e \<in> set (elements (field doc ''assets'')) \<Longrightarrow> \<exists>x. parse_asset e = Inr x"
proof -
  from assms obtain found where found: "mapE parse_asset (elements (field doc ''assets'')) = Inr found"
    and xs: "xs = List.map_filter id found"
    by (auto simp: parse_assets_def bindE_Inr_iff split: if_splits)
  have all: "list_all2 (\<lambda>x y. parse_asset x = Inr y) (elements (field doc ''assets'')) found"
    using found by (simp add: mapE_Inr_iff)
  show "list_all wf_asset xs"
    using all parse_asset_Inr unfolding xs list_all_iff map_filter_id_set
    by (fastforce simp: list_all2_conv_all_nth in_set_conv_nth)
  show "\<exists>x. parse_asset e = Inr x" if "e \<in> set (elements (field doc ''assets''))"
    using all that by (auto simp: list_all2_conv_all_nth in_set_conv_nth)
qed

lemma parse_version_Inr: "parse_version s = Inr v \<longleftrightarrow> parseSemVer s = Inr v"
  by (auto simp: parse_version_def split: sum.splits)

lemma parse_tag_Inr:
  "parse_tag doc = Inr t \<Longrightarrow> t = CHR ''v'' # get_string (field doc ''version'')"
  by (cases t) (auto simp: parse_tag_def Let_def split: if_splits)

lemma parse_identity_Inr: "parse_identity parsed = Inr doc \<Longrightarrow> parsed = Some doc"
  by (auto simp: parse_identity_def split: option.splits if_splits)

lemma parseManifest_Inr:
  assumes "parseManifest jparse txt = Inr m"
  obtains doc where "jparse txt = Some doc" and "parse_assets doc = Inr (man_assets m)"
    and "wf_manifest m"
proof -
  from assms obtain doc where doc: "parse_identity (jparse txt) = Inr doc"
    and v: "parse_version (get_string (field doc ''version'')) = Inr (man_version m)"
    and lo: "parse_version (get_string (field doc ''min_supported'')) = Inr (man_minSupported m)"
    and tag: "parse_tag doc = Inr (man_tag m)" and pub: "parse_published doc = Inr (man_publishedAt m)"
    and assets: "parse_assets doc = Inr (man_assets m)"
    and schema: "man_schemaVersion m = kSupportedManifestSchema" and app: "findAsset m AppNro \<noteq> None"
    unfolding parseManifest_def bindE_Inr_iff Let_def
    by (elim exE conjE) (auto simp: bindE_Inr_iff split: if_splits)
  have "wf_manifest m"
    unfolding wf_manifest_def
  proof (intro conjI)
    show "wf_SemVer (man_version m)" "wf_SemVer (man_minSupported m)"
      using v lo by (simp_all add: parse_version_Inr parseSemVer_Inr_iff)
    show "\<exists>s. man_tag m = CHR ''v'' # s \<and> parseSemVer s = Inr (man_version m)"
      using v parse_tag_Inr [OF tag] by (simp add: parse_version_Inr)
    show "isIso8601Utc (man_publishedAt m)"
      using pub by (auto simp: parse_published_def split: if_splits)
    show "list_all wf_asset (man_assets m)" by (rule parse_assets_Inr [OF assets])
    show "\<exists>a\<in>set (man_assets m). asset_kind a = AppNro"
      using app by (auto simp: findAsset_def find_None_iff)
  qed (rule schema)
  then show thesis using that parse_identity_Inr [OF doc] assets by blast
qed

section \<open>Properties\<close>

text \<open>C10: Whatever document is parsed, an accepted manifest is well formed: its tag is \<^verbatim>\<open>v\<close> and the released
  version, and it has an application asset; and every asset has a non-zero size, a 32-byte digest, a
  GitHub https address and a bare name, so that in any directory it names a file directly in that
  directory.\<close>

theorem parseManifest_wf:
  assumes "parseManifest jparse txt = Inr m"
  shows "wf_manifest m \<and>
    (\<forall>a\<in>set (man_assets m). (\<exists>rest. asset_url a = ''https://github.com/'' @ rest) \<and>
       (\<forall>dir. location (dir @ CHR ''/'' # asset_name a) = location dir @ [asset_name a]))"
proof -
  obtain doc where wf: "wf_manifest m" using parseManifest_Inr [OF assms] by blast
  have "wf_asset a" if "a \<in> set (man_assets m)" for a
    using wf that by (auto simp: wf_manifest_def list_all_iff)
  then show ?thesis using wf by (auto simp: wf_asset_def bare_location release_url_iff)
qed

definition sample_document :: json where
  "sample_document =
     JObject [(''schema_version'', JUint 1), (''product'', JString ''nsx-manager''),
       (''version'', JString ''0.2.0''), (''tag'', JString ''v0.2.0''),
       (''published_at'', JString ''2025-01-02T03:04:05Z''), (''channel'', JString ''stable''),
       (''mandatory'', JBool False), (''min_supported'', JString ''0.1.0''),
       (''assets'', JArray
         [JObject [(''name'', JString ''nsx.nro''), (''kind'', JString ''app-nro''),
            (''url'', JString ''https://github.com/o/r/releases/download/v0.2.0/nsx.nro''),
            (''size'', JUint 7), (''sha256'', JString (replicate 64 CHR ''a''))],
          JObject [(''name'', JString ''x.bin''), (''kind'', JString ''something-new''),
            (''url'', JString ''https://github.com/o/r/x.bin''),
            (''size'', JUint 1), (''sha256'', JString (replicate 64 CHR ''0''))]])]"

lemma sample_document_accepted:
  "map_sum id (\<lambda>m. map asset_name (man_assets m)) (parseManifest (\<lambda>_. Some sample_document) ''text'') =
     Inr [''nsx.nro'']"
  by code_simp

theorem parseManifest_wf_witness:
  "\<exists>m. parseManifest (\<lambda>_. Some sample_document) ''text'' = Inr m \<and> wf_manifest m \<and>
     map asset_name (man_assets m) = [''nsx.nro'']"
proof -
  obtain m where m: "parseManifest (\<lambda>_. Some sample_document) ''text'' = Inr m"
    "map asset_name (man_assets m) = [''nsx.nro'']"
    using sample_document_accepted by (cases "parseManifest (\<lambda>_. Some sample_document) ''text''") auto
  show ?thesis by (rule exI [of _ m]) (use m parseManifest_wf [OF m(1)] in simp)
qed

text \<open>C33: One bad asset rejects the whole manifest: when any entry of the asset list has a name that is not bare,
  an address off GitHub, a digest that is not 64 lowercase hexadecimal digits or a zero size, the result
  is an error, even if the entry's kind is unknown and it would have been skipped.\<close>

theorem one_bad_asset_rejects:
  assumes "jparse txt = Some doc" and "entry \<in> set (elements (field doc ''assets''))"
    and "\<not> isBareFilename (get_string (field entry ''name'')) \<or>
         \<not> isReleaseUrl (get_string (field entry ''url'')) \<or>
         fromHex (get_string (field entry ''sha256'')) = None \<or>
         get_uint64 (field entry ''size'') = 0"
  shows "\<exists>e. parseManifest jparse txt = Inl e"
proof (cases "parseManifest jparse txt")
  case (Inr m)
  from parseManifest_Inr [OF this] assms(1) have "parse_assets doc = Inr (man_assets m)"
    by (metis option.inject)
  from parse_assets_Inr(2) [OF this assms(2)] obtain x where "parse_asset entry = Inr x" by blast
  from parse_asset_Inr [OF this] assms(3) show ?thesis by auto
qed simp

theorem one_bad_asset_rejects_witness:
  "\<exists>e. parseManifest (\<lambda>_. Some (JObject [(''assets'', JArray [JObject [(''name'', JString ''../x'')]])])) [] = Inl e"
  by (rule one_bad_asset_rejects [OF refl, where entry = "JObject [(''name'', JString ''../x'')]"])
    (simp_all add: field_def isBareFilename_def)

end
