(* ===== verification/Update_Policy.thy ===== *)
theory Update_Policy
  imports Manifest
begin

text \<open>
  What an update check decides: \<^verbatim>\<open>core/update/update_policy.hpp\<close> and \<^verbatim>\<open>update_policy.cpp\<close>.
\<close>

datatype UpdateAction =
    UpToDate | Optional | Mandatory | UnsupportedPath | WrongChannel | ManifestUnreadable

record UpdateDecision =
  upd_action :: UpdateAction
  upd_target :: "SemVer option"
  upd_reason :: string

definition offersUpdate :: "UpdateDecision \<Rightarrow> bool" where
  "offersUpdate d = (upd_action d = Optional \<or> upd_action d = Mandatory)"

definition decideUpdate :: "SemVer \<Rightarrow> UpdateManifest \<Rightarrow> Channel \<Rightarrow> UpdateDecision" where
  "decideUpdate installed manifest channel =
     (if man_channel manifest \<noteq> channel then
        \<lparr>upd_action = WrongChannel, upd_target = None,
         upd_reason = ''manifest is for a different release channel''\<rparr>
      else if compare installed (man_minSupported manifest) = Less then
        \<lparr>upd_action = UnsupportedPath, upd_target = Some (man_version manifest),
         upd_reason = ''installed '' @ toString installed @ '' is older than the minimum '' @
           toString (man_minSupported manifest) @ '' this release can update from''\<rparr>
      else if \<not> isNewerThan (man_version manifest) installed then
        \<lparr>upd_action = UpToDate, upd_target = None,
         upd_reason = ''installed '' @ toString installed @ '' is current''\<rparr>
      else
        \<lparr>upd_action = (if man_mandatory manifest then Mandatory else Optional),
         upd_target = Some (man_version manifest),
         upd_reason = toString (man_version manifest) @ '' is available (installed '' @
           toString installed @ '')''\<rparr>)"

definition unreadableManifest :: "string \<Rightarrow> UpdateDecision" where
  "unreadableManifest why = \<lparr>upd_action = ManifestUnreadable, upd_target = None, upd_reason = why\<rparr>"

fun describe_UpdateAction :: "UpdateAction \<Rightarrow> string" where
  "describe_UpdateAction UpToDate = ''up to date''"
| "describe_UpdateAction Optional = ''an update is available''"
| "describe_UpdateAction Mandatory = ''a required update is available''"
| "describe_UpdateAction UnsupportedPath = ''too old to update in-app''"
| "describe_UpdateAction WrongChannel = ''manifest is for another channel''"
| "describe_UpdateAction ManifestUnreadable = ''update check unavailable''"

lemma offersUpdate_iff:
  "offersUpdate (decideUpdate v m chan) \<longleftrightarrow>
     man_channel m = chan \<and> compare v (man_minSupported m) \<noteq> Less \<and> isNewerThan (man_version m) v"
  by (auto simp: offersUpdate_def decideUpdate_def)

text \<open>Once the offered version is installed, the same manifest offers nothing any more: updating ends.\<close>

lemma decideUpdate_settles: "\<not> offersUpdate (decideUpdate (man_version m) m chan)"
  by (simp add: offersUpdate_iff isNewerThan_def version.greater_irrefl)

section \<open>Properties\<close>

text \<open>C22: An update is offered exactly when the manifest is for this channel, the installed version is not
  below the release's minimum, and the release has higher precedence than the installed version.  It is
  never a downgrade: what is offered is not older than what is installed, and once it is installed the
  same manifest offers nothing.\<close>

theorem decideUpdate_exact:
  "(offersUpdate (decideUpdate v m chan) \<longleftrightarrow>
      man_channel m = chan \<and> compare v (man_minSupported m) \<noteq> Less \<and> isNewerThan (man_version m) v) \<and>
   (offersUpdate (decideUpdate v m chan) \<longrightarrow>
      upd_target (decideUpdate v m chan) = Some (man_version m) \<and> \<not> isNewerThan v (man_version m)) \<and>
   \<not> offersUpdate (decideUpdate (man_version m) m chan) \<and>
   \<not> offersUpdate (unreadableManifest why)"
proof -
  have "\<not> isNewerThan v (man_version m)" if "isNewerThan (man_version m) v"
    using that version.greater_asym [of "man_version m" v] by (simp add: isNewerThan_def)
  moreover have "upd_target (decideUpdate v m chan) = Some (man_version m)" if "offersUpdate (decideUpdate v m chan)"
    using that unfolding offersUpdate_iff by (simp add: decideUpdate_def)
  moreover have "\<not> offersUpdate (unreadableManifest why)"
    by (simp add: unreadableManifest_def offersUpdate_def)
  ultimately show ?thesis
    using decideUpdate_settles [of m chan] offersUpdate_iff [of v m chan] by blast
qed

text \<open>The same at a release with a two-digit minor number.\<close>

definition sample_version :: "32 word \<Rightarrow> string \<Rightarrow> SemVer" where
  "sample_version n pre = \<lparr>major = 0, minor = n, patch = 0, prerelease = pre, build = []\<rparr>"

definition sample_manifest :: UpdateManifest where
  "sample_manifest =
     \<lparr>man_schemaVersion = 1, man_version = sample_version 10 [], man_tag = ''v0.10.0'',
      man_publishedAt = ''2025-01-01T00:00:00Z'', man_channel = Stable, man_mandatory = False,
      man_minSupported = sample_version 2 [], man_minAtmosphere = None, man_changelogUrl = [],
      man_releaseNotesUrl = [], man_assets = []\<rparr>"

theorem decideUpdate_exact_witness:
  "upd_target (decideUpdate (sample_version 9 []) sample_manifest Stable) = Some (sample_version 10 [])"
proof -
  have "offersUpdate (decideUpdate (sample_version 9 []) sample_manifest Stable)" by code_simp
  then show ?thesis
    using decideUpdate_exact [of "sample_version 9 []" sample_manifest Stable] by (simp add: sample_manifest_def)
qed

end
