(* ===== verification/Backoff.thy ===== *)
theory Backoff
  imports Json_Value
begin

unbundle bit_operations_syntax

text \<open>
  Retry throttling: \<^verbatim>\<open>core/update/backoff.hpp\<close> and \<^verbatim>\<open>backoff.cpp\<close>.  Times and delays are 64-bit signed
  integers of the source, modelled as integers with the wrap-around written at every addition and
  multiplication; the bounds proved show that it does not happen.
\<close>

section \<open>Types\<close>

record BackoffPolicy =
  baseSeconds :: int
  capSeconds :: int
  jitterPercent :: int

definition default_BackoffPolicy :: BackoffPolicy where
  "default_BackoffPolicy = \<lparr>baseSeconds = 60, capSeconds = 6 * 60 * 60, jitterPercent = 20\<rparr>"

record BackoffState =
  consecutiveFailures :: int
  nextAttemptUnix :: int
  lastFailureUnix :: int
  lastSuccessUnix :: int

definition empty_BackoffState :: BackoffState where
  "empty_BackoffState =
     \<lparr>consecutiveFailures = 0, nextAttemptUnix = 0, lastFailureUnix = 0, lastSuccessUnix = 0\<rparr>"

section \<open>Operations\<close>

definition mix :: "64 word \<Rightarrow> 64 word" where
  "mix seed =
     (let z = seed + 0x9E3779B97F4A7C15;
          z = (z XOR drop_bit 30 z) * 0xBF58476D1CE4E5B9;
          z = (z XOR drop_bit 27 z) * 0x94D049BB133111EB
      in z XOR drop_bit 31 z)"

text \<open>The doubling loop, with \<open>n\<close> rounds left.\<close>

fun growCapped_loop :: "int \<Rightarrow> nat \<Rightarrow> int \<Rightarrow> int" where
  "growCapped_loop val 0 cap = (if val > cap then cap else val)"
| "growCapped_loop val (Suc n) cap =
     (if val \<ge> wrap64 (cap - val) then cap else growCapped_loop (wrap64 (val * 2)) n cap)"

definition growCapped :: "int \<Rightarrow> int \<Rightarrow> int \<Rightarrow> int" where
  "growCapped base steps cap = growCapped_loop base (nat steps) cap"

definition clamp :: "int \<Rightarrow> int \<Rightarrow> int \<Rightarrow> int" where
  "clamp v lo hi = (if v < lo then lo else if hi < v then hi else v)"

definition backoffDelaySeconds :: "int \<Rightarrow> BackoffPolicy \<Rightarrow> 64 word \<Rightarrow> int" where
  "backoffDelaySeconds failures policy jitterSeed =
     (if failures \<le> 0 then 0
      else
        (let base = (if baseSeconds policy > 0 then baseSeconds policy else 1);
             cap = (if capSeconds policy > base then capSeconds policy else base);
             steps = (if failures > 40 then 40 else failures - 1);
             plain = growCapped base steps cap;
             spread = clamp (jitterPercent policy) 0 100 in
         if spread = 0 then plain
         else
           (let span = wrap64 (plain * spread) div 100 in
            if span \<le> 0 then plain
            else
              (let offset = wrap64 (sint (mix jitterSeed mod of_int (wrap64 (2 * span))) - span);
                   jittered = wrap64 (plain + offset);
                   jittered = (if jittered < 1 then 1 else jittered)
               in if jittered > cap then cap else jittered))))"

definition afterFailure :: "BackoffState \<Rightarrow> int \<Rightarrow> BackoffPolicy \<Rightarrow> 64 word \<Rightarrow> BackoffState" where
  "afterFailure state nowUnix policy jitterSeed =
     (let failures = (if consecutiveFailures state < 1000000 then consecutiveFailures state + 1
                      else consecutiveFailures state)
      in state\<lparr>consecutiveFailures := failures, lastFailureUnix := nowUnix,
               nextAttemptUnix := wrap64 (nowUnix + backoffDelaySeconds failures policy jitterSeed)\<rparr>)"

definition afterSuccess :: "BackoffState \<Rightarrow> int \<Rightarrow> BackoffState" where
  "afterSuccess state nowUnix =
     state\<lparr>consecutiveFailures := 0, nextAttemptUnix := 0, lastSuccessUnix := nowUnix\<rparr>"

definition secondsUntilNextAttempt :: "BackoffState \<Rightarrow> int \<Rightarrow> BackoffPolicy \<Rightarrow> int" where
  "secondsUntilNextAttempt state nowUnix policy =
     (if nextAttemptUnix state \<le> nowUnix then 0
      else
        (let remaining = wrap64 (nextAttemptUnix state - nowUnix);
             cap = (if capSeconds policy > 0 then capSeconds policy else 1)
         in if remaining > cap then 0 else remaining))"

definition mayAttempt :: "BackoffState \<Rightarrow> int \<Rightarrow> BackoffPolicy \<Rightarrow> bool" where
  "mayAttempt state nowUnix policy = (secondsUntilNextAttempt state nowUnix policy = 0)"

definition backoff_document :: "BackoffState \<Rightarrow> json" where
  "backoff_document state =
     JObject [(''schema_version'', JInt 1),
              (''consecutive_failures'', JInt (consecutiveFailures state)),
              (''next_attempt_unix'', JInt (nextAttemptUnix state)),
              (''last_failure_unix'', JInt (lastFailureUnix state)),
              (''last_success_unix'', JInt (lastSuccessUnix state))]"

definition serializeBackoff :: "(json \<Rightarrow> string) \<Rightarrow> BackoffState \<Rightarrow> string" where
  "serializeBackoff jdump state = jdump (backoff_document state) @ [CHR 0x0A]"

definition optional_int :: "(json \<Rightarrow> int) \<Rightarrow> json \<Rightarrow> string \<Rightarrow> int" where
  "optional_int get doc key =
     (case member doc key of
        Some v \<Rightarrow> (if is_number_integer v then get v else 0)
      | None \<Rightarrow> 0)"

definition parseBackoff :: "(string \<Rightarrow> json option) \<Rightarrow> string \<Rightarrow> BackoffState option" where
  "parseBackoff jparse txt =
     (case jparse txt of
        None \<Rightarrow> None
      | Some doc \<Rightarrow>
          if \<not> is_object doc then None
          else
            (let failures = optional_int get_int doc ''consecutive_failures'' in
             Some \<lparr>consecutiveFailures = (if failures < 0 then 0 else failures),
                   nextAttemptUnix = optional_int get_int64 doc ''next_attempt_unix'',
                   lastFailureUnix = optional_int get_int64 doc ''last_failure_unix'',
                   lastSuccessUnix = optional_int get_int64 doc ''last_success_unix''\<rparr>))"

section \<open>Growth and delay\<close>

text \<open>The base and cap the delay is computed from, and the policies for which 64-bit arithmetic is
  exact: every delay up to a billion years.\<close>

definition effective_base :: "BackoffPolicy \<Rightarrow> int" where
  "effective_base p = (if baseSeconds p > 0 then baseSeconds p else 1)"

definition effective_cap :: "BackoffPolicy \<Rightarrow> int" where
  "effective_cap p = max (capSeconds p) (effective_base p)"

definition sane_policy :: "BackoffPolicy \<Rightarrow> bool" where
  "sane_policy p = (baseSeconds p \<le> 2 ^ 55 \<and> capSeconds p \<le> 2 ^ 55)"

lemma effective_bounds: "1 \<le> effective_base p" "effective_base p \<le> effective_cap p"
  by (auto simp: effective_base_def effective_cap_def)

lemma effective_cap_bound: "sane_policy p \<Longrightarrow> effective_cap p \<le> 2 ^ 55"
  by (auto simp: effective_cap_def effective_base_def sane_policy_def)

lemma growCapped_loop_eq:
  "0 < v \<Longrightarrow> v \<le> cap \<Longrightarrow> cap < 2 ^ 63 \<Longrightarrow> growCapped_loop v n cap = min cap (v * 2 ^ n)"
proof (induction n arbitrary: v)
  case (Suc n)
  then have "int64_range (cap - v)" by (simp add: int64_range_def)
  show ?case
  proof (cases "v \<ge> cap - v")
    case True
    have "cap \<le> v * 2" using True by simp
    also have "\<dots> \<le> v * 2 * 2 ^ n" using Suc.prems(1) by simp
    finally show ?thesis using True \<open>int64_range (cap - v)\<close> by (simp add: min_def mult.assoc)
  next
    case False
    then have "int64_range (v * 2)" using Suc.prems by (simp add: int64_range_def)
    with False Suc.IH [of "v * 2"] Suc.prems \<open>int64_range (cap - v)\<close> show ?thesis
      by (simp add: mult.assoc)
  qed
qed (simp add: min_def)

lemma growCapped_eq:
  "0 < base \<Longrightarrow> base \<le> cap \<Longrightarrow> cap < 2 ^ 63 \<Longrightarrow>
   growCapped base steps cap = min cap (base * 2 ^ nat steps)"
  by (simp add: growCapped_def growCapped_loop_eq)

definition plain_delay :: "int \<Rightarrow> BackoffPolicy \<Rightarrow> int" where
  "plain_delay failures p =
     min (effective_cap p) (effective_base p * 2 ^ nat (min 40 (failures - 1)))"

definition jitter_span :: "int \<Rightarrow> BackoffPolicy \<Rightarrow> int" where
  "jitter_span failures p = (plain_delay failures p * clamp (jitterPercent p) 0 100) div 100"

lemma plain_delay_bounds: "1 \<le> plain_delay failures p" "plain_delay failures p \<le> effective_cap p"
proof -
  have "1 * 1 \<le> effective_base p * 2 ^ nat (min 40 (failures - 1))"
    by (intro mult_mono) (use effective_bounds(1) [of p] in auto)
  then show "1 \<le> plain_delay failures p"
    using effective_bounds [of p] by (simp add: plain_delay_def)
qed (simp add: plain_delay_def)

lemma clamp_bounds: "0 \<le> clamp v 0 100" "clamp v 0 100 \<le> 100"
  by (auto simp: clamp_def)

lemma jitter_span_bounds: "0 \<le> jitter_span failures p" "jitter_span failures p \<le> plain_delay failures p"
proof -
  let ?c = "clamp (jitterPercent p) 0 100" and ?d = "plain_delay failures p"
  have d: "0 \<le> ?d" using plain_delay_bounds(1) [of failures p] by linarith
  then show "0 \<le> jitter_span failures p"
    using clamp_bounds [of "jitterPercent p"]
    by (simp add: jitter_span_def pos_imp_zdiv_nonneg_iff mult_nonneg_nonneg)
  have "?d * ?c \<le> ?d * 100" using d clamp_bounds(2) by (rule mult_left_mono [rotated])
  then have "(?d * ?c) div 100 \<le> (?d * 100) div 100" by (rule zdiv_mono1) simp
  then show "jitter_span failures p \<le> ?d" by (simp add: jitter_span_def)
qed

text \<open>The random offset lies in the half-open interval from minus the span up to the span.\<close>

lemma offset_bounds:
  assumes "0 < span" and "span \<le> 2 ^ 55"
  shows "- span \<le> sint (mix seed mod of_int (wrap64 (2 * span))) - span"
    and "sint (mix seed mod of_int (wrap64 (2 * span))) - span < span"
proof -
  define k where "k = 2 * span"
  have k: "0 < k" "k \<le> 2 ^ 56" using assms by (simp_all add: k_def)
  then have w: "wrap64 (2 * span) = k" by (simp add: int64_range_def k_def)
  have um: "uint (of_int k :: 64 word) = k"
    using k by (simp add: uint_word_of_int_eq take_bit_int_eq_self)
  let ?r = "mix seed mod of_int k :: 64 word"
  have "uint ?r = uint (mix seed) mod k" by (simp add: uint_mod um)
  then have b: "0 \<le> uint ?r" "uint ?r < k" using k by simp_all
  then have "uint ?r < 2 ^ 63" using k by simp
  moreover have "- (2 ^ 63) \<le> uint ?r" by (rule order_trans [OF _ b(1)]) simp
  ultimately have "sint ?r = uint ?r" by (simp add: sint_uint signed_take_bit_int_eq_self_iff)
  with b show "- span \<le> sint (mix seed mod of_int (wrap64 (2 * span))) - span"
    "sint (mix seed mod of_int (wrap64 (2 * span))) - span < span"
    unfolding w by (simp_all add: k_def [symmetric])
qed

lemma backoffDelay_bounds:
  fixes seed :: "64 word"
  assumes f: "0 < failures" and sane: "sane_policy p"
  defines "d \<equiv> backoffDelaySeconds failures p seed"
  shows "1 \<le> d \<and> d \<le> effective_cap p \<and>
    plain_delay failures p - jitter_span failures p \<le> d \<and>
    d \<le> plain_delay failures p + jitter_span failures p"
proof -
  let ?cap = "effective_cap p" and ?base = "effective_base p"
  let ?plain = "plain_delay failures p" and ?spread = "clamp (jitterPercent p) 0 100"
  let ?span = "jitter_span failures p"
  define off where "off = sint (mix seed mod of_int (wrap64 (2 * ?span))) - ?span"
  have cap: "?cap \<le> 2 ^ 55" by (rule effective_cap_bound [OF sane])
  have capdef: "(if capSeconds p > ?base then capSeconds p else ?base) = ?cap"
    by (simp add: effective_cap_def max_def)
  have plain: "growCapped ?base (if failures > 40 then 40 else failures - 1) ?cap = ?plain"
    using effective_bounds [of p] cap
    by (subst growCapped_eq) (auto simp: plain_delay_def min_def)
  have pb: "1 \<le> ?plain" "?plain \<le> ?cap" by (rule plain_delay_bounds)+
  have "?plain * ?spread \<le> 2 ^ 55 * 100"
    using pb cap clamp_bounds [of "jitterPercent p"] by (intro mult_mono) linarith+
  moreover have "0 \<le> ?plain * ?spread" using pb clamp_bounds [of "jitterPercent p"] by simp
  ultimately have w: "wrap64 (?plain * ?spread) = ?plain * ?spread" by (simp add: int64_range_def)
  have d: "d = (if ?spread = 0 then ?plain else if ?span \<le> 0 then ?plain
      else let j = wrap64 (?plain + wrap64 off); j = (if j < 1 then 1 else j) in if j > ?cap then ?cap else j)"
    using f unfolding d_def backoffDelaySeconds_def effective_base_def [symmetric] capdef plain Let_def
    by (simp add: w jitter_span_def off_def)
  have sb: "0 \<le> ?span" "?span \<le> ?plain" by (rule jitter_span_bounds)+
  show ?thesis
  proof (cases "?spread = 0 \<or> ?span \<le> 0")
    case True
    then show ?thesis using d pb sb by auto
  next
    case False
    then have sp: "0 < ?span" "?span \<le> 2 ^ 55" using pb sb cap by linarith+
    have ob: "- ?span \<le> off" "off < ?span" unfolding off_def using offset_bounds [OF sp] by blast+
    have o1: "wrap64 off = off" using ob sp by (intro wrap64_id) (simp add: int64_range_def)
    have o2: "wrap64 (?plain + off) = ?plain + off"
      using ob sp pb cap by (intro wrap64_id) (simp add: int64_range_def)
    from d False o1 o2
    have "d = (let j = ?plain + off; j = (if j < 1 then 1 else j) in if j > ?cap then ?cap else j)"
      by simp
    then show ?thesis using ob pb sb effective_bounds [of p] by (auto simp: Let_def)
  qed
qed

section \<open>Properties\<close>

text \<open>C24: The delay after a failure doubles from the base up to the cap, whatever the number of failures,
  without overflow, and the jitter moves it by at most the configured percentage, never past the cap and
  never below a second.\<close>

theorem backoff_delay_bounded:
  assumes "0 < failures" and "sane_policy p"
  shows "1 \<le> backoffDelaySeconds failures p seed \<and>
    backoffDelaySeconds failures p seed \<le> effective_cap p \<and>
    \<bar>backoffDelaySeconds failures p seed
      - min (effective_cap p) (effective_base p * 2 ^ nat (min 40 (failures - 1)))\<bar> \<le> jitter_span failures p"
  using backoffDelay_bounds [OF assms, of seed] by (auto simp: plain_delay_def [symmetric])

theorem backoff_delay_bounded_witness:
  "1 \<le> backoffDelaySeconds 1000000 default_BackoffPolicy 42 \<and>
   backoffDelaySeconds 1000000 default_BackoffPolicy 42 \<le> 21600"
  using backoff_delay_bounded [of 1000000 default_BackoffPolicy 42]
  by (simp add: sane_policy_def default_BackoffPolicy_def effective_cap_def effective_base_def)

lemma remaining_small:
  "int64_range (nextAttemptUnix st - t) \<Longrightarrow> t < nextAttemptUnix st \<Longrightarrow>
   secondsUntilNextAttempt st t p =
     (if nextAttemptUnix st - t > max 1 (capSeconds p) then 0 else nextAttemptUnix st - t)"
  by (auto simp: secondsUntilNextAttempt_def Let_def max_def)

text \<open>C26: A failure throttles: until the chosen delay has passed no attempt is made, and from then on one
  may be made, for a policy whose cap is not below its base.\<close>

theorem failure_throttles:
  assumes "sane_policy p" and "baseSeconds p \<le> capSeconds p" and "0 < capSeconds p"
    and "0 \<le> consecutiveFailures st" and "0 \<le> now" and "now \<le> t" and "t < 2 ^ 62"
  shows "mayAttempt (afterFailure st now p seed) t p =
    (t \<ge> now + backoffDelaySeconds (consecutiveFailures (afterFailure st now p seed)) p seed)"
proof -
  let ?st = "afterFailure st now p seed"
  let ?d = "backoffDelaySeconds (consecutiveFailures ?st) p seed"
  have f: "0 < consecutiveFailures ?st" using assms(4) by (simp add: afterFailure_def Let_def)
  have "effective_cap p = capSeconds p" using assms(2,3)
    by (auto simp: effective_cap_def effective_base_def)
  with backoffDelay_bounds [OF f assms(1), of seed] effective_cap_bound [OF assms(1)]
  have d: "1 \<le> ?d" "?d \<le> capSeconds p" "?d \<le> 2 ^ 55" by auto
  have "nextAttemptUnix ?st = wrap64 (now + ?d)" by (simp add: afterFailure_def Let_def)
  also have "\<dots> = now + ?d"
    using d assms(5,6,7) by (intro wrap64_id) (simp add: int64_range_def)
  finally have next_at: "nextAttemptUnix ?st = now + ?d" .
  show ?thesis
  proof (cases "now + ?d \<le> t")
    case True
    then show ?thesis by (simp add: mayAttempt_def secondsUntilNextAttempt_def next_at)
  next
    case False
    then have "secondsUntilNextAttempt ?st t p = now + ?d - t"
      using remaining_small [of ?st t p] d assms(5,6,7)
      by (simp add: next_at int64_range_def)
    with False show ?thesis by (simp add: mayAttempt_def)
  qed
qed

theorem failure_throttles_witness:
  "\<not> mayAttempt (afterFailure empty_BackoffState 1000 default_BackoffPolicy 7) 1010 default_BackoffPolicy"
proof -
  let ?st = "afterFailure empty_BackoffState 1000 default_BackoffPolicy 7"
  have "40 \<le> backoffDelaySeconds (consecutiveFailures ?st) default_BackoffPolicy 7"
    by code_simp
  then show ?thesis
    using failure_throttles [of default_BackoffPolicy empty_BackoffState 1000 1010 7]
    by (simp add: sane_policy_def default_BackoffPolicy_def empty_BackoffState_def)
qed



text \<open>A persisted state reads back unchanged, given a JSON library that reads back what it prints.\<close>

theorem backoff_roundtrip:
  assumes "reads_back jparse jdump (backoff_document st)"
    and "0 \<le> consecutiveFailures st" and "int32_range (consecutiveFailures st)"
    and "int64_range (nextAttemptUnix st)" and "int64_range (lastFailureUnix st)"
    and "int64_range (lastSuccessUnix st)"
  shows "parseBackoff jparse (serializeBackoff jdump st) = Some st"
proof -
  from assms(1) obtain doc where doc: "jparse (serializeBackoff jdump st) = Some doc" "is_object doc"
    and m: "\<And>key. member doc key = member (reread (backoff_document st)) key"
    by (auto simp: reads_back_def serializeBackoff_def)
  show ?thesis
    using doc assms(2-)
    by (simp add: parseBackoff_def optional_int_def m backoff_document_def del: reread.simps)
qed

theorem backoff_roundtrip_witness:
  "parseBackoff (echo_parse (backoff_document empty_BackoffState))
     (serializeBackoff echo_dump empty_BackoffState) = Some empty_BackoffState"
  by (rule backoff_roundtrip)
    (simp_all add: empty_BackoffState_def int32_range_def int64_range_def echo_reads_back
      backoff_document_def)

end
