(* ===== verification/Manifest_Cache.thy ===== *)
theory Manifest_Cache
  imports Backoff Sha256
begin

text \<open>
  The cached manifest: \<^verbatim>\<open>core/update/manifest_cache.hpp\<close> and \<^verbatim>\<open>manifest_cache.cpp\<close>.  The metadata kept
  beside the document, and the plan that decides between the cache, a conditional request, a full request
  and waiting.
\<close>

section \<open>Types\<close>

definition kManifestCacheTtlSeconds :: int where
  "kManifestCacheTtlSeconds = 6 * 60 * 60"

definition kSupportedCacheSchema :: int where
  "kSupportedCacheSchema = 1"

datatype CacheError =
    NotJson | NotObject | UnsupportedSchemaVersion | MissingField | WrongType | InvalidDigest
  | InvalidTimestamp

record CacheMetadata =
  cache_schemaVersion :: int
  fetchedAtUnix :: int
  etag :: string
  documentSha256 :: string
  documentSize :: "64 word"
  sourceUrl :: string

datatype FetchPlan = ServeCache | Revalidate | Fetch | DeferToCache | DeferNoCache

record FetchDecision =
  fetch_plan :: FetchPlan
  ifNoneMatch :: string
  retryAfterSeconds :: int
  cacheAge :: int
  fetch_reason :: string

definition requestsNetwork :: "FetchDecision \<Rightarrow> bool" where
  "requestsNetwork d = (fetch_plan d = Revalidate \<or> fetch_plan d = Fetch)"

section \<open>Operations\<close>

definition isLowercaseHexDigest :: "string \<Rightarrow> bool" where
  "isLowercaseHexDigest s =
     (if length s \<noteq> kDigestSize * 2 then False
      else list_all (\<lambda>c. CHR ''0'' \<le> c \<and> c \<le> CHR ''9'' \<or> CHR ''a'' \<le> c \<and> c \<le> CHR ''f'') s)"

definition humanDuration :: "int \<Rightarrow> string" where
  "humanDuration seconds =
     (if seconds < 60 then show_int seconds @ ''s''
      else if seconds < 60 * 60 then show_int (seconds div 60) @ ''m''
      else show_int (seconds div (60 * 60)) @ ''h'')"

definition optional_text :: "json \<Rightarrow> string \<Rightarrow> (CacheError, string) result" where
  "optional_text doc key =
     (case member doc key of
        None \<Rightarrow> Inr []
      | Some v \<Rightarrow> if \<not> is_string v then Inl WrongType else Inr (get_string v))"

definition parseCacheMetadata :: "(string \<Rightarrow> json option) \<Rightarrow> string \<Rightarrow> (CacheError, CacheMetadata) result" where
  "parseCacheMetadata jparse txt =
     (case jparse txt of
        None \<Rightarrow> Inl NotJson
      | Some doc \<Rightarrow>
          if \<not> is_object doc then Inl NotObject
          else if member doc ''schema_version'' = None then Inl MissingField
          else if \<not> is_number_integer (field doc ''schema_version'') then Inl WrongType
          else if get_int (field doc ''schema_version'') \<noteq> kSupportedCacheSchema
            then Inl UnsupportedSchemaVersion
          else if \<not> has_keys doc [''fetched_at_unix'', ''document_sha256'', ''document_size'']
            then Inl MissingField
          else if \<not> is_number_integer (field doc ''fetched_at_unix'') then Inl WrongType
          else if get_int64 (field doc ''fetched_at_unix'') < 0 then Inl InvalidTimestamp
          else if \<not> is_string (field doc ''document_sha256'') then Inl WrongType
          else if \<not> isLowercaseHexDigest (get_string (field doc ''document_sha256'')) then Inl InvalidDigest
          else if \<not> is_number_unsigned (field doc ''document_size'') then Inl WrongType
          else
          bindE (optional_text doc ''etag'') (\<lambda>tag.
          bindE (optional_text doc ''source_url'') (\<lambda>url.
          Inr \<lparr>cache_schemaVersion = kSupportedCacheSchema,
               fetchedAtUnix = get_int64 (field doc ''fetched_at_unix''), etag = tag,
               documentSha256 = get_string (field doc ''document_sha256''),
               documentSize = get_uint64 (field doc ''document_size''), sourceUrl = url\<rparr>)))"

definition cache_document :: "CacheMetadata \<Rightarrow> json" where
  "cache_document meta =
     JObject [(''schema_version'', JInt kSupportedCacheSchema),
              (''fetched_at_unix'', JInt (fetchedAtUnix meta)),
              (''etag'', JString (etag meta)),
              (''document_sha256'', JString (documentSha256 meta)),
              (''document_size'', JUint (unat (documentSize meta))),
              (''source_url'', JString (sourceUrl meta))]"

definition serializeCacheMetadata :: "(json \<Rightarrow> string) \<Rightarrow> CacheMetadata \<Rightarrow> string" where
  "serializeCacheMetadata jdump meta = jdump (cache_document meta) @ [CHR 0x0A]"

fun describe_CacheError :: "CacheError \<Rightarrow> string" where
  "describe_CacheError NotJson = ''cache metadata is not valid JSON''"
| "describe_CacheError NotObject = ''cache metadata top level is not an object''"
| "describe_CacheError UnsupportedSchemaVersion = ''cache metadata was written by a newer build''"
| "describe_CacheError MissingField = ''cache metadata is missing a required field''"
| "describe_CacheError WrongType = ''a cache metadata field has the wrong type''"
| "describe_CacheError InvalidDigest = ''the cached document digest is not 64 lowercase hex''"
| "describe_CacheError InvalidTimestamp = ''the cache timestamp is negative''"

definition cacheMatchesDocument :: "CacheMetadata \<Rightarrow> string \<Rightarrow> bool" where
  "cacheMatchesDocument meta document =
     (if documentSize meta \<noteq> of_nat (length document) then False
      else hexOf document = documentSha256 meta)"

definition cacheAgeSeconds :: "CacheMetadata \<Rightarrow> int \<Rightarrow> int" where
  "cacheAgeSeconds meta nowUnix =
     (if fetchedAtUnix meta \<ge> nowUnix then 0 else wrap64 (nowUnix - fetchedAtUnix meta))"

definition cacheIsFresh :: "CacheMetadata \<Rightarrow> int \<Rightarrow> int \<Rightarrow> bool" where
  "cacheIsFresh meta nowUnix ttlSeconds =
     (if ttlSeconds \<le> 0 then False
      else if fetchedAtUnix meta > nowUnix then False
      else wrap64 (nowUnix - fetchedAtUnix meta) < ttlSeconds)"

definition planManifestFetch ::
  "CacheMetadata option \<Rightarrow> BackoffState \<Rightarrow> int \<Rightarrow> int \<Rightarrow> BackoffPolicy \<Rightarrow> FetchDecision" where
  "planManifestFetch meta backoff nowUnix ttlSeconds policy =
     (let age = (case meta of None \<Rightarrow> 0 | Some m \<Rightarrow> cacheAgeSeconds m nowUnix);
          wait = secondsUntilNextAttempt backoff nowUnix policy;
          out = \<lparr>fetch_plan = Fetch, ifNoneMatch = [], retryAfterSeconds = 0, cacheAge = age,
                 fetch_reason = []\<rparr>
      in
      if (case meta of None \<Rightarrow> False | Some m \<Rightarrow> cacheIsFresh m nowUnix ttlSeconds) then
        out\<lparr>fetch_plan := ServeCache,
            fetch_reason := ''cached manifest is '' @ humanDuration age @ '' old''\<rparr>
      else if wait > 0 then
        (if meta \<noteq> None then
           out\<lparr>retryAfterSeconds := wait, fetch_plan := DeferToCache,
               fetch_reason := ''backing off after '' @ show_int (consecutiveFailures backoff) @
                 '' failure(s); retrying in '' @ humanDuration wait @ '', serving a cache '' @
                 humanDuration age @ '' old''\<rparr>
         else
           out\<lparr>retryAfterSeconds := wait, fetch_plan := DeferNoCache,
               fetch_reason := ''backing off after '' @ show_int (consecutiveFailures backoff) @
                 '' failure(s); retrying in '' @ humanDuration wait\<rparr>)
      else
        (case meta of
           None \<Rightarrow> out\<lparr>fetch_plan := Fetch, fetch_reason := ''no cached manifest''\<rparr>
         | Some m \<Rightarrow>
             if etag m \<noteq> [] then
               out\<lparr>fetch_plan := Revalidate, ifNoneMatch := etag m,
                   fetch_reason := ''cached manifest is '' @ humanDuration age @ '' old; revalidating''\<rparr>
             else
               out\<lparr>fetch_plan := Fetch,
                   fetch_reason := ''cached manifest has no etag; fetching''\<rparr>))"

section \<open>Facts\<close>

lemma plan_request_iff:
  "requestsNetwork (planManifestFetch meta st now ttl p) \<longleftrightarrow>
     (\<forall>m. meta = Some m \<longrightarrow> \<not> cacheIsFresh m now ttl) \<and> secondsUntilNextAttempt st now p \<le> 0"
  by (auto simp: requestsNetwork_def planManifestFetch_def Let_def split: option.splits)

lemma seconds_nonneg:
  assumes "int64_range (nextAttemptUnix st - now)"
  shows "0 \<le> secondsUntilNextAttempt st now p"
  using assms by (auto simp: secondsUntilNextAttempt_def Let_def)

lemma toHex_lowercase: "length d = kDigestSize \<Longrightarrow> isLowercaseHexDigest (toHex d)"
proof -
  have "list_all (\<lambda>c. CHR ''0'' \<le> c \<and> c \<le> CHR ''9'' \<or> CHR ''a'' \<le> c \<and> c \<le> CHR ''f'') (toHex d)"
  proof (induction d)
    case (Cons b d)
    have digits: "\<forall>c\<in>set kHexDigits. CHR ''0'' \<le> c \<and> c \<le> CHR ''9'' \<or> CHR ''a'' \<le> c \<and> c \<le> CHR ''f''"
      by code_simp
    have "kHexDigits ! unat (x AND 0x0F) \<in> set kHexDigits" for x :: byte
      using nibble_less [of x] by (intro nth_mem) (simp add: kHexDigits_def)
    then show ?case unfolding toHex_Cons list.pred_inject using digits Cons by blast
  qed simp
  then show "length d = kDigestSize \<Longrightarrow> ?thesis" by (simp add: isLowercaseHexDigest_def)
qed

text \<open>The metadata kept for a document that was just received.\<close>

definition cache_entry :: "int \<Rightarrow> string \<Rightarrow> string \<Rightarrow> string \<Rightarrow> CacheMetadata" where
  "cache_entry now tag url document =
     \<lparr>cache_schemaVersion = kSupportedCacheSchema, fetchedAtUnix = now, etag = tag,
      documentSha256 = hexOf document, documentSize = of_nat (length document), sourceUrl = url\<rparr>"

lemma hexOf_eq_iff: "hexOf a = hexOf b \<longleftrightarrow> sha256_spec (bytes_of a) = sha256_spec (bytes_of b)"
proof
  assume "hexOf a = hexOf b"
  then have "fromHex_loop (toHex (sha256_of a)) = fromHex_loop (toHex (sha256_of b))" by (simp add: hexOf_def)
  then show "sha256_spec (bytes_of a) = sha256_spec (bytes_of b)"
    by (simp add: fromHex_loop_toHex sha256_of_eq)
qed (simp add: hexOf_def sha256_of_eq)

lemma cache_member:
  assumes "\<forall>key. member doc' key = member (reread (cache_document meta)) key"
  shows "member doc' ''schema_version'' = Some (reread (JInt kSupportedCacheSchema))"
    "member doc' ''fetched_at_unix'' = Some (reread (JInt (fetchedAtUnix meta)))"
    "member doc' ''etag'' = Some (JString (etag meta))"
    "member doc' ''document_sha256'' = Some (JString (documentSha256 meta))"
    "member doc' ''document_size'' = Some (JUint (unat (documentSize meta)))"
    "member doc' ''source_url'' = Some (JString (sourceUrl meta))"
  using assms by (simp_all add: cache_document_def)

lemma parseCacheMetadata_roundtrip:
  assumes "reads_back jparse jdump (cache_document meta)" and "0 \<le> fetchedAtUnix meta"
    and "int64_range (fetchedAtUnix meta)" and "isLowercaseHexDigest (documentSha256 meta)"
    and "cache_schemaVersion meta = kSupportedCacheSchema"
  shows "parseCacheMetadata jparse (serializeCacheMetadata jdump meta) = Inr meta"
proof -
  from assms(1) obtain doc' where doc': "jparse (serializeCacheMetadata jdump meta) = Some doc'"
    "is_object doc'" and all: "\<forall>key. member doc' key = member (reread (cache_document meta)) key"
    by (auto simp: reads_back_def serializeCacheMetadata_def)
  note mem = cache_member [OF all]
  have schema: "get_int (reread (JInt kSupportedCacheSchema)) = kSupportedCacheSchema"
    by (simp add: kSupportedCacheSchema_def int32_range_def)
  show ?thesis
    using assms(2-5) schema
    by (simp add: parseCacheMetadata_def doc' mem field_def has_keys_def optional_text_def
        del: reread.simps)
qed

section \<open>Properties\<close>





end
