(* ===== verification/Url.thy ===== *)
theory Url
  imports Manifest
begin

text \<open>
  Addresses: \<^verbatim>\<open>core/net/url.hpp\<close> and \<^verbatim>\<open>url.cpp\<close>.  The parser, the query builder and the header form of an
  entity tag.
\<close>

section \<open>Operations\<close>

record ParsedUrl =
  url_scheme :: string
  url_host :: string
  url_port :: "16 word"
  url_path :: string
  url_query :: string

text \<open>\<^verbatim>\<open>find\<close> for a text and for a character.\<close>

fun find_text :: "string \<Rightarrow> string \<Rightarrow> nat option" where
  "find_text pat [] = (if pat = [] then Some 0 else None)"
| "find_text pat (c # cs) =
     (if take (length pat) (c # cs) = pat then Some 0 else map_option Suc (find_text pat cs))"

definition find_char :: "char \<Rightarrow> string \<Rightarrow> nat option" where
  "find_char c s = (if c \<in> set s then Some (length (takeWhile (\<lambda>x. x \<noteq> c) s)) else None)"

text \<open>\<^verbatim>\<open>std::from_chars\<close> into 16 bits with the whole text consumed.\<close>

definition port_from_chars :: "string \<Rightarrow> 16 word option" where
  "port_from_chars s =
     (if s \<noteq> [] \<and> list_all is_digit s \<and> num_val s \<le> 65535 then Some (of_nat (num_val s)) else None)"

definition default_port :: "string \<Rightarrow> 16 word" where
  "default_port scheme = (if scheme = ''http'' then 80 else if scheme = ''https'' then 443 else 0)"

definition parse_authority :: "string \<Rightarrow> string \<Rightarrow> (string \<times> 16 word) option" where
  "parse_authority scheme hostAndPort =
     (case find_char CHR '':'' hostAndPort of
        Some portPos \<Rightarrow>
          map_option (Pair (take portPos hostAndPort)) (port_from_chars (drop (portPos + 1) hostAndPort))
      | None \<Rightarrow> Some (hostAndPort, default_port scheme))"

definition split_path :: "string \<Rightarrow> nat option \<Rightarrow> nat option \<Rightarrow> string \<times> string" where
  "split_path remaining pathStart queryStart =
     (case pathStart of
        Some p \<Rightarrow>
          (case queryStart of
             Some q \<Rightarrow>
               if q > p then (take (q - p) (drop p remaining), drop (q + 1) remaining)
               else (drop p remaining, [])
           | None \<Rightarrow> (drop p remaining, []))
      | None \<Rightarrow>
          (case queryStart of
             Some q \<Rightarrow> (''/'', drop (q + 1) remaining)
           | None \<Rightarrow> (''/'', [])))"

definition parseUrl :: "string \<Rightarrow> ParsedUrl option" where
  "parseUrl url =
     (if url = [] then None
      else (case find_text ''://'' url of
        None \<Rightarrow> None
      | Some schemeEnd \<Rightarrow>
          if schemeEnd = 0 then None
          else
            (let scheme = take schemeEnd url;
                 remaining = drop (schemeEnd + 3) url;
                 pathStart = find_char CHR ''/'' remaining;
                 queryStart = find_char CHR ''?'' remaining;
                 hostEnd = (case pathStart of Some p \<Rightarrow> p
                   | None \<Rightarrow> (case queryStart of Some q \<Rightarrow> q | None \<Rightarrow> length remaining));
                 hostAndPort = take hostEnd remaining
             in
             if remaining = [] then None
             else if hostAndPort = [] then None
             else (case parse_authority scheme hostAndPort of
               None \<Rightarrow> None
             | Some (host, port) \<Rightarrow>
                 (case split_path remaining pathStart queryStart of (path, query) \<Rightarrow>
                    Some \<lparr>url_scheme = scheme, url_host = host, url_port = port, url_path = path,
                          url_query = query\<rparr>)))))"

definition buildQuery :: "(string \<times> string) list \<Rightarrow> string" where
  "buildQuery params =
     (if params = [] then [] else ''?'' @ join_with CHR ''&'' (map (\<lambda>(k, v). k @ ''='' @ v) params))"

definition formatIfNoneMatch :: "string \<Rightarrow> string" where
  "formatIfNoneMatch tag =
     (if tag = [] then []
      else if hd tag = CHR 0x22 \<and> last tag = CHR 0x22 then tag
      else [CHR 0x22] @ tag @ [CHR 0x22])"

section \<open>Parsing a printed address\<close>

lemma find_char_first: "c \<notin> set a \<Longrightarrow> find_char c (a @ c # b) = Some (length a)"
  by (simp add: find_char_def takeWhile_append takeWhile_free)

lemma find_char_None: "c \<notin> set s \<Longrightarrow> find_char c s = None"
  by (simp add: find_char_def)

lemma find_text_scheme: "CHR '':'' \<notin> set a \<Longrightarrow> find_text ''://'' (a @ ''://'' @ b) = Some (length a)"
  by (induction a) (auto simp: take_Cons')

lemma port_show: "n \<le> 65535 \<Longrightarrow> port_from_chars (show_nat n) = Some (of_nat n)"
  by (simp add: port_from_chars_def list_all_is_digit_show_nat num_val_show_nat)

lemma show_nat_no_sep: "CHR ''/'' \<notin> set (show_nat n) \<and> CHR ''?'' \<notin> set (show_nat n)"
  using list_all_is_digit_show_nat [of n] by (auto simp: list_all_iff is_digit_iff less_eq_char_def)

text \<open>An address with a path: the authority ends at the first slash.\<close>

lemma parseUrl_path:
  assumes "scheme \<noteq> []" and "CHR '':'' \<notin> set scheme" and "authority \<noteq> []" and "CHR ''/'' \<notin> set authority"
    and "parse_authority scheme authority = Some (host, port)" and "CHR ''?'' \<notin> set authority"
  shows "parseUrl (scheme @ ''://'' @ authority @ CHR ''/'' # rest) =
    Some \<lparr>url_scheme = scheme, url_host = host, url_port = port,
      url_path = takeWhile (\<lambda>c. c \<noteq> CHR ''?'') (CHR ''/'' # rest),
      url_query = drop 1 (dropWhile (\<lambda>c. c \<noteq> CHR ''?'') rest)\<rparr>"
proof -
  let ?rem = "authority @ CHR ''/'' # rest"
  have p: "find_char CHR ''/'' ?rem = Some (length authority)" by (rule find_char_first [OF assms(4)])
  have s: "find_text ''://'' (scheme @ ''://'' @ ?rem) = Some (length scheme)"
    by (rule find_text_scheme [OF assms(2)])
  have "split_path ?rem (Some (length authority)) (find_char CHR ''?'' ?rem) =
    (takeWhile (\<lambda>c. c \<noteq> CHR ''?'') (CHR ''/'' # rest), drop 1 (dropWhile (\<lambda>c. c \<noteq> CHR ''?'') rest))"
  proof (cases "CHR ''?'' \<in> set rest")
    case False
    then show ?thesis
      using assms(6) by (simp add: split_path_def find_char_None takeWhile_free dropWhile_free)
  next
    case True
    then obtain a b where ab: "rest = a @ CHR ''?'' # b" "CHR ''?'' \<notin> set a" by (auto dest: split_list_first)
    have "find_char CHR ''?'' ((authority @ CHR ''/'' # a) @ CHR ''?'' # b) =
        Some (length (authority @ CHR ''/'' # a))"
      by (rule find_char_first) (use assms(6) ab(2) in simp)
    then show ?thesis
      using ab by (simp add: split_path_def takeWhile_append takeWhile_free dropWhile_append dropWhile_free)
  qed
  then show ?thesis using assms(1,3,5) p s by (simp add: parseUrl_def Let_def)
qed

lemma authority_plain: "CHR '':'' \<notin> set host \<Longrightarrow> parse_authority scheme host = Some (host, default_port scheme)"
  by (simp add: parse_authority_def find_char_None)

lemma authority_port:
  "CHR '':'' \<notin> set host \<Longrightarrow> n \<le> 65535 \<Longrightarrow>
   parse_authority scheme (host @ CHR '':'' # show_nat n) = Some (host, of_nat n)"
  by (simp add: parse_authority_def find_char_first port_show)

section \<open>Properties\<close>

text \<open>C36: Every asset address of an accepted manifest is an https address of the host \<^verbatim>\<open>github.com\<close> at port 443,
  as the program's own parser reads it.\<close>

theorem release_url_host:
  assumes "isReleaseUrl url"
  shows "\<exists>u. parseUrl url = Some u \<and> url_scheme u = ''https'' \<and> url_host u = ''github.com'' \<and> url_port u = 443"
proof -
  obtain rest where url: "url = ''https'' @ ''://'' @ ''github.com'' @ CHR ''/'' # rest"
    using assms unfolding release_url_iff by auto
  have "parse_authority ''https'' ''github.com'' = Some (''github.com'', 443)" by code_simp
  then show ?thesis unfolding url by (subst parseUrl_path) simp_all
qed

theorem release_url_host_witness:
  "\<exists>u. parseUrl ''https://github.com/o/r/n.nro?x=:1'' = Some u \<and> url_host u = ''github.com''"
proof -
  have "isReleaseUrl ''https://github.com/o/r/n.nro?x=:1''" by code_simp
  then show ?thesis using release_url_host [of "''https://github.com/o/r/n.nro?x=:1''"] by blast
qed

text \<open>An address printed from its parts, with an explicit port and a path, is parsed into exactly these parts.\<close>

theorem parseUrl_roundtrip:
  assumes "scheme \<noteq> []" and "CHR '':'' \<notin> set scheme" and "n \<le> 65535"
    and "set host \<inter> {CHR '':'', CHR ''/'', CHR ''?''} = {}" and "CHR ''?'' \<notin> set path"
  shows "parseUrl (scheme @ ''://'' @ (host @ CHR '':'' # show_nat n) @ CHR ''/'' # path @ CHR ''?'' # query) =
    Some \<lparr>url_scheme = scheme, url_host = host, url_port = of_nat n, url_path = CHR ''/'' # path,
      url_query = query\<rparr>"
  using assms show_nat_no_sep [of n]
  by (subst parseUrl_path [OF assms(1,2) _ _ authority_port])
    (auto simp: takeWhile_append takeWhile_free dropWhile_append dropWhile_free)

theorem parseUrl_roundtrip_witness:
  "parseUrl ''http://localhost:8080/api/v1?page=2'' =
    Some \<lparr>url_scheme = ''http'', url_host = ''localhost'', url_port = 8080, url_path = ''/api/v1'',
      url_query = ''page=2''\<rparr>"
  using parseUrl_roundtrip [of "''http''" 8080 "''localhost''" "''api/v1''" "''page=2''"]
  by (simp add: show_nat.simps digit_char_eval)

end
