(* ===== verification/Firmware_Set.thy ===== *)
theory Firmware_Set
  imports Prelude
begin

text \<open>
  What counts as firmware: \<^verbatim>\<open>core/firmware/firmware_set.hpp\<close> and \<^verbatim>\<open>firmware_set.cpp\<close>.  The scan decides
  whether the firmware directory may be cleared.
\<close>

record FirmwareDirectoryScan =
  firmwareFiles :: nat
  unexpected :: "string list"

definition onlyFirmware :: "FirmwareDirectoryScan \<Rightarrow> bool" where
  "onlyFirmware scan = (unexpected scan = [])"

definition scan_empty :: "FirmwareDirectoryScan \<Rightarrow> bool" where
  "scan_empty scan = (firmwareFiles scan = 0 \<and> unexpected scan = [])"

definition lower_ascii :: "char \<Rightarrow> char" where
  "lower_ascii a = (if CHR ''A'' \<le> a \<and> a \<le> CHR ''Z'' then char_of (of_char a + 32 :: nat) else a)"

definition endsWithNoCase :: "string \<Rightarrow> string \<Rightarrow> bool" where
  "endsWithNoCase txt suf =
     (if length txt < length suf then False
      else map lower_ascii (drop (length txt - length suf) txt) = suf)"

definition baseName :: "string \<Rightarrow> string" where
  "baseName path = rev (takeWhile (\<lambda>c. c \<noteq> CHR ''/'') (rev path))"

definition isFirmwareContent :: "string \<Rightarrow> bool" where
  "isFirmwareContent name =
     (if length name \<le> length ''.nca'' then False else endsWithNoCase name ''.nca'')"

definition scan_step :: "FirmwareDirectoryScan \<Rightarrow> string \<Rightarrow> FirmwareDirectoryScan" where
  "scan_step out relative =
     (if isFirmwareContent (baseName relative) then out\<lparr>firmwareFiles := firmwareFiles out + 1\<rparr>
      else out\<lparr>unexpected := unexpected out @ [relative]\<rparr>)"

definition scanFirmwareDirectory :: "string list \<Rightarrow> FirmwareDirectoryScan" where
  "scanFirmwareDirectory names =
     (let out = foldl scan_step \<lparr>firmwareFiles = 0, unexpected = []\<rparr> names
      in out\<lparr>unexpected := sort (unexpected out)\<rparr>)"

definition looksLikeFirmware :: "string list \<Rightarrow> bool" where
  "looksLikeFirmware names =
     (let scan = scanFirmwareDirectory names in firmwareFiles scan > 0 \<and> onlyFirmware scan)"

lemma scan_steps:
  "foldl scan_step out names =
     \<lparr>firmwareFiles = firmwareFiles out + length (filter (\<lambda>n. isFirmwareContent (baseName n)) names),
      unexpected = unexpected out @ filter (\<lambda>n. \<not> isFirmwareContent (baseName n)) names\<rparr>"
  by (induction names arbitrary: out) (auto simp: scan_step_def)

lemma scan_eq:
  "scanFirmwareDirectory names =
     \<lparr>firmwareFiles = length (filter (\<lambda>n. isFirmwareContent (baseName n)) names),
      unexpected = sort (filter (\<lambda>n. \<not> isFirmwareContent (baseName n)) names)\<rparr>"
  by (simp add: scanFirmwareDirectory_def Let_def scan_steps)

lemma onlyFirmware_iff:
  "onlyFirmware (scanFirmwareDirectory names) \<longleftrightarrow> (\<forall>n\<in>set names. isFirmwareContent (baseName n))"
  by (auto simp: onlyFirmware_def scan_eq filter_empty_conv) (metis sort_key_simps(1) filter_empty_conv set_empty set_sort)

lemma looksLikeFirmware_iff:
  "looksLikeFirmware names \<longleftrightarrow> names \<noteq> [] \<and> (\<forall>n\<in>set names. isFirmwareContent (baseName n))"
proof (cases "\<forall>n\<in>set names. isFirmwareContent (baseName n)")
  case True
  then have "filter (\<lambda>n. isFirmwareContent (baseName n)) names = names" by simp
  with True show ?thesis by (simp add: looksLikeFirmware_def onlyFirmware_def scan_eq Let_def)
next
  case False
  then show ?thesis by (auto simp: looksLikeFirmware_def onlyFirmware_iff Let_def)
qed

end
