(* ===== verification/Merge_Marker.thy ===== *)
theory Merge_Marker
  imports Handoff
begin

text \<open>
  The record of a pack installation in progress: \<^verbatim>\<open>core/cfw/merge_marker.hpp\<close> and \<^verbatim>\<open>merge_marker.cpp\<close>.
  A marker on the card at startup means that a merge did not finish; recovery deletes from the directories
  it names.
\<close>

section \<open>Types\<close>

definition kSupportedMergeMarkerSchema :: int where
  "kSupportedMergeMarkerSchema = 1"

datatype MergeMarkerError =
    NotJson | NotObject | UnsupportedSchemaVersion | MissingField | WrongType | RelativePath
  | PathTraversal | InvalidId

record MergeMarker =
  mm_schemaVersion :: int
  mm_createdAtUnix :: int
  itemId :: string
  itemName :: string
  stagingDir :: string
  destinationRoot :: string
  backupDir :: string

datatype MergeRecovery = MergeNothing | MergeRollBack | CleanUpOnly | MergeUnrecoverable

record MergePresence =
  mp_marker :: bool
  mp_staging :: bool
  mp_backup :: bool
  mp_destination :: bool

record MergeRecoveryDecision =
  merge_action :: MergeRecovery
  merge_reason :: string

section \<open>Operations\<close>

definition marker_isSafeAbsolutePath :: "string \<Rightarrow> bool" where
  "marker_isSafeAbsolutePath path =
     (if path = [] \<or> hd path \<noteq> CHR ''/'' then False
      else if has_dotdot path then False
      else CHR 0x5C \<notin> set path)"

definition isIdChar :: "char \<Rightarrow> bool" where
  "isIdChar c =
     (CHR ''a'' \<le> c \<and> c \<le> CHR ''z'' \<or> CHR ''0'' \<le> c \<and> c \<le> CHR ''9'' \<or> c = CHR ''-'' \<or> c = CHR ''_'' \<or>
      c = CHR ''.'')"

definition marker_isValidId :: "string \<Rightarrow> bool" where
  "marker_isValidId ident =
     (if ident = [] \<or> length ident > 64 then False
      else if \<not> list_all isIdChar ident then False
      else hd ident \<noteq> CHR ''.'')"

definition marker_envelope :: "json option \<Rightarrow> (MergeMarkerError, json) result" where
  "marker_envelope parsed =
     (case parsed of
        None \<Rightarrow> Inl NotJson
      | Some doc \<Rightarrow>
          if \<not> is_object doc then Inl NotObject
          else if member doc ''schema_version'' = None then Inl MissingField
          else if \<not> is_number_integer (field doc ''schema_version'') then Inl WrongType
          else if get_int (field doc ''schema_version'') \<noteq> kSupportedMergeMarkerSchema
            then Inl UnsupportedSchemaVersion
          else if \<not> has_keys doc [''created_at_unix'', ''item_id'', ''staging_dir'', ''destination_root'',
              ''backup_dir''] then Inl MissingField
          else Inr doc)"

definition marker_id :: "json \<Rightarrow> (MergeMarkerError, string) result" where
  "marker_id doc =
     (if \<not> is_string (field doc ''item_id'') then Inl WrongType
      else if \<not> marker_isValidId (get_string (field doc ''item_id'')) then Inl InvalidId
      else Inr (get_string (field doc ''item_id'')))"

definition marker_name :: "json \<Rightarrow> (MergeMarkerError, string) result" where
  "marker_name doc =
     (case member doc ''item_name'' of
        None \<Rightarrow> Inr []
      | Some v \<Rightarrow> if \<not> is_string v then Inl WrongType else Inr (get_string v))"

definition marker_dir :: "json \<Rightarrow> string \<Rightarrow> (MergeMarkerError, string) result" where
  "marker_dir doc key =
     (if \<not> is_string (field doc key) then Inl WrongType
      else
        (let p = get_string (field doc key) in
         if p = [] \<or> hd p \<noteq> CHR ''/'' then Inl RelativePath
         else if \<not> marker_isSafeAbsolutePath p then Inl PathTraversal
         else Inr p))"

definition parseMergeMarker :: "(string \<Rightarrow> json option) \<Rightarrow> string \<Rightarrow> (MergeMarkerError, MergeMarker) result" where
  "parseMergeMarker jparse txt =
     bindE (marker_envelope (jparse txt)) (\<lambda>doc.
     if \<not> is_number_integer (field doc ''created_at_unix'') then Inl WrongType
     else
     bindE (marker_id doc) (\<lambda>ident.
     bindE (marker_name doc) (\<lambda>name.
     bindE (marker_dir doc ''staging_dir'') (\<lambda>staging.
     bindE (marker_dir doc ''destination_root'') (\<lambda>dest.
     bindE (marker_dir doc ''backup_dir'') (\<lambda>backup.
     Inr \<lparr>mm_schemaVersion = kSupportedMergeMarkerSchema,
          mm_createdAtUnix = get_int64 (field doc ''created_at_unix''), itemId = ident, itemName = name,
          stagingDir = staging, destinationRoot = dest, backupDir = backup\<rparr>))))))"

definition marker_document :: "MergeMarker \<Rightarrow> json" where
  "marker_document marker =
     JObject [(''schema_version'', JInt (mm_schemaVersion marker)),
              (''created_at_unix'', JInt (mm_createdAtUnix marker)),
              (''item_id'', JString (itemId marker)),
              (''item_name'', JString (itemName marker)),
              (''staging_dir'', JString (stagingDir marker)),
              (''destination_root'', JString (destinationRoot marker)),
              (''backup_dir'', JString (backupDir marker))]"

definition serializeMergeMarker :: "(json \<Rightarrow> string) \<Rightarrow> MergeMarker \<Rightarrow> string" where
  "serializeMergeMarker jdump marker = jdump (marker_document marker) @ [CHR 0x0A]"

fun describe_MergeMarkerError :: "MergeMarkerError \<Rightarrow> string" where
  "describe_MergeMarkerError NotJson = ''the merge marker is not valid JSON''"
| "describe_MergeMarkerError NotObject = ''the merge marker top level is not an object''"
| "describe_MergeMarkerError UnsupportedSchemaVersion =
     ''the merge marker is newer than this version understands''"
| "describe_MergeMarkerError MissingField = ''the merge marker is missing a required field''"
| "describe_MergeMarkerError WrongType = ''a merge marker field has the wrong type''"
| "describe_MergeMarkerError RelativePath = ''a merge marker path is not absolute''"
| "describe_MergeMarkerError PathTraversal = ''a merge marker path contains a parent reference''"
| "describe_MergeMarkerError InvalidId = ''the merge marker item id is empty or malformed''"

definition decideMergeRecovery :: "MergeMarker option \<Rightarrow> MergePresence \<Rightarrow> MergeRecoveryDecision" where
  "decideMergeRecovery marker present =
     (if \<not> mp_marker present then
        \<lparr>merge_action = MergeNothing, merge_reason = ''no merge was in flight''\<rparr>
      else (case marker of
        None \<Rightarrow>
          \<lparr>merge_action = MergeUnrecoverable,
           merge_reason = ''a merge was interrupted but its marker could not be read''\<rparr>
      | Some m \<Rightarrow>
          if mp_backup present then
            \<lparr>merge_action = MergeRollBack,
             merge_reason = ''restoring what '' @ [CHR 0x27] @ (if itemName m = [] then itemId m else itemName m) @
               [CHR 0x27] @ '' replaced''\<rparr>
          else if mp_staging present then
            \<lparr>merge_action = CleanUpOnly,
             merge_reason = ''the merge stopped before it changed anything; clearing the staging area''\<rparr>
          else
            \<lparr>merge_action = CleanUpOnly,
             merge_reason = ''nothing of the interrupted merge remains; clearing the marker''\<rparr>))"

fun describe_MergeRecovery :: "MergeRecovery \<Rightarrow> string" where
  "describe_MergeRecovery MergeNothing = ''nothing to do''"
| "describe_MergeRecovery MergeRollBack = ''undo an interrupted installation''"
| "describe_MergeRecovery CleanUpOnly = ''clear an abandoned staging area''"
| "describe_MergeRecovery MergeUnrecoverable = ''an interrupted installation cannot be undone automatically''"

section \<open>Well-formed markers\<close>

definition wf_marker :: "MergeMarker \<Rightarrow> bool" where
  "wf_marker m =
     (mm_schemaVersion m = kSupportedMergeMarkerSchema \<and> int64_range (mm_createdAtUnix m) \<and>
      marker_isValidId (itemId m) \<and> marker_isSafeAbsolutePath (stagingDir m) \<and>
      marker_isSafeAbsolutePath (destinationRoot m) \<and> marker_isSafeAbsolutePath (backupDir m))"

lemma marker_safe_eq: "marker_isSafeAbsolutePath = isSafeAbsolutePath"
  by (rule ext) (simp add: marker_isSafeAbsolutePath_def isSafeAbsolutePath_def)

lemma marker_dir_Inr: "marker_dir doc key = Inr p \<Longrightarrow> marker_isSafeAbsolutePath p"
  by (auto simp: marker_dir_def Let_def split: if_splits)

lemma marker_id_Inr: "marker_id doc = Inr i \<Longrightarrow> marker_isValidId i"
  by (auto simp: marker_id_def split: if_splits)

lemma parseMergeMarker_wf: "parseMergeMarker jparse txt = Inr m \<Longrightarrow> wf_marker m"
  by (auto simp: parseMergeMarker_def bindE_Inr_iff wf_marker_def get_int64_range
      dest!: marker_dir_Inr marker_id_Inr split: if_splits)

lemma marker_member:
  assumes "\<forall>key. member doc' key = member (reread (marker_document m)) key"
  shows "member doc' ''schema_version'' = Some (reread (JInt (mm_schemaVersion m)))"
    "member doc' ''created_at_unix'' = Some (reread (JInt (mm_createdAtUnix m)))"
    "member doc' ''item_id'' = Some (JString (itemId m))"
    "member doc' ''item_name'' = Some (JString (itemName m))"
    "member doc' ''staging_dir'' = Some (JString (stagingDir m))"
    "member doc' ''destination_root'' = Some (JString (destinationRoot m))"
    "member doc' ''backup_dir'' = Some (JString (backupDir m))"
  using assms by (simp_all add: marker_document_def)

lemma marker_dir_string:
  "field doc key = JString p \<Longrightarrow> marker_isSafeAbsolutePath p \<Longrightarrow> marker_dir doc key = Inr p"
  by (auto simp: marker_dir_def marker_isSafeAbsolutePath_def split: if_splits)

lemma parseMergeMarker_roundtrip:
  assumes "reads_back jparse jdump (marker_document m)" and "wf_marker m"
  shows "parseMergeMarker jparse (serializeMergeMarker jdump m) = Inr m"
proof -
  from assms(1) obtain doc' where doc': "jparse (serializeMergeMarker jdump m) = Some doc'"
    "is_object doc'" and all: "\<forall>key. member doc' key = member (reread (marker_document m)) key"
    by (auto simp: reads_back_def serializeMergeMarker_def)
  note mem = marker_member [OF all]
  have schema: "get_int (reread (JInt (mm_schemaVersion m))) = kSupportedMergeMarkerSchema"
    using assms(2) by (simp add: wf_marker_def kSupportedMergeMarkerSchema_def int32_range_def)
  have "marker_envelope (jparse (serializeMergeMarker jdump m)) = Inr doc'"
    using doc' schema by (simp add: marker_envelope_def mem field_def has_keys_def del: reread.simps)
  moreover have "marker_id doc' = Inr (itemId m)" "marker_name doc' = Inr (itemName m)"
    using assms(2) by (simp_all add: marker_id_def marker_name_def field_def mem wf_marker_def)
  moreover have "marker_dir doc' ''staging_dir'' = Inr (stagingDir m)"
    "marker_dir doc' ''destination_root'' = Inr (destinationRoot m)"
    "marker_dir doc' ''backup_dir'' = Inr (backupDir m)"
    using assms(2) by (auto simp: field_def mem wf_marker_def intro!: marker_dir_string)
  moreover have "get_int64 (field doc' ''created_at_unix'') = mm_createdAtUnix m"
    "is_number_integer (field doc' ''created_at_unix'')"
    using assms(2) by (simp_all add: field_def mem wf_marker_def del: reread.simps)
  ultimately show ?thesis using assms(2) by (simp add: parseMergeMarker_def wf_marker_def)
qed

section \<open>Properties\<close>

text \<open>C35: A marker read from the card is well formed whatever the text, so recovery only ever works in absolute
  directories without parent references; and a well-formed marker is read back as it was written.\<close>

theorem marker_safe_roundtrip:
  "(parseMergeMarker jparse txt = Inr m \<longrightarrow> wf_marker m) \<and>
   (wf_marker m \<and> reads_back jparse jdump (marker_document m) \<longrightarrow>
      parseMergeMarker jparse (serializeMergeMarker jdump m) = Inr m)"
  using parseMergeMarker_wf parseMergeMarker_roundtrip by blast

definition sample_marker :: MergeMarker where
  "sample_marker =
     \<lparr>mm_schemaVersion = 1, mm_createdAtUnix = 1700000000, itemId = ''atmosphere-pack'',
      itemName = ''Atmosphere'', stagingDir = ''/config/nsx/cfw/staging'', destinationRoot = ''/'',
      backupDir = ''/config/nsx/cfw/backup''\<rparr>"

theorem marker_safe_roundtrip_witness:
  "wf_marker sample_marker \<and>
   parseMergeMarker (echo_parse (marker_document sample_marker)) (serializeMergeMarker echo_dump sample_marker) =
     Inr sample_marker"
proof -
  have "wf_marker sample_marker" by code_simp
  then show ?thesis
    using marker_safe_roundtrip [of "echo_parse (marker_document sample_marker)" _ sample_marker echo_dump]
    by (simp add: echo_reads_back marker_document_def)
qed

end
