(* ===== verification/Catalog.thy ===== *)
theory Catalog
  imports Semver Sha256 Json_Value
begin

text \<open>
  The content catalogue: \<^verbatim>\<open>core/catalog/catalog.hpp\<close> and \<^verbatim>\<open>catalog.cpp\<close>.  A catalogue names kinds and
  destinations from closed sets; entries of unknown kind or destination are dropped, every other defect
  rejects the whole catalogue.
\<close>

section \<open>Types\<close>

definition kSupportedCatalogSchema :: int where
  "kSupportedCatalogSchema = 1"

datatype ContentKind = CfwPack | Firmware | Tool | Cheats | Translation | Theme

datatype InstallTarget = SdRoot | AtmosphereContents | Bootloader | FirmwareStaging | SwitchApps | Themes

datatype CatalogError =
    NotJson | NotObject | UnsupportedSchemaVersion | MissingField | WrongType | InvalidId | DuplicateId
  | InsecureUrl | InvalidDigest | InvalidSize | NoItems

record CatalogItem =
  item_id :: string
  item_name :: string
  item_summary :: string
  item_kind :: ContentKind
  item_target :: InstallTarget
  item_versionText :: string
  item_version :: "SemVer option"
  item_url :: string
  item_size :: "64 word"
  item_sha256 :: Digest
  honourPreserveRules :: bool
  item_minAtmosphere :: "SemVer option"
  item_notesUrl :: string

record Catalog =
  cat_schemaVersion :: int
  cat_updatedAt :: string
  cat_items :: "CatalogItem list"

section \<open>Operations\<close>

definition parseContentKind :: "string \<Rightarrow> ContentKind option" where
  "parseContentKind s =
     (if s = ''cfw-pack'' then Some CfwPack
      else if s = ''firmware'' then Some Firmware
      else if s = ''tool'' then Some Tool
      else if s = ''cheats'' then Some Cheats
      else if s = ''translation'' then Some Translation
      else if s = ''theme'' then Some Theme
      else None)"

definition parseTarget :: "string \<Rightarrow> InstallTarget option" where
  "parseTarget s =
     (if s = ''sd-root'' then Some SdRoot
      else if s = ''atmosphere-contents'' then Some AtmosphereContents
      else if s = ''bootloader'' then Some Bootloader
      else if s = ''firmware-staging'' then Some FirmwareStaging
      else if s = ''switch-apps'' then Some SwitchApps
      else if s = ''themes'' then Some Themes
      else None)"

definition isValidId :: "string \<Rightarrow> bool" where
  "isValidId ident =
     (if ident = [] \<or> length ident > 64 then False
      else if \<not> list_all (\<lambda>c. CHR ''a'' \<le> c \<and> c \<le> CHR ''z'' \<or> CHR ''0'' \<le> c \<and> c \<le> CHR ''9'' \<or>
                c = CHR ''-'' \<or> c = CHR ''_'' \<or> c = CHR ''.'') ident then False
      else hd ident \<noteq> CHR ''.'')"

definition isHttpsUrl :: "string \<Rightarrow> bool" where
  "isHttpsUrl url = (length url > length ''https://'' \<and> take (length ''https://'') url = ''https://'')"

fun toString_ContentKind :: "ContentKind \<Rightarrow> string" where
  "toString_ContentKind CfwPack = ''cfw-pack''"
| "toString_ContentKind Firmware = ''firmware''"
| "toString_ContentKind Tool = ''tool''"
| "toString_ContentKind Cheats = ''cheats''"
| "toString_ContentKind Translation = ''translation''"
| "toString_ContentKind Theme = ''theme''"

fun toString_InstallTarget :: "InstallTarget \<Rightarrow> string" where
  "toString_InstallTarget SdRoot = ''sd-root''"
| "toString_InstallTarget AtmosphereContents = ''atmosphere-contents''"
| "toString_InstallTarget Bootloader = ''bootloader''"
| "toString_InstallTarget FirmwareStaging = ''firmware-staging''"
| "toString_InstallTarget SwitchApps = ''switch-apps''"
| "toString_InstallTarget Themes = ''themes''"

fun describe_CatalogError :: "CatalogError \<Rightarrow> string" where
  "describe_CatalogError NotJson = ''the catalogue is not valid JSON''"
| "describe_CatalogError NotObject = ''the catalogue top level is not an object''"
| "describe_CatalogError UnsupportedSchemaVersion = ''the catalogue is newer than this version understands''"
| "describe_CatalogError MissingField = ''a required catalogue field is missing''"
| "describe_CatalogError WrongType = ''a catalogue field has the wrong type''"
| "describe_CatalogError InvalidId = ''an item id is empty or contains unexpected characters''"
| "describe_CatalogError DuplicateId = ''two catalogue items share an id''"
| "describe_CatalogError InsecureUrl = ''an item url is not https''"
| "describe_CatalogError InvalidDigest = ''an item digest is not 64 lowercase hex''"
| "describe_CatalogError InvalidSize = ''an item size is not a positive integer''"
| "describe_CatalogError NoItems = ''the catalogue contains nothing this version can install''"

definition ofKind :: "Catalog \<Rightarrow> ContentKind \<Rightarrow> CatalogItem list" where
  "ofKind cat kind = filter (\<lambda>i. item_kind i = kind) (cat_items cat)"

definition find_item :: "CatalogItem list \<Rightarrow> string \<Rightarrow> CatalogItem option" where
  "find_item items ident = find (\<lambda>i. item_id i = ident) items"

definition optional_field :: "json \<Rightarrow> string \<Rightarrow> (CatalogError, string option) result" where
  "optional_field entry key =
     (case member entry key of
        None \<Rightarrow> Inr None
      | Some v \<Rightarrow> if \<not> is_string v then Inl WrongType else Inr (Some (get_string v)))"

definition text_of :: "string option \<Rightarrow> string" where
  "text_of t = (case t of None \<Rightarrow> [] | Some s \<Rightarrow> s)"

text \<open>The optional fields of an item, after the required ones.\<close>

definition parse_notes :: "json \<Rightarrow> (CatalogError, string) result" where
  "parse_notes entry =
     bindE (optional_field entry ''notes_url'') (\<lambda>t.
     if text_of t \<noteq> [] \<and> \<not> isHttpsUrl (text_of t) then Inl InsecureUrl else Inr (text_of t))"

definition parse_honour :: "json \<Rightarrow> ContentKind \<Rightarrow> (CatalogError, bool) result" where
  "parse_honour entry kind =
     (case member entry ''honour_preserve_rules'' of
        Some v \<Rightarrow> if \<not> is_boolean v then Inl WrongType else Inr (get_bool v)
      | None \<Rightarrow> Inr (kind = CfwPack))"

definition parse_known_item ::
  "CatalogItem list \<Rightarrow> json \<Rightarrow> ContentKind \<Rightarrow> InstallTarget \<Rightarrow> (CatalogError, CatalogItem) result" where
  "parse_known_item items entry kind target =
     (if \<not> has_keys entry [''id'', ''name'', ''url'', ''size'', ''sha256''] then Inl MissingField
      else if \<not> is_string (field entry ''id'') \<or> \<not> is_string (field entry ''name'') \<or>
              \<not> is_string (field entry ''url'') \<or> \<not> is_string (field entry ''sha256'') then Inl WrongType
      else if \<not> isValidId (get_string (field entry ''id'')) then Inl InvalidId
      else if find_item items (get_string (field entry ''id'')) \<noteq> None then Inl DuplicateId
      else if \<not> isHttpsUrl (get_string (field entry ''url'')) then Inl InsecureUrl
      else if \<not> is_number_unsigned (field entry ''size'') then Inl InvalidSize
      else if get_uint64 (field entry ''size'') = 0 then Inl InvalidSize
      else (case fromHex (get_string (field entry ''sha256'')) of
        None \<Rightarrow> Inl InvalidDigest
      | Some digest \<Rightarrow>
          bindE (optional_field entry ''summary'') (\<lambda>summary.
          bindE (optional_field entry ''version'') (\<lambda>version.
          bindE (optional_field entry ''min_atmosphere'') (\<lambda>ams.
          bindE (parse_notes entry) (\<lambda>notes.
          bindE (parse_honour entry kind) (\<lambda>honour.
          Inr \<lparr>item_id = get_string (field entry ''id''), item_name = get_string (field entry ''name''),
               item_summary = text_of summary, item_kind = kind, item_target = target,
               item_versionText = text_of version, item_version = Option.bind version tryParseSemVer,
               item_url = get_string (field entry ''url''), item_size = get_uint64 (field entry ''size''),
               item_sha256 = digest, honourPreserveRules = honour,
               item_minAtmosphere = Option.bind ams tryParseSemVer, item_notesUrl = notes\<rparr>)))))))"

text \<open>One pass of the loop: an error, an item, or nothing when the kind or the destination is unknown.\<close>

definition parse_item ::
  "CatalogItem list \<Rightarrow> json \<Rightarrow> (CatalogError, CatalogItem option) result" where
  "parse_item items entry =
     (if \<not> is_object entry then Inl WrongType
      else if member entry ''kind'' = None then Inl MissingField
      else if \<not> is_string (field entry ''kind'') then Inl WrongType
      else (case parseContentKind (get_string (field entry ''kind'')) of
        None \<Rightarrow> Inr None
      | Some kind \<Rightarrow>
          if member entry ''target'' = None then Inl MissingField
          else if \<not> is_string (field entry ''target'') then Inl WrongType
          else (case parseTarget (get_string (field entry ''target'')) of
            None \<Rightarrow> Inr None
          | Some target \<Rightarrow> bindE (parse_known_item items entry kind target) (\<lambda>i. Inr (Some i)))))"

fun parse_items :: "CatalogItem list \<Rightarrow> json list \<Rightarrow> (CatalogError, CatalogItem list) result" where
  "parse_items items [] = Inr items"
| "parse_items items (entry # entries) =
     bindE (parse_item items entry) (\<lambda>found.
       parse_items (case found of None \<Rightarrow> items | Some i \<Rightarrow> items @ [i]) entries)"

definition parseCatalog :: "(string \<Rightarrow> json option) \<Rightarrow> string \<Rightarrow> (CatalogError, Catalog) result" where
  "parseCatalog jparse txt =
     (case jparse txt of
        None \<Rightarrow> Inl NotJson
      | Some doc \<Rightarrow>
          if \<not> is_object doc then Inl NotObject
          else if member doc ''schema_version'' = None then Inl MissingField
          else if \<not> is_number_integer (field doc ''schema_version'') then Inl WrongType
          else if get_int (field doc ''schema_version'') \<noteq> kSupportedCatalogSchema
            then Inl UnsupportedSchemaVersion
          else
          bindE (optional_field doc ''updated_at'') (\<lambda>updated.
          if member doc ''items'' = None then Inl MissingField
          else if \<not> is_array (field doc ''items'') then Inl WrongType
          else
          bindE (parse_items [] (elements (field doc ''items''))) (\<lambda>items.
          if items = [] then Inl NoItems
          else Inr \<lparr>cat_schemaVersion = kSupportedCatalogSchema, cat_updatedAt = text_of updated,
                    cat_items = items\<rparr>)))"

section \<open>Accepted catalogues\<close>

definition wf_item :: "CatalogItem \<Rightarrow> bool" where
  "wf_item i =
     (isValidId (item_id i) \<and> isHttpsUrl (item_url i) \<and> 0 < item_size i \<and>
      length (item_sha256 i) = kDigestSize \<and> (item_notesUrl i = [] \<or> isHttpsUrl (item_notesUrl i)))"

definition wf_items :: "CatalogItem list \<Rightarrow> bool" where
  "wf_items items = (list_all wf_item items \<and> distinct (map item_id items))"

lemma parse_notes_Inr: "parse_notes entry = Inr n \<Longrightarrow> n = [] \<or> isHttpsUrl n"
  by (auto simp: parse_notes_def bindE_Inr_iff split: if_splits)

lemma parse_known_item_Inr:
  "parse_known_item items entry kind target = Inr i \<Longrightarrow>
   wf_item i \<and> find_item items (item_id i) = None \<and> item_kind i = kind"
  by (auto simp: parse_known_item_def bindE_Inr_iff wf_item_def fromHex_iff word_gt_0
      dest!: parse_notes_Inr split: if_splits option.splits)

lemma parse_item_Inr:
  "parse_item items entry = Inr (Some i) \<Longrightarrow> wf_item i \<and> find_item items (item_id i) = None"
  by (auto simp: parse_item_def bindE_Inr_iff dest!: parse_known_item_Inr split: if_splits option.splits)

lemma wf_items_snoc: "wf_items items \<Longrightarrow> wf_item i \<Longrightarrow> find_item items (item_id i) = None \<Longrightarrow> wf_items (items @ [i])"
  by (auto simp: wf_items_def find_item_def find_None_iff)

lemma parse_items_wf: "parse_items items entries = Inr out \<Longrightarrow> wf_items items \<Longrightarrow> wf_items out"
proof (induction items entries rule: parse_items.induct)
  case (2 items entry entries)
  from 2(2) obtain found where found: "parse_item items entry = Inr found"
    and rest: "parse_items (case found of None \<Rightarrow> items | Some i \<Rightarrow> items @ [i]) entries = Inr out"
    by (auto simp: bindE_Inr_iff)
  have "wf_items (case found of None \<Rightarrow> items | Some i \<Rightarrow> items @ [i])"
    using 2(3) found by (auto split: option.split dest!: parse_item_Inr intro: wf_items_snoc)
  with 2(1) rest show ?case by blast
qed simp

lemma parseCatalog_Inr:
  "parseCatalog jparse txt = Inr cat \<Longrightarrow> wf_items (cat_items cat) \<and> cat_items cat \<noteq> []"
  by (auto simp: parseCatalog_def bindE_Inr_iff wf_items_def [of "[]"] dest!: parse_items_wf
      split: if_splits option.splits)

lemma parseContentKind_iff: "parseContentKind s = Some k \<longleftrightarrow> s = toString_ContentKind k"
  by (cases k) (auto simp: parseContentKind_def)

lemma parseTarget_iff: "parseTarget s = Some t \<longleftrightarrow> s = toString_InstallTarget t"
  by (cases t) (auto simp: parseTarget_def)

lemma find_item_distinct:
  "distinct (map item_id items) \<Longrightarrow> i \<in> set items \<Longrightarrow> find_item items (item_id i) = Some i"
  by (induction items) (auto simp: find_item_def)

lemma parse_items_append:
  "parse_items items (xs @ ys) = bindE (parse_items items xs) (\<lambda>out. parse_items out ys)"
  by (induction items xs rule: parse_items.induct) (auto simp: bindE_assoc split: sum.splits)

lemma parse_items_skip:
  assumes "\<And>items. parse_item items e = Inr None"
  shows "parse_items items (xs @ e # ys) = parse_items items (xs @ ys)"
  by (simp add: parse_items_append assms)

section \<open>Properties\<close>

text \<open>C34: An accepted catalogue is well formed whatever the text: it has items, their identifiers are valid and
  distinct, so looking one up finds that item, and every item has an https address, a non-zero size and
  a 32-byte digest.\<close>

theorem parseCatalog_wf:
  assumes "parseCatalog jparse txt = Inr cat"
  shows "cat_items cat \<noteq> [] \<and> distinct (map item_id (cat_items cat)) \<and>
    (\<forall>i\<in>set (cat_items cat). wf_item i \<and> find_item (cat_items cat) (item_id i) = Some i)"
  using parseCatalog_Inr [OF assms] find_item_distinct by (auto simp: wf_items_def list_all_iff)

definition sample_entry :: "string \<Rightarrow> string \<Rightarrow> json" where
  "sample_entry ident kind =
     JObject [(''id'', JString ident), (''kind'', JString kind), (''target'', JString ''sd-root''),
       (''name'', JString ''Pack''), (''url'', JString ''https://example.org/p.zip''), (''size'', JUint 9),
       (''sha256'', JString (replicate 64 CHR ''b''))]"

definition sample_catalog :: json where
  "sample_catalog =
     JObject [(''items'', JArray [sample_entry ''a'' ''cfw-pack'', sample_entry ''b'' ''hologram'',
         sample_entry ''c'' ''theme'']), (''schema_version'', JUint 1)]"

lemma sample_catalog_accepted:
  "map_sum id (\<lambda>c. map item_id (cat_items c)) (parseCatalog (\<lambda>_. Some sample_catalog) []) = Inr [''a'', ''c'']"
  by code_simp

theorem parseCatalog_wf_witness:
  "\<exists>cat. parseCatalog (\<lambda>_. Some sample_catalog) [] = Inr cat \<and> map item_id (cat_items cat) = [''a'', ''c''] \<and>
     (\<forall>i\<in>set (cat_items cat). wf_item i)"
proof -
  obtain cat where c: "parseCatalog (\<lambda>_. Some sample_catalog) [] = Inr cat"
    "map item_id (cat_items cat) = [''a'', ''c'']"
    using sample_catalog_accepted by (cases "parseCatalog (\<lambda>_. Some sample_catalog) []") auto
  show ?thesis by (rule exI [of _ cat]) (use c parseCatalog_wf [OF c(1)] in simp)
qed

text \<open>An entry of a kind this version does not know changes nothing: wherever it stands in the list, the
  catalogue is read as if it were not there, whatever else the entry contains.\<close>

theorem unknown_kind_is_skipped:
  assumes "is_object e" and "member e ''kind'' = Some (JString k)" and "\<forall>kind. k \<noteq> toString_ContentKind kind"
  shows "parseCatalog (\<lambda>_. Some (JObject ((''items'', JArray (xs @ e # ys)) # others))) txt =
    parseCatalog (\<lambda>_. Some (JObject ((''items'', JArray (xs @ ys)) # others))) txt"
proof -
  have "parseContentKind k = None"
    using assms(3) parseContentKind_iff [of k] by (cases "parseContentKind k") auto
  then have "parse_item items e = Inr None" for items
    using assms(1,2) by (simp add: parse_item_def field_def)
  from parse_items_skip [OF this] show ?thesis by (simp add: parseCatalog_def field_def optional_field_def)
qed

theorem unknown_kind_is_skipped_witness:
  "parseCatalog (\<lambda>_. Some (JObject [(''items'', JArray [sample_entry ''a'' ''tool'', sample_entry ''b'' ''hologram''])])) [] =
   parseCatalog (\<lambda>_. Some (JObject [(''items'', JArray [sample_entry ''a'' ''tool''])])) []"
proof -
  have "\<forall>kind. ''hologram'' \<noteq> toString_ContentKind kind"
  proof
    fix kind show "''hologram'' \<noteq> toString_ContentKind kind" by (cases kind) simp_all
  qed
  then show ?thesis
    using unknown_kind_is_skipped [of "sample_entry ''b'' ''hologram''" "''hologram''"
        "[sample_entry ''a'' ''tool'']" "[]" "[]" "[]"]
    by (simp add: sample_entry_def)
qed

end
