(* ===== verification/Text_Utils.thy ===== *)
theory Text_Utils
  imports Prelude
begin

text \<open>
  Small text helpers: \<^verbatim>\<open>core/paths/path_utils.cpp\<close> and \<^verbatim>\<open>core/text/string_utils.cpp\<close>.
\<close>

section \<open>Paths\<close>

fun collapse :: "bool \<Rightarrow> string \<Rightarrow> string" where
  "collapse lastWasSlash [] = []"
| "collapse lastWasSlash (c # cs) =
     (let d = (if c = CHR 0x5C then CHR ''/'' else c) in
      if d = CHR ''/'' then
        (if \<not> lastWasSlash then d # collapse True cs else collapse lastWasSlash cs)
      else d # collapse False cs)"

definition path_normalize :: "string \<Rightarrow> string" where
  "path_normalize path =
     (if path = [] then []
      else
        (let out = collapse False path in
         if length out > 1 \<and> last out = CHR ''/'' \<and> out \<noteq> ''/'' \<and> out \<noteq> ''sdmc:/'' then butlast out
         else out))"

definition tolower :: "char \<Rightarrow> char" where
  "tolower a = (if CHR ''A'' \<le> a \<and> a \<le> CHR ''Z'' then char_of (of_char a + 32 :: nat) else a)"

definition hasExtension :: "string \<Rightarrow> string \<Rightarrow> bool" where
  "hasExtension path extension =
     (if extension = [] \<or> length path < length extension then False
      else if hd extension \<noteq> CHR ''.'' \<and>
              (length path \<le> length extension \<or>
               path ! (length path - length extension - 1) \<noteq> CHR ''.'') then False
      else map tolower (drop (length path - length extension) path) = map tolower extension)"

definition path_join :: "string \<Rightarrow> string \<Rightarrow> string" where
  "path_join base relative =
     (if base = [] then path_normalize relative
      else if relative = [] then path_normalize base
      else
        (let b = path_normalize base; r = path_normalize relative in
         if last b = CHR ''/'' then
           (if hd r = CHR ''/'' then b @ tl r else b @ r)
         else if hd r = CHR ''/'' then b @ r
         else b @ ''/'' @ r))"

section \<open>Text\<close>

text \<open>The division of a 64-bit count, converted to a double, by a power of two is exact; what is rounded,
  half to even, is the conversion of counts of more than 53 bits and the print to two decimals.\<close>

definition round_half_even :: "nat \<Rightarrow> nat \<Rightarrow> nat" where
  "round_half_even n d =
     (let q = n div d; r = n mod d in
      if 2 * r < d then q else if d < 2 * r then q + 1 else if even q then q else q + 1)"

definition bit_length :: "nat \<Rightarrow> nat" where
  "bit_length n = length (takeWhile (\<lambda>k. 2 ^ k \<le> n) [0..<64])"

definition to_double :: "nat \<Rightarrow> nat" where
  "to_double n =
     (if n < 2 ^ 53 then n
      else (let k = bit_length n - 53 in round_half_even n (2 ^ k) * 2 ^ k))"

definition two_decimals :: "nat \<Rightarrow> nat \<Rightarrow> string" where
  "two_decimals n unit_size =
     (let cents = round_half_even (to_double n * 100) unit_size in
      show_nat (cents div 100) @ ''.'' @ show_nat (cents mod 100 div 10) @ show_nat (cents mod 10))"

definition formatBytes :: "64 word \<Rightarrow> string" where
  "formatBytes n =
     (let kKiB = 1024; kMiB = kKiB * 1024; kGiB = kMiB * 1024; kTiB = kGiB * 1024; bytes = unat n in
      if bytes \<ge> kTiB then two_decimals bytes kTiB @ '' TB''
      else if bytes \<ge> kGiB then two_decimals bytes kGiB @ '' GB''
      else if bytes \<ge> kMiB then two_decimals bytes kMiB @ '' MB''
      else if bytes \<ge> kKiB then two_decimals bytes kKiB @ '' KB''
      else show_nat bytes @ '' B'')"

definition isspace :: "char \<Rightarrow> bool" where
  "isspace c = (c = CHR '' '' \<or> (of_char c :: nat) \<in> {9..13})"

fun trimLeft :: "string \<Rightarrow> string" where
  "trimLeft [] = []"
| "trimLeft (c # cs) = (if isspace c then trimLeft cs else c # cs)"

definition trimRight :: "string \<Rightarrow> string" where
  "trimRight s = rev (trimLeft (rev s))"

definition trim :: "string \<Rightarrow> string" where
  "trim s = trimRight (trimLeft s)"

definition sanitize :: "string \<Rightarrow> string" where
  "sanitize s = filter (\<lambda>c. (of_char c :: nat) \<ge> 32 \<and> (of_char c :: nat) \<le> 126) s"

lemma length_after: "sep \<in> set s \<Longrightarrow> length (after sep s) < length s"
  using arg_cong [OF before_after [of sep s], of length] by simp

function text_split :: "string \<Rightarrow> char \<Rightarrow> string list" where
  "text_split s delimiter =
     (if s = [] then []
      else if delimiter \<notin> set s then [s]
      else before delimiter s # text_split (after delimiter s) delimiter)"
  by pat_completeness auto
termination
  by (relation "measure (\<lambda>(s, _). length s)") (auto simp: length_after)

declare text_split.simps [simp del]

definition text_join :: "string list \<Rightarrow> string \<Rightarrow> string" where
  "text_join elems delimiter =
     (case elems of
        [] \<Rightarrow> []
      | e # es \<Rightarrow> foldl (\<lambda>out x. out @ delimiter @ x) e es)"

section \<open>Facts\<close>

text \<open>Splitting drops exactly one empty trailing piece.\<close>

lemma text_split_eq:
  "text_split s d = (if last (split_on d s) = [] then butlast (split_on d s) else split_on d s)"
proof (induction s d rule: text_split.induct)
  case (1 s d)
  show ?case
  proof (cases "d \<in> set s")
    case False
    then show ?thesis by (subst text_split.simps) (simp add: split_on_free)
  next
    case True
    then have "s \<noteq> []" by auto
    have "split_on d s = before d s # split_on d (after d s)"
      using split_on_append_sep [of d "before d s" "after d s"] before_after [OF True] before_free [of d s]
      by (simp add: split_on_free)
    then show ?thesis
      using 1 [OF \<open>s \<noteq> []\<close>] True \<open>s \<noteq> []\<close> split_on_not_Nil [of d "after d s"]
      by (subst text_split.simps) simp
  qed
qed

text \<open>Normal forms: no backslash, no repeated slash; normalising again changes nothing.\<close>

fun tidy :: "bool \<Rightarrow> string \<Rightarrow> bool" where
  "tidy slash [] = True"
| "tidy slash (c # cs) =
     (c \<noteq> CHR 0x5C \<and> (c = CHR ''/'' \<longrightarrow> \<not> slash) \<and> tidy (c = CHR ''/'') cs)"

lemma collapse_tidy: "tidy slash (collapse slash s)"
  by (induction slash s rule: collapse.induct) (auto simp: Let_def)

lemma tidy_collapse: "tidy slash s \<Longrightarrow> collapse slash s = s"
  by (induction slash s rule: tidy.induct) auto

lemma tidy_butlast: "tidy slash s \<Longrightarrow> tidy slash (butlast s)"
  by (induction slash s rule: tidy.induct) auto

lemma tidy_slash_end: "tidy slash s \<Longrightarrow> last s = CHR ''/'' \<Longrightarrow> length s > 1 \<Longrightarrow> last (butlast s) \<noteq> CHR ''/''"
proof (induction slash s rule: tidy.induct)
  case (2 slash c cs)
  then show ?case by (cases cs; cases "tl cs") auto
qed simp

lemma normalize_tidy: "tidy False (path_normalize s)"
  using collapse_tidy [of False s] by (auto simp: path_normalize_def Let_def tidy_butlast)

lemma normalize_idem: "path_normalize (path_normalize s) = path_normalize s"
proof -
  let ?out = "collapse False s"
  have collapse: "collapse False (path_normalize s) = path_normalize s"
    by (rule tidy_collapse [OF normalize_tidy])
  show ?thesis
  proof (cases "s \<noteq> [] \<and> length ?out > 1 \<and> last ?out = CHR ''/'' \<and> ?out \<noteq> ''sdmc:/''")
    case True
    then have "path_normalize s = butlast ?out" by (auto simp: path_normalize_def Let_def)
    moreover have "last (butlast ?out) \<noteq> CHR ''/''" using tidy_slash_end [OF collapse_tidy] True by blast
    ultimately show ?thesis using collapse by (auto simp: path_normalize_def Let_def)
  next
    case False
    then have "path_normalize s = ?out" by (auto simp: path_normalize_def Let_def)
    with False collapse show ?thesis by (auto simp: path_normalize_def Let_def)
  qed
qed

end
