(* ===== verification/Ports.thy ===== *)
theory Ports
  imports Sd_Card Sha256 Extraction_Policy
begin

text \<open>
  The interfaces between the use cases and the adapters: \<^verbatim>\<open>domain/ports/ports.hpp\<close>, and the vocabulary of
  the adapters they are expressed in (\<^verbatim>\<open>infra/http/tls_config\<close>, \<^verbatim>\<open>curl_client.hpp\<close>,
  \<^verbatim>\<open>infra/archive/archive_error\<close>, \<^verbatim>\<open>zip_extractor.hpp\<close>).  An interface is a record of state-monad
  operations over an arbitrary world.
\<close>

section \<open>Transfers\<close>

datatype HttpError =
    NoError | NoNetwork | DnsFailure | ConnectFailed | Timeout | TlsVerifyFailed | TlsClockSkew | InsecureUrl
  | HttpStatus | RateLimited | TooLarge | SizeMismatch | DigestMismatch | WriteFailed | Aborted | Internal

fun describe_HttpError :: "HttpError \<Rightarrow> string" where
  "describe_HttpError NoError = ''no error''"
| "describe_HttpError NoNetwork = ''no network connection''"
| "describe_HttpError DnsFailure = ''could not resolve the host''"
| "describe_HttpError ConnectFailed = ''could not connect to the host''"
| "describe_HttpError Timeout = ''the connection timed out''"
| "describe_HttpError TlsVerifyFailed = ''the server certificate could not be verified''"
| "describe_HttpError TlsClockSkew = ''the server certificate is not valid yet or has expired''"
| "describe_HttpError InsecureUrl = ''refused a non-https URL''"
| "describe_HttpError HttpStatus = ''the server returned an error status''"
| "describe_HttpError RateLimited = ''rate limited by the server''"
| "describe_HttpError TooLarge = ''the response was larger than allowed''"
| "describe_HttpError SizeMismatch = ''the download was the wrong size''"
| "describe_HttpError DigestMismatch = ''the download did not match its expected digest''"
| "describe_HttpError WriteFailed = ''could not write to the SD card''"
| "describe_HttpError Aborted = ''cancelled''"
| "describe_HttpError Internal = ''internal error''"

fun advise :: "HttpError \<Rightarrow> string" where
  "advise NoNetwork = ''Connect to Wi-Fi and try again.''"
| "advise DnsFailure =
     ''Check your network settings. A DNS blocker may be blocking more than '' @ ''intended.''"
| "advise TlsClockSkew = ''Set your console'' @ [CHR 0x27] @ ''s date and time, then try again.''"
| "advise TlsVerifyFailed = ''The connection could not be trusted, so it was refused.''"
| "advise RateLimited = ''Too many requests. Try again later.''"
| "advise TooLarge = ''Free some space on your SD card and try again.''"
| "advise WriteFailed = ''Free some space on your SD card and try again.''"
| "advise SizeMismatch = ''The download was corrupted or altered, so it was discarded.''"
| "advise DigestMismatch = ''The download was corrupted or altered, so it was discarded.''"
| "advise ConnectFailed = ''Check your connection and try again.''"
| "advise Timeout = ''Check your connection and try again.''"
| "advise HttpStatus = ''Check your connection and try again.''"
| "advise _ = []"

definition http_isHttpsUrl :: "string \<Rightarrow> bool" where
  "http_isHttpsUrl url =
     (length url > length ''https://'' \<and> take (length ''https://'') url = ''https://'')"

record Progress =
  received :: "64 word"
  expected_total :: "64 word"

type_synonym ProgressCallback = "(Progress \<Rightarrow> bool) option"

record Response =
  resp_status :: int
  resp_body :: string
  resp_etag :: string

record ExpectedArtifact =
  expected_size :: "64 word"
  expected_sha256 :: Digest

record 'w HttpGateway =
  http_fetch :: "string \<Rightarrow> string \<Rightarrow> ('w, (HttpError, Response) result) state"
  http_download ::
    "string \<Rightarrow> string \<Rightarrow> ExpectedArtifact \<Rightarrow> ProgressCallback \<Rightarrow> ('w, (HttpError, unit) result) state"

section \<open>Archives\<close>

datatype ArchiveError =
    CannotOpen | ArchiveEmpty | UnsafeEntry | ArchiveTooLarge | DirectoryFailed | ArchiveWriteFailed | ReadFailed
  | ArchiveAborted

fun describe_ArchiveError :: "ArchiveError \<Rightarrow> string" where
  "describe_ArchiveError CannotOpen = ''the archive could not be opened''"
| "describe_ArchiveError ArchiveEmpty = ''the archive is empty''"
| "describe_ArchiveError UnsafeEntry =
     ''the archive contains an entry that would write outside the destination''"
| "describe_ArchiveError ArchiveTooLarge = ''the archive expands to more than the allowed size''"
| "describe_ArchiveError DirectoryFailed = ''a destination directory could not be created''"
| "describe_ArchiveError ArchiveWriteFailed = ''a file could not be written''"
| "describe_ArchiveError ReadFailed = ''an entry could not be decompressed''"
| "describe_ArchiveError ArchiveAborted = ''cancelled''"

record ExtractionProgress =
  entriesDone :: nat
  entriesTotal :: nat
  xp_bytesWritten :: "64 word"
  currentEntry :: string

type_synonym ExtractionCallback = "(ExtractionProgress \<Rightarrow> bool) option"

record ExtractionReport =
  filesWritten :: nat
  directoriesCreated :: nat
  skippedPreserved :: nat
  bytesWritten :: "64 word"
  rejected :: "string list"

record 'w ArchiveGateway =
  arch_extract ::
    "string \<Rightarrow> ExtractionPolicy \<Rightarrow> 64 word \<Rightarrow> ExtractionCallback \<Rightarrow>
     ('w, (ArchiveError, ExtractionReport) result) state"

section \<open>Files\<close>

record 'w FileStore =
  fs_exists :: "string \<Rightarrow> ('w, bool) state"
  fs_readText :: "string \<Rightarrow> 64 word \<Rightarrow> ('w, string option) state"
  fs_writeAtomic :: "string \<Rightarrow> string \<Rightarrow> ('w, bool) state"
  fs_remove :: "string \<Rightarrow> ('w, bool) state"
  fs_makeDirectories :: "string \<Rightarrow> ('w, bool) state"
  fs_copyFile :: "string \<Rightarrow> string \<Rightarrow> ('w, bool) state"
  fs_digestOf :: "string \<Rightarrow> ('w, Digest option) state"
  fs_freeSpaceBytes :: "string \<Rightarrow> ('w, 64 word option) state"
  fs_totalSpaceBytes :: "string \<Rightarrow> ('w, 64 word option) state"
  fs_rename :: "string \<Rightarrow> string \<Rightarrow> ('w, bool) state"
  fs_listFilesRecursive :: "string \<Rightarrow> ('w, string list) state"
  fs_removeTree :: "string \<Rightarrow> ('w, bool) state"
  fs_listDirectories :: "string \<Rightarrow> ('w, string list) state"

end
