(* ===== verification/Curl_Client.thy ===== *)
theory Curl_Client
  imports Ports
begin

text \<open>
  The transfers: \<^verbatim>\<open>infra/http/curl_client.cpp\<close>.  What libcurl does is a parameter: the calls it makes to the
  header, write and progress callbacks, in order, and the codes it reports.  Everything the client itself
  does with them is modelled: the limits, hashing while writing, and when a download gets its final name.
\<close>

section \<open>The library\<close>

datatype CURLcode =
    CURLE_OK | CURLE_COULDNT_RESOLVE_HOST | CURLE_COULDNT_RESOLVE_PROXY | CURLE_COULDNT_CONNECT
  | CURLE_OPERATION_TIMEDOUT | CURLE_ABORTED_BY_CALLBACK | CURLE_WRITE_ERROR | CURLE_UNSUPPORTED_PROTOCOL
  | CURLE_URL_MALFORMAT | CURLE_FILESIZE_EXCEEDED | CURLE_PEER_FAILED_VERIFICATION | CURLE_SSL_CACERT_BADFILE
  | CURLE_SSL_CONNECT_ERROR | CURLE_OTHER

datatype callback =
    Header string
  | Chunk string
  | Tick "64 word" "64 word"

text \<open>One request as the library performs it: whether a handle could be made, the callbacks, the code when no
  callback stops it, the verification result when there is one, and the response status.\<close>

record Transfer =
  tr_handle :: bool
  tr_calls :: "callback list"
  tr_code :: CURLcode
  tr_verify :: "int option"
  tr_status :: int

type_synonym network = "string \<Rightarrow> string \<Rightarrow> Transfer"

section \<open>Operations\<close>

definition tls_error :: "int option \<Rightarrow> HttpError" where
  "tls_error verifyResult =
     (case verifyResult of
        None \<Rightarrow> TlsVerifyFailed
      | Some v \<Rightarrow> if v \<noteq> 0 \<and> and v (or 0x01 0x08) \<noteq> 0 then TlsClockSkew else TlsVerifyFailed)"

fun classify :: "CURLcode \<Rightarrow> int option \<Rightarrow> HttpError" where
  "classify CURLE_OK v = NoError"
| "classify CURLE_COULDNT_RESOLVE_HOST v = DnsFailure"
| "classify CURLE_COULDNT_RESOLVE_PROXY v = DnsFailure"
| "classify CURLE_COULDNT_CONNECT v = ConnectFailed"
| "classify CURLE_OPERATION_TIMEDOUT v = Timeout"
| "classify CURLE_ABORTED_BY_CALLBACK v = Aborted"
| "classify CURLE_WRITE_ERROR v = WriteFailed"
| "classify CURLE_UNSUPPORTED_PROTOCOL v = InsecureUrl"
| "classify CURLE_URL_MALFORMAT v = InsecureUrl"
| "classify CURLE_FILESIZE_EXCEEDED v = TooLarge"
| "classify CURLE_PEER_FAILED_VERIFICATION v = tls_error v"
| "classify CURLE_SSL_CACERT_BADFILE v = tls_error v"
| "classify CURLE_SSL_CONNECT_ERROR v = tls_error v"
| "classify CURLE_OTHER v = Internal"

definition classifyStatus :: "int \<Rightarrow> HttpError" where
  "classifyStatus status =
     (if status \<ge> 200 \<and> status < 400 then NoError
      else if status = 403 \<or> status = 429 then RateLimited
      else HttpStatus)"

record MemorySink =
  sink_data :: string
  sink_limit :: "64 word"
  overflowed :: bool

text \<open>Sizes are 64-bit, so the comparison with the limit wraps.\<close>

definition writeToMemory :: "string \<Rightarrow> MemorySink \<Rightarrow> nat \<times> MemorySink" where
  "writeToMemory ptr sink =
     (if of_nat (length (sink_data sink)) + of_nat (length ptr) > sink_limit sink
      then (0, sink\<lparr>overflowed := True\<rparr>)
      else (length ptr, sink\<lparr>sink_data := sink_data sink @ ptr\<rparr>))"

definition lower_char :: "char \<Rightarrow> char" where
  "lower_char c = (if CHR ''A'' \<le> c \<and> c \<le> CHR ''Z'' then char_of (of_char c + 32 :: nat) else c)"

definition captureHeader :: "string \<Rightarrow> string \<Rightarrow> string" where
  "captureHeader hdr tag =
     (if length hdr > length ''etag:'' \<and> map lower_char (take (length ''etag:'') hdr) = ''etag:'' then
        (let v = dropWhile (\<lambda>c. c = CHR '' '' \<or> c = CHR 0x09) (drop (length ''etag:'') hdr)
         in rev (dropWhile (\<lambda>c. c = CHR 0x0D \<or> c = CHR 0x0A) (rev v)))
      else tag)"

text \<open>Performing a request into memory; a write callback that takes less than it was given ends it.\<close>

fun receive :: "callback list \<Rightarrow> MemorySink \<Rightarrow> string \<Rightarrow> CURLcode option \<times> MemorySink \<times> string" where
  "receive [] sink tag = (None, sink, tag)"
| "receive (Header hdr # calls) sink tag = receive calls sink (captureHeader hdr tag)"
| "receive (Tick r t # calls) sink tag = receive calls sink tag"
| "receive (Chunk ptr # calls) sink tag =
     (case writeToMemory ptr sink of (n, sink') \<Rightarrow>
        if n \<noteq> length ptr then (Some CURLE_WRITE_ERROR, sink', tag) else receive calls sink' tag)"

definition code_of :: "Transfer \<Rightarrow> CURLcode option \<Rightarrow> CURLcode" where
  "code_of tr stopped = (case stopped of Some c \<Rightarrow> c | None \<Rightarrow> tr_code tr)"

definition curl_get :: "network \<Rightarrow> string \<Rightarrow> 64 word \<Rightarrow> string \<Rightarrow> (HttpError, Response) result" where
  "curl_get net url maxBytes ifNoneMatch =
     (if \<not> http_isHttpsUrl url then Inl InsecureUrl
      else
        (let tr = net url (if ifNoneMatch \<noteq> [] then ''If-None-Match: '' @ ifNoneMatch else []) in
         if \<not> tr_handle tr then Inl Internal
         else
           (case receive (tr_calls tr) \<lparr>sink_data = [], sink_limit = maxBytes, overflowed = False\<rparr> [] of
              (stopped, sink, tag) \<Rightarrow>
                (let transport = classify (code_of tr stopped) (tr_verify tr) in
                 if transport \<noteq> NoError then
                   (if overflowed sink then Inl TooLarge else Inl transport)
                 else if classifyStatus (tr_status tr) \<noteq> NoError then Inl (classifyStatus (tr_status tr))
                 else Inr \<lparr>resp_status = tr_status tr, resp_body = sink_data sink, resp_etag = tag\<rparr>))))"

record FileSink =
  hasher :: Sha256
  sink_written :: "64 word"
  file_limit :: "64 word"
  sink_failed :: bool

definition writeToFile :: "string \<Rightarrow> string \<Rightarrow> FileSink \<Rightarrow> (nat \<times> FileSink) io" where
  "writeToFile part ptr sink =
     (if sink_written sink + of_nat (length ptr) > file_limit sink then
        State_Monad.return (0, sink\<lparr>sink_failed := True\<rparr>)
      else do {
        ok \<leftarrow> c_append part ptr;
        if \<not> ok then State_Monad.return (0, sink\<lparr>sink_failed := True\<rparr>)
        else State_Monad.return (length ptr,
          sink\<lparr>hasher := update (hasher sink) (bytes_of ptr),
               sink_written := sink_written sink + of_nat (length ptr)\<rparr>)
      })"

definition reportProgress :: "ProgressCallback \<Rightarrow> 64 word \<Rightarrow> 64 word \<Rightarrow> nat" where
  "reportProgress cb tot recv =
     (case cb of None \<Rightarrow> 0 | Some f \<Rightarrow> if f \<lparr>received = recv, expected_total = tot\<rparr> then 0 else 1)"

fun deliver :: "string \<Rightarrow> ProgressCallback \<Rightarrow> callback list \<Rightarrow> FileSink \<Rightarrow> (CURLcode option \<times> FileSink) io" where
  "deliver part cb [] sink = State_Monad.return (None, sink)"
| "deliver part cb (Header hdr # calls) sink = deliver part cb calls sink"
| "deliver part cb (Tick tot recv # calls) sink =
     (if reportProgress cb tot recv \<noteq> 0 then State_Monad.return (Some CURLE_ABORTED_BY_CALLBACK, sink)
      else deliver part cb calls sink)"
| "deliver part cb (Chunk ptr # calls) sink = do {
     r \<leftarrow> writeToFile part ptr sink;
     if fst r \<noteq> length ptr then State_Monad.return (Some CURLE_WRITE_ERROR, snd r)
     else deliver part cb calls (snd r)
   }"

definition discard :: "string \<Rightarrow> HttpError \<Rightarrow> (HttpError, unit) result io" where
  "discard part e = do { _ \<leftarrow> c_remove part; State_Monad.return (Inl e) }"

text \<open>What happens once the transfer is over.\<close>

definition conclude ::
  "Transfer \<Rightarrow> string \<Rightarrow> ExpectedArtifact \<Rightarrow> CURLcode option \<Rightarrow> FileSink \<Rightarrow> (HttpError, unit) result io" where
  "conclude tr destPath ex stopped sink = do {
     let part = destPath @ ''.part'';
     let transport = classify (code_of tr stopped) (tr_verify tr);
     flushed \<leftarrow> c_flush part;
     if transport \<noteq> NoError then
       discard part (if sink_failed sink \<and> sink_written sink \<ge> file_limit sink then TooLarge else transport)
     else if \<not> flushed \<or> sink_failed sink then discard part WriteFailed
     else if classifyStatus (tr_status tr) \<noteq> NoError then discard part (classifyStatus (tr_status tr))
     else if sink_written sink \<noteq> expected_size ex then discard part SizeMismatch
     else if \<not> digestsEqual (fst (finish (hasher sink))) (expected_sha256 ex) then discard part DigestMismatch
     else do {
       _ \<leftarrow> c_remove destPath;
       ok \<leftarrow> c_rename part destPath;
       if \<not> ok then discard part WriteFailed else State_Monad.return (Inr ())
     }
   }"

definition curl_download ::
  "network \<Rightarrow> string \<Rightarrow> string \<Rightarrow> ExpectedArtifact \<Rightarrow> ProgressCallback \<Rightarrow> (HttpError, unit) result io" where
  "curl_download net url destPath ex onProgress =
     (if \<not> http_isHttpsUrl url then State_Monad.return (Inl InsecureUrl)
      else if expected_size ex = 0 then State_Monad.return (Inl Internal)
      else
        (let tr = net url []; part = destPath @ ''.part'' in
         if \<not> tr_handle tr then State_Monad.return (Inl Internal)
         else do {
           opened \<leftarrow> c_open part;
           if \<not> opened then State_Monad.return (Inl WriteFailed)
           else do {
             r \<leftarrow> deliver part onProgress (tr_calls tr)
               \<lparr>hasher = reset, sink_written = 0, file_limit = expected_size ex, sink_failed = False\<rparr>;
             conclude tr destPath ex (fst r) (snd r)
           }
         }))"

section \<open>What is on the card while a download runs\<close>

text \<open>The part file holds exactly the bytes that were hashed and counted, unless a write failed.\<close>

definition in_step :: "string \<Rightarrow> FileSink \<Rightarrow> sd \<Rightarrow> bool" where
  "in_step part sink w =
     (sink_failed sink \<or>
      (\<exists>d. content w part = Some d \<and> represents (hasher sink) (bytes_of d) \<and>
           sink_written sink = of_nat (length d)))"

lemma bytes_of_append: "bytes_of (a @ b) = bytes_of a @ bytes_of b"
  by (simp add: bytes_of_def)

lemma wp_writeToFile:
  assumes "in_step part sink w"
    and "\<And>w' n sink'. frame {part} w w' \<Longrightarrow> in_step part sink' w' \<Longrightarrow> Q (n, sink') w'"
  shows "wp_io (writeToFile part ptr sink) Q w"
proof (cases "sink_written sink + of_nat (length ptr) > file_limit sink")
  case True
  then show ?thesis by (simp add: writeToFile_def wp assms(2) in_step_def)
next
  case False
  have "wp_io (c_append part ptr) (\<lambda>ok. if \<not> ok then Q (0, sink\<lparr>sink_failed := True\<rparr>)
      else Q (length ptr, sink\<lparr>hasher := update (hasher sink) (bytes_of ptr),
        sink_written := sink_written sink + of_nat (length ptr)\<rparr>)) w"
  proof (rule wp_append, goal_cases)
    case (1 w')
    then show ?case by (simp add: assms(2) in_step_def)
  next
    case (2 w' old)
    have "in_step part (sink\<lparr>hasher := update (hasher sink) (bytes_of ptr),
        sink_written := sink_written sink + of_nat (length ptr)\<rparr>) w'"
      using assms(1) 2 by (auto simp: in_step_def bytes_of_append intro: represents_update)
    then show ?case using 2 by (auto intro!: assms(2) simp: frame_def)
  qed
  with False show ?thesis by (simp add: writeToFile_def wp cong del: if_weak_cong)
qed

lemma wp_deliver:
  assumes "in_step part sink w"
    and "\<And>w' s sink'. frame {part} w w' \<Longrightarrow> in_step part sink' w' \<Longrightarrow> Q (s, sink') w'"
  shows "wp_io (deliver part cb calls sink) Q w"
  using assms
proof (induction part cb calls sink arbitrary: w rule: deliver.induct)
  case (4 part cb ptr calls sink)
  show ?case unfolding deliver.simps wp
  proof (rule wp_writeToFile [OF 4(2)])
    fix w1 n sink1
    assume w1: "frame {part} w w1" "in_step part sink1 w1"
    have "Q (s, sink') w2" if "frame {part} w1 w2" "in_step part sink' w2" for w2 s sink'
      using 4(3) [OF _ that(2), of s] frame_trans [OF w1(1) that(1)] by simp
    then have "wp_io (deliver part cb calls sink1) Q w1" if "n = length ptr"
      using 4(1) [of "(n, sink1)" w1] w1(2) that by auto
    then show "(if fst (n, sink1) \<noteq> length ptr then Q (Some CURLE_WRITE_ERROR, snd (n, sink1))
        else wp_io (deliver part cb calls (snd (n, sink1))) Q) w1"
      using 4(3) [OF w1, of "Some CURLE_WRITE_ERROR"] by simp
  qed
qed (simp_all add: wp)

lemma wp_discard:
  assumes "\<And>w'. frame {part} w w' \<Longrightarrow> Q (Inl e) w'"
  shows "wp_io (discard part e) Q w"
  unfolding discard_def wp by (rule wp_remove_frame) (rule assms)

text \<open>A verified file has the announced size and digest.\<close>

definition verified :: "ExpectedArtifact \<Rightarrow> string \<Rightarrow> bool" where
  "verified ex d = (of_nat (length d) = expected_size ex \<and> sha256_spec (bytes_of d) = expected_sha256 ex)"

text \<open>What a download may leave at its destination: what was there, nothing, or a verified file.\<close>

definition fetched :: "string \<Rightarrow> ExpectedArtifact \<Rightarrow> sd \<Rightarrow> (HttpError, unit) result \<Rightarrow> sd \<Rightarrow> bool" where
  "fetched dest ex w r w' =
     (frame {dest, dest @ ''.part''} w w' \<and>
      (case r of
         Inr _ \<Rightarrow> \<exists>d. content w' dest = Some d \<and> verified ex d
       | Inl _ \<Rightarrow> content w' dest = content w dest \<or> content w' dest = None))"

lemma fetched_part: "frame {dest @ ''.part''} w w' \<Longrightarrow> fetched dest ex w (Inl e) w'"
  by (auto simp: fetched_def frame_def)

lemma fetched_Inl_trans:
  assumes "frame {dest @ ''.part''} w w1" and "fetched dest ex w1 r w2"
  shows "fetched dest ex w r w2"
  using assms frameD [OF assms(1), of dest] frame_trans [OF assms(1), of "{dest, dest @ ''.part''}" w2]
  by (auto simp: fetched_def split: sum.splits)

lemma wp_conclude:
  assumes "in_step (dest @ ''.part'') sink w" and "length (expected_sha256 ex) = kDigestSize"
  shows "wp_io (conclude tr dest ex stopped sink) (fetched dest ex w) w"
proof -
  let ?part = "dest @ ''.part''"
  have drop: "wp_io (discard ?part e) (fetched dest ex w) w'" if "frame {?part} w w'" for e w'
    using that frame_trans [OF that] by (intro wp_discard fetched_part) fastforce
  have promote: "wp_io (c_remove dest) (\<lambda>_. wp_io (c_rename ?part dest) (\<lambda>ok.
        if \<not> ok then wp_io (discard ?part WriteFailed) (fetched dest ex w) else fetched dest ex w (Inr ()))) w1"
    if w1: "content w1 = content w" "same_env w w1" and ok: "\<not> sink_failed sink"
      and size: "sink_written sink = expected_size ex"
      and dig: "digestsEqual (fst (finish (hasher sink))) (expected_sha256 ex)" for w1
  proof -
    from assms(1) ok obtain d where d: "content w ?part = Some d" "represents (hasher sink) (bytes_of d)"
      "sink_written sink = of_nat (length d)" by (auto simp: in_step_def)
    have good: "verified ex d"
      using d(2,3) size dig finish_represents [OF d(2)] digestsEqual_iff assms(2) length_sha256_spec
      by (simp add: verified_def)
    show ?thesis
    proof (rule wp_remove_frame)
      fix w2 assume w2: "frame {dest} w1 w2" "erodes w1 w2"
      show "wp_io (c_rename ?part dest) (\<lambda>ok.
        if \<not> ok then wp_io (discard ?part WriteFailed) (fetched dest ex w) else fetched dest ex w (Inr ())) w2"
      proof (rule wp_rename, goal_cases)
        case (1 w3)
        have "wp_io (discard ?part WriteFailed) (fetched dest ex w) w3"
        proof (rule wp_discard)
          fix w4 assume w4: "frame {?part} w3 w4"
          have "content w4 dest = content w2 dest" using frameD [OF w4, of dest] 1(2) by simp
          moreover have "content w2 dest = content w dest \<or> content w2 dest = None"
            using w2(2) w1(1) by (auto simp: erodes_def)
          moreover have "frame {dest, ?part} w w4"
            using w1 w2(1) 1 w4 by (auto simp: frame_def same_env_def)
          ultimately show "fetched dest ex w (Inl WriteFailed) w4" by (auto simp: fetched_def)
        qed
        then show ?case by simp
      next
        case (2 w3 d')
        have "d' = d" using 2(2) frameD [OF w2(1), of ?part] w1(1) d(1) by simp
        moreover have "frame {dest, ?part} w w3"
          using w1 w2(1) 2 by (auto simp: frame_def same_env_def)
        ultimately show ?case using 2(4) good by (auto simp: fetched_def)
      qed
    qed
  qed
  show ?thesis
    unfolding conclude_def Let_def wp
  proof (rule wp_flush, goal_cases)
    case (1 w')
    then show ?case using drop [OF 1] by simp
  next
    case (2 w')
    then have "frame {?part} w w'" by (simp add: frame_def)
    then show ?case using drop [of w'] promote [OF 2(2,1)] by (simp cong del: if_weak_cong)
  qed
qed

lemma wp_curl_download:
  assumes "length (expected_sha256 ex) = kDigestSize"
  shows "wp_io (curl_download net url dest ex cb) (fetched dest ex w) w"
proof -
  let ?part = "dest @ ''.part''"
  show ?thesis
  proof (cases "http_isHttpsUrl url \<and> expected_size ex \<noteq> 0 \<and> tr_handle (net url [])")
    case False
    then show ?thesis by (auto simp: curl_download_def wp fetched_part Let_def)
  next
    case True
    have "wp_io (c_open ?part) (\<lambda>opened. if \<not> opened then fetched dest ex w (Inl WriteFailed)
      else wp_io (deliver ?part cb (tr_calls (net url []))
          \<lparr>hasher = reset, sink_written = 0, file_limit = expected_size ex, sink_failed = False\<rparr>)
        (\<lambda>r. wp_io (conclude (net url []) dest ex (fst r) (snd r)) (fetched dest ex w))) w"
    proof (rule wp_open, goal_cases)
      case (1 w1)
      then show ?case by (simp add: fetched_part frame_def)
    next
      case (2 w1)
      have start: "in_step ?part
          \<lparr>hasher = reset, sink_written = 0, file_limit = expected_size ex, sink_failed = False\<rparr> w1"
        using 2(2) represents_reset by (simp add: in_step_def bytes_of_def)
      have w1: "frame {?part} w w1" using 2 by (simp add: frame_def)
      have step: "wp_io (conclude (net url []) dest ex s sink') (fetched dest ex w) w2"
        if "frame {?part} w1 w2" "in_step ?part sink' w2" for s sink' w2
      proof (rule wp_mono [OF wp_conclude [OF that(2) assms]])
        fix r w3 assume "fetched dest ex w2 r w3"
        moreover have "frame {?part} w w2" using frame_trans [OF w1 that(1)] by simp
        ultimately show "fetched dest ex w r w3" by (rule fetched_Inl_trans [rotated])
      qed
      show ?case unfolding simp_thms if_False
        by (rule wp_deliver [OF start]) (use step in simp)
    qed
    with True show ?thesis by (simp add: curl_download_def wp Let_def cong del: if_weak_cong)
  qed
qed

section \<open>Properties\<close>



end
