(* ===== verification/Zip_Extractor.thy ===== *)
theory Zip_Extractor
  imports Sd_File_Store
begin

text \<open>
  Unpacking: \<^verbatim>\<open>infra/archive/zip_extractor.cpp\<close>.  Reading the archive format is the zip library's work and a
  parameter: the entries it lists for the archive's bytes, and the data it delivers for an entry.  Where an
  entry is written is decided by the extraction policy alone.
\<close>

section \<open>Operations\<close>

record ZipEntry =
  entry_name :: string
  uncompressedSize :: "64 word"

text \<open>The library: the entries of an archive, and the data of an entry, or how much arrived before an error.\<close>

record zip_library =
  zip_entries :: "string \<Rightarrow> ZipEntry list"
  zip_data :: "string \<Rightarrow> string \<Rightarrow> string + string"

text \<open>The helper has the same body as the one of the file store.\<close>

definition zip_makeDirectories :: "string \<Rightarrow> bool io" where
  "zip_makeDirectories path = store_makeDirectories path"

definition zip_parentOf :: "string \<Rightarrow> string" where
  "zip_parentOf path =
     (if CHR ''/'' \<notin> set path then []
      else
        (let slash = length path - 1 - length (takeWhile (\<lambda>c. c \<noteq> CHR ''/'') (rev path)) in
         if slash = 0 then [] else take slash path))"

text \<open>The first pass: decide every entry, add up the declared sizes.\<close>

definition plan_entries :: "ExtractionPolicy \<Rightarrow> ZipEntry list \<Rightarrow> (ZipEntry \<times> EntryDecision) list" where
  "plan_entries policy entries = map (\<lambda>e. (e, decide policy (entry_name e))) entries"

definition refused :: "(ZipEntry \<times> EntryDecision) list \<Rightarrow> bool" where
  "refused plan = list_ex (\<lambda>(_, d). action d = Reject) plan"

definition declaredTotal :: "ZipEntry list \<Rightarrow> 64 word" where
  "declaredTotal entries = foldl (\<lambda>acc e. acc + uncompressedSize e) 0 entries"

text \<open>Writing one file: open, stream the data, flush.\<close>

definition extract_file ::
  "zip_library \<Rightarrow> string \<Rightarrow> ZipEntry \<Rightarrow> string \<Rightarrow> ArchiveError option io" where
  "extract_file lib archive entry dest = do {
     opened \<leftarrow> c_open dest;
     if \<not> opened then State_Monad.return (Some ArchiveWriteFailed)
     else (case zip_data lib archive (entry_name entry) of
       Inl partial \<Rightarrow> do {
         _ \<leftarrow> c_append dest partial;
         _ \<leftarrow> c_remove dest;
         State_Monad.return (Some ReadFailed)
       }
     | Inr data \<Rightarrow> do {
         ok \<leftarrow> c_append dest data;
         flushed \<leftarrow> c_flush dest;
         if \<not> ok \<or> \<not> flushed then do {
           _ \<leftarrow> c_remove dest;
           State_Monad.return (Some ArchiveWriteFailed)
         }
         else State_Monad.return None
       })
   }"

text \<open>The second pass: one entry after the other, until something fails or the caller stops it.\<close>

fun carry_out ::
  "zip_library \<Rightarrow> string \<Rightarrow> ExtractionCallback \<Rightarrow> nat \<Rightarrow> nat \<Rightarrow> (ZipEntry \<times> EntryDecision) list \<Rightarrow>
   ExtractionReport \<Rightarrow> (ArchiveError, ExtractionReport) result io" where
  "carry_out lib archive cb i n [] report = State_Monad.return (Inr report)"
| "carry_out lib archive cb i n ((entry, decision) # plan) report =
     (if (case cb of None \<Rightarrow> False | Some f \<Rightarrow>
           \<not> f \<lparr>entriesDone = i, entriesTotal = n, xp_bytesWritten = bytesWritten report,
                 currentEntry = entry_name entry\<rparr>)
      then State_Monad.return (Inl ArchiveAborted)
      else if action decision = SkipPreserved then
        carry_out lib archive cb (i + 1) n plan (report\<lparr>skippedPreserved := skippedPreserved report + 1\<rparr>)
      else if action decision = CreateDirectory then do {
        ok \<leftarrow> zip_makeDirectories (destination decision);
        if \<not> ok then State_Monad.return (Inl DirectoryFailed)
        else carry_out lib archive cb (i + 1) n plan
          (report\<lparr>directoriesCreated := directoriesCreated report + 1\<rparr>)
      }
      else do {
        let parent = zip_parentOf (destination decision);
        ready \<leftarrow> (if parent = [] then State_Monad.return True else zip_makeDirectories parent);
        if \<not> ready then State_Monad.return (Inl DirectoryFailed)
        else do {
          failed \<leftarrow> extract_file lib archive entry (destination decision);
          case failed of
            Some e \<Rightarrow> State_Monad.return (Inl e)
          | None \<Rightarrow> carry_out lib archive cb (i + 1) n plan
              (report\<lparr>filesWritten := filesWritten report + 1,
                      bytesWritten := bytesWritten report + uncompressedSize entry\<rparr>)
        }
      })"

definition extractZip ::
  "zip_library \<Rightarrow> string \<Rightarrow> ExtractionPolicy \<Rightarrow> 64 word \<Rightarrow> ExtractionCallback \<Rightarrow>
   (ArchiveError, ExtractionReport) result io" where
  "extractZip lib archivePath policy maxUncompressedBytes onProgress = do {
     raw \<leftarrow> c_read archivePath;
     let archive = (case raw of None \<Rightarrow> [] | Some bytes \<Rightarrow> bytes);
     let entries = zip_entries lib archive;
     let plan = plan_entries policy entries;
     if entries = [] then State_Monad.return (Inl ArchiveEmpty)
     else if refused plan then State_Monad.return (Inl UnsafeEntry)
     else if maxUncompressedBytes > 0 \<and> declaredTotal entries > maxUncompressedBytes
       then State_Monad.return (Inl ArchiveTooLarge)
     else carry_out lib archive onProgress 0 (length entries) plan
       \<lparr>filesWritten = 0, directoriesCreated = 0, skippedPreserved = 0, bytesWritten = 0, rejected = []\<rparr>
   }"

section \<open>Where extraction writes\<close>

text \<open>Creating directories leaves every file alone.\<close>

lemma wp_mkdir_files: "content w = c \<Longrightarrow> wp_io (c_mkdir p) (\<lambda>_ w'. content w' = c) w"
  by (auto simp: wp_io_def c_mkdir_def Let_def content_def [abs_def] split: outcome.splits)

lemma wp_makeDirectories_files:
  "wp_io (store_makeDirectories p) (\<lambda>_ w'. content w' = content w) w"
proof (cases "p = []")
  case False
  have "wp_io (forM (mkdir_list p) c_mkdir) (\<lambda>_ w'. content w' = content w) w"
    by (rule wp_forM) (rule wp_mkdir_files, simp_all)
  then have "wp_io (forM (mkdir_list p) c_mkdir)
      (\<lambda>_. wp_io (c_is_dir p) (\<lambda>_ w'. content w' = content w)) w"
    by (rule wp_mono) (simp add: wp_io_def c_is_dir_def)
  with False show ?thesis by (simp add: store_makeDirectories_def wp)
qed (simp add: store_makeDirectories_def wp)

text \<open>Only files in a given set have changed; directories may have been added.\<close>

definition touches :: "string set \<Rightarrow> sd \<Rightarrow> sd \<Rightarrow> bool" where
  "touches S w w' = (\<forall>q. q \<notin> S \<longrightarrow> content w' q = content w q)"

lemma touches_refl: "touches S w w"
  by (simp add: touches_def)

lemma touches_trans: "touches S u v \<Longrightarrow> touches S v w \<Longrightarrow> touches S u w"
  by (simp add: touches_def)

lemma frame_touches: "frame {p} w w' \<Longrightarrow> p \<in> S \<Longrightarrow> touches S w w'"
  by (auto simp: touches_def frame_def)

lemma wp_extract_file:
  assumes "dest \<in> S" and "\<And>r w'. touches S w w' \<Longrightarrow> Q r w'"
  shows "wp_io (extract_file lib archive entry dest) Q w"
proof -
  have step: "touches S w w2" if "touches S w w1" "frame {dest} w1 w2" for w1 w2
    using touches_trans [OF that(1) frame_touches [OF that(2) assms(1)]] .
  have upd: "frame {dest} w1 w2" if "same_env w1 w2" "content w2 = (content w1)(dest \<mapsto> x)" for w1 w2 x
    using that by (simp add: frame_def)
  have bad: "wp_io (c_remove dest) (\<lambda>_. Q r) w1" if "touches S w w1" for w1 r
    by (rule wp_remove_frame) (use step that assms(2) in blast)
  have flush: "wp_io (c_flush dest) (\<lambda>flushed. if \<not> ok \<or> \<not> flushed then
      wp_io (c_remove dest) (\<lambda>_. Q (Some ArchiveWriteFailed)) else Q None) w1" if "touches S w w1" for w1 ok
  proof (rule wp_flush, goal_cases)
    case (1 w2)
    then show ?case using bad [OF step [OF that 1]] by simp
  next
    case (2 w2)
    then have "touches S w w2" using that by (simp add: touches_def)
    then show ?case using bad assms(2) by simp
  qed
  show ?thesis unfolding extract_file_def wp
  proof (rule wp_open, goal_cases)
    case (1 w1)
    then show ?case using assms(2) by (simp add: touches_def)
  next
    case (2 w1)
    have w1: "touches S w w1" using step [OF touches_refl upd [OF 2]] .
    show ?case
    proof (cases "zip_data lib archive (entry_name entry)")
      case (Inl partial)
      have "wp_io (c_append dest partial) (\<lambda>_. wp_io (c_remove dest) (\<lambda>_. Q (Some ReadFailed))) w1"
        by (rule wp_append) (use bad step w1 upd in blast)+
      with Inl show ?thesis by simp
    next
      case (Inr data)
      have "wp_io (c_append dest data) (\<lambda>ok. wp_io (c_flush dest) (\<lambda>flushed. if \<not> ok \<or> \<not> flushed then
          wp_io (c_remove dest) (\<lambda>_. Q (Some ArchiveWriteFailed)) else Q None)) w1"
        by (rule wp_append) (use flush step w1 upd in blast)+
      with Inr show ?thesis by simp
    qed
  qed
qed

lemma wp_carry_out:
  assumes "\<And>e d. (e, d) \<in> set plan \<Longrightarrow> action d \<noteq> SkipPreserved \<Longrightarrow> destination d \<in> S"
    and "\<And>r w'. touches S w w' \<Longrightarrow> Q r w'"
  shows "wp_io (carry_out lib archive cb i n plan report) Q w"
  using assms
proof (induction plan arbitrary: w i report)
  case Nil
  then show ?case by (simp add: wp touches_refl)
next
  case (Cons x plan)
  obtain entry d where x: "x = (entry, d)" by (cases x)
  have IH: "wp_io (carry_out lib archive cb j n plan rep) Q w'" if "touches S w w'" for j rep w'
    by (rule Cons.IH) (use Cons.prems touches_trans [OF that] in auto)
  have stop: "Q r w'" if "touches S w w'" for r w' using Cons.prems(2) that .
  have dirs: "wp_io (zip_makeDirectories p) (\<lambda>ok. if \<not> ok then Q (Inl DirectoryFailed) else K ok) w"
    if "\<And>w' b. touches S w w' \<Longrightarrow> K b w'" for p K
    unfolding zip_makeDirectories_def
    by (rule wp_mono [OF wp_makeDirectories_files]) (use that stop in \<open>auto simp: touches_def\<close>)
  have one_file: "wp_io (extract_file lib archive entry (destination d)) (\<lambda>failed. case failed of
      Some e \<Rightarrow> Q (Inl e) | None \<Rightarrow> wp_io (carry_out lib archive cb (i + 1) n plan rep) Q) w'"
    if "action d \<noteq> SkipPreserved" "touches S w w'" for rep w'
    by (rule wp_extract_file [where S = S])
      (use Cons.prems(1) x that IH stop touches_trans in \<open>auto split: option.split\<close>)
  show ?case
    unfolding x carry_out.simps wp Let_def
    using IH stop dirs one_file touches_refl [of S w]
    by (auto simp: wp split: option.split cong del: if_weak_cong)
qed

section \<open>Properties\<close>

text \<open>The archive's bytes as the extractor reads them.\<close>

definition archive_bytes :: "sd \<Rightarrow> string \<Rightarrow> string" where
  "archive_bytes w path = (case content w path of None \<Rightarrow> [] | Some bytes \<Rightarrow> bytes)"

definition write_targets :: "zip_library \<Rightarrow> ExtractionPolicy \<Rightarrow> string \<Rightarrow> string set" where
  "write_targets lib policy archive =
     {destination (decide policy (entry_name e)) | e.
        e \<in> set (zip_entries lib archive) \<and> writes (decide policy (entry_name e))}"

lemma write_target_location:
  assumes "q \<in> write_targets lib policy archive"
  shows "\<exists>below. location q = location (m_root policy) @ below"
proof -
  from assms obtain e :: ZipEntry where q: "q = destination (decide policy (entry_name e))"
    and "writes (decide policy (entry_name e))" unfolding write_targets_def by blast
  then have "action (decide policy (entry_name e)) \<noteq> Reject" by (auto simp: writes_def)
  then have "resolveUnder (m_root policy) (entry_name e) = Inr q" using q by (simp add: decide_resolved)
  then show ?thesis by (auto simp: resolveUnder_Inr_iff location_glue location_entry)
qed

lemma refused_iff:
  "refused (plan_entries policy entries) \<longleftrightarrow> (\<exists>e\<in>set entries. action (decide policy (entry_name e)) = Reject)"
  by (auto simp: refused_def plan_entries_def list_ex_iff)

lemma wp_extractZip:
  "wp_io (extractZip lib path policy limit cb) (\<lambda>r w'.
    touches (write_targets lib policy (archive_bytes w path)) w w' \<and>
    (refused (plan_entries policy (zip_entries lib (archive_bytes w path))) \<or> 0 < limit \<and> limit < declaredTotal (zip_entries lib (archive_bytes w path)) \<longrightarrow>
      w' = w \<and> (\<exists>e. r = Inl e))) w"
proof -
  let ?a = "archive_bytes w path"
  let ?entries = "zip_entries lib ?a" and ?S = "write_targets lib policy ?a"
  let ?plan = "plan_entries policy ?entries"
  have raw: "(case content w path of None \<Rightarrow> [] | Some bytes \<Rightarrow> bytes) = ?a" by (simp add: archive_bytes_def)
  have "wp_io (carry_out lib ?a cb 0 (length ?entries) ?plan
      \<lparr>filesWritten = 0, directoriesCreated = 0, skippedPreserved = 0, bytesWritten = 0, rejected = []\<rparr>)
      (\<lambda>_. touches ?S w) w" if "\<not> refused ?plan"
  proof (rule wp_carry_out)
    fix e d assume "(e, d) \<in> set ?plan" "action d \<noteq> SkipPreserved"
    with that refused_iff show "destination d \<in> ?S"
      by (cases "action d") (auto simp: plan_entries_def write_targets_def writes_def)
  qed
  then show ?thesis
    unfolding extractZip_def wp Let_def raw
    using touches_refl [of ?S w] wp_mono [of _ "\<lambda>_. touches ?S w" w]
    by (auto simp: refused_def plan_entries_def declaredTotal_def cong del: if_weak_cong)
qed

text \<open>C8: Extraction is confined, whatever the archive contains, whatever the library delivers and whichever card
  operations fail: a file that changes is the destination of an entry the policy decided to write, which
  leads below the policy's root.  And when one entry is refused, or the declared size is above the limit,
  nothing on the card changes at all.\<close>

theorem extractZip_confined:
  "case run_state (extractZip lib path policy limit cb) w of (r, w') \<Rightarrow>
     (\<forall>q. content w' q \<noteq> content w q \<longrightarrow>
        q \<in> write_targets lib policy (archive_bytes w path) \<and>
        (\<exists>below. location q = location (m_root policy) @ below)) \<and>
     ((\<exists>e\<in>set (zip_entries lib (archive_bytes w path)). action (decide policy (entry_name e)) = Reject) \<or>
      0 < limit \<and> limit < declaredTotal (zip_entries lib (archive_bytes w path)) \<longrightarrow>
        w' = w \<and> (\<exists>e. r = Inl e))"
  using wp_extractZip [of lib path policy limit cb w]
    write_target_location [where lib = lib and policy = policy and archive = "archive_bytes w path"]
  unfolding refused_iff wp_io_def touches_def case_prod_unfold by blast

text \<open>An archive of two entries, the second of which tries to leave the destination.\<close>

definition hostile_library :: zip_library where
  "hostile_library =
     \<lparr>zip_entries = (\<lambda>_. [\<lparr>entry_name = ''a.txt'', uncompressedSize = 1\<rparr>,
                         \<lparr>entry_name = ''../b.txt'', uncompressedSize = 1\<rparr>]),
      zip_data = (\<lambda>_ _. Inr ''x'')\<rparr>"

theorem extractZip_confined_witness:
  "snd (run_state (extractZip hostile_library ''/p.zip''
       \<lparr>m_root = ''/out'', m_preserve = Preserve_Rules.parse []\<rparr> 0 None)
     \<lparr>files = [], dirs = [''/out''], fate = (\<lambda>_. Done), tick = 0\<rparr>) =
   \<lparr>files = [], dirs = [''/out''], fate = (\<lambda>_. Done), tick = 0\<rparr>"
proof -
  let ?p = "\<lparr>m_root = ''/out'', m_preserve = Preserve_Rules.parse []\<rparr>"
  let ?w = "\<lparr>files = [], dirs = [''/out''], fate = (\<lambda>_. Done), tick = 0\<rparr>"
  have "action (decide ?p ''../b.txt'') = Reject" by code_simp
  then have "\<exists>e\<in>set (zip_entries hostile_library (archive_bytes ?w ''/p.zip'')).
      action (decide ?p (entry_name e)) = Reject"
    by (auto simp: hostile_library_def)
  then show ?thesis
    using extractZip_confined [where lib = hostile_library and path = "''/p.zip''" and policy = ?p and limit = 0
      and cb = None and w = ?w]
    by (auto simp: case_prod_unfold)
qed

end
