(* ===== verification/Cfw_Install.thy ===== *)
theory Cfw_Install
  imports Catalog Merge_Marker Ports Sd_File_Store
begin

text \<open>
  Installing a pack: \<^verbatim>\<open>domain/cfw/cfw_install_service.hpp\<close> and \<^verbatim>\<open>cfw_install_service.cpp\<close>.  The service is
  written against the ports, so its model takes the gateways as records of operations over an arbitrary
  world; the JSON library and the clock are arguments.
\<close>

section \<open>Configuration\<close>

record CfwInstallConfig =
  stagingRoot :: string
  sdRoot :: string
  atmosphereContents :: string
  bootloader :: string
  firmwareStaging :: string
  switchApps :: string
  themes :: string
  freeSpaceHeadroomPercent :: int
  maxUncompressedBytes :: "64 word"

definition default_CfwInstallConfig :: CfwInstallConfig where
  "default_CfwInstallConfig =
     \<lparr>stagingRoot = ''/config/nsx-manager/staging/cfw'', sdRoot = ''/'',
      atmosphereContents = ''/atmosphere/contents'', bootloader = ''/bootloader'',
      firmwareStaging = ''/firmware'', switchApps = ''/switch'', themes = ''/themes'',
      freeSpaceHeadroomPercent = 250, maxUncompressedBytes = 6 * 1024 * 1024 * 1024\<rparr>"

fun cfw_resolve :: "CfwInstallConfig \<Rightarrow> InstallTarget \<Rightarrow> string" where
  "cfw_resolve config SdRoot = sdRoot config"
| "cfw_resolve config AtmosphereContents = atmosphereContents config"
| "cfw_resolve config Bootloader = bootloader config"
| "cfw_resolve config FirmwareStaging = firmwareStaging config"
| "cfw_resolve config SwitchApps = switchApps config"
| "cfw_resolve config Themes = themes config"

definition stagingFor :: "CfwInstallConfig \<Rightarrow> string \<Rightarrow> string" where
  "stagingFor config ident = stagingRoot config @ ''/'' @ ident"

definition archiveFor :: "CfwInstallConfig \<Rightarrow> string \<Rightarrow> string" where
  "archiveFor config ident = stagingRoot config @ ''/'' @ ident @ ''.zip''"

definition backupFor :: "CfwInstallConfig \<Rightarrow> string \<Rightarrow> string" where
  "backupFor config ident = stagingRoot config @ ''/'' @ ident @ ''.backup''"

definition markerPath :: "CfwInstallConfig \<Rightarrow> string" where
  "markerPath config = stagingRoot config @ ''/merge.json''"

definition mergeFileListPath :: "CfwInstallConfig \<Rightarrow> string" where
  "mergeFileListPath config = stagingRoot config @ ''/merge.files''"

section \<open>Outcomes and progress\<close>

datatype InstallResult =
    InstallInstalled | InsufficientSpace | DownloadFailed | VerifyFailed | UnsafeArchive | ExtractFailed
  | MergeFailed | InstallRolledBack | Cancelled | Busy

datatype InstallStage = Preflight | Downloading | Extracting | Merging

record InstallProgress =
  ip_stage :: InstallStage
  ip_done :: "64 word"
  ip_total :: "64 word"
  ip_detail :: string

type_synonym InstallCallback = "(InstallProgress \<Rightarrow> bool) option"

record InstallOutcome =
  io_result :: InstallResult
  filesMerged :: nat
  filesPreserved :: nat
  filesReplaced :: nat
  io_transport :: HttpError
  io_detail :: string

definition empty_InstallOutcome :: InstallOutcome where
  "empty_InstallOutcome =
     \<lparr>io_result = DownloadFailed, filesMerged = 0, filesPreserved = 0, filesReplaced = 0,
      io_transport = NoError, io_detail = []\<rparr>"

definition io_installed :: "InstallOutcome \<Rightarrow> bool" where
  "io_installed out = (io_result out = InstallInstalled)"

definition cardUnchanged :: "InstallOutcome \<Rightarrow> bool" where
  "cardUnchanged out = (io_result out \<noteq> InstallInstalled \<and> io_result out \<noteq> MergeFailed)"

fun describe_InstallResult :: "InstallResult \<Rightarrow> string" where
  "describe_InstallResult InstallInstalled = ''installed''"
| "describe_InstallResult InsufficientSpace = ''not enough free space''"
| "describe_InstallResult DownloadFailed = ''the download failed''"
| "describe_InstallResult VerifyFailed = ''the download did not verify''"
| "describe_InstallResult UnsafeArchive =
     ''the package contains a file that would be written outside its destination''"
| "describe_InstallResult ExtractFailed = ''the package could not be expanded''"
| "describe_InstallResult MergeFailed = ''the installation could not be completed''"
| "describe_InstallResult InstallRolledBack = ''the installation failed and was undone''"
| "describe_InstallResult Cancelled = ''cancelled''"
| "describe_InstallResult Busy = ''another installation is already in progress''"

definition finish_with :: "InstallOutcome \<Rightarrow> InstallResult \<Rightarrow> string \<Rightarrow> InstallOutcome" where
  "finish_with out r detail = out\<lparr>io_result := r, io_detail := detail\<rparr>"

definition report_progress :: "InstallCallback \<Rightarrow> InstallStage \<Rightarrow> 64 word \<Rightarrow> 64 word \<Rightarrow> string \<Rightarrow> bool" where
  "report_progress onProgress stage completed of_total detail =
     (case onProgress of
        None \<Rightarrow> True
      | Some f \<Rightarrow> f \<lparr>ip_stage = stage, ip_done = completed, ip_total = of_total, ip_detail = detail\<rparr>)"

section \<open>Helpers\<close>

definition cfw_join :: "string \<Rightarrow> string \<Rightarrow> string" where
  "cfw_join root relative =
     (if root = [] \<or> root = ''/'' then ''/'' @ relative
      else if last root = CHR ''/'' then root @ relative
      else root @ ''/'' @ relative)"

definition kPartialRestore :: string where
  "kPartialRestore =
     ''the installation failed and some files could not be put back - reinstall the pack to be '' @ ''sure''"

definition cfw_parentOf :: "string \<Rightarrow> string" where
  "cfw_parentOf path = (if CHR ''/'' \<notin> set path \<or> parent_dir path = [] then [] else parent_dir path)"

text \<open>The operations of the service on the file store.\<close>

definition discardStaging :: "'w FileStore \<Rightarrow> CfwInstallConfig \<Rightarrow> string \<Rightarrow> ('w, unit) state" where
  "discardStaging fs config ident = do {
     _ \<leftarrow> fs_removeTree fs (stagingFor config ident);
     _ \<leftarrow> fs_remove fs (archiveFor config ident @ ''.part'');
     _ \<leftarrow> fs_remove fs (archiveFor config ident);
     State_Monad.return ()
   }"

definition cfw_commit :: "'w FileStore \<Rightarrow> CfwInstallConfig \<Rightarrow> MergeMarker \<Rightarrow> ('w, unit) state" where
  "cfw_commit fs config marker = do {
     _ \<leftarrow> fs_removeTree fs (backupDir marker);
     _ \<leftarrow> fs_removeTree fs (stagingDir marker);
     _ \<leftarrow> fs_remove fs (archiveFor config (itemId marker));
     _ \<leftarrow> fs_remove fs (mergeFileListPath config);
     _ \<leftarrow> fs_remove fs (markerPath config);
     State_Monad.return ()
   }"

section \<open>Rolling back\<close>

fun restore_all :: "'w FileStore \<Rightarrow> MergeMarker \<Rightarrow> string list \<Rightarrow> bool \<Rightarrow> ('w, bool) state" where
  "restore_all fs marker [] complete = State_Monad.return complete"
| "restore_all fs marker (relative # rest) complete = do {
     let to = cfw_join (destinationRoot marker) relative;
     let parent = cfw_parentOf to;
     _ \<leftarrow> (if parent \<noteq> [] then fs_makeDirectories fs parent else State_Monad.return True);
     ok \<leftarrow> fs_rename fs (cfw_join (backupDir marker) relative) to;
     restore_all fs marker rest (if \<not> ok then False else complete)
   }"

definition remove_created :: "'w FileStore \<Rightarrow> MergeMarker \<Rightarrow> string list \<Rightarrow> string \<Rightarrow> ('w, unit) state" where
  "remove_created fs marker displaced relative =
     (if relative \<in> set displaced then State_Monad.return ()
      else do {
        staged \<leftarrow> fs_exists fs (cfw_join (stagingDir marker) relative);
        if staged then State_Monad.return ()
        else do {
          _ \<leftarrow> fs_remove fs (cfw_join (destinationRoot marker) relative);
          State_Monad.return ()
        }
      })"

definition cfw_rollBack ::
  "'w FileStore \<Rightarrow> CfwInstallConfig \<Rightarrow> MergeMarker \<Rightarrow> string list \<Rightarrow> ('w, bool) state" where
  "cfw_rollBack fs config marker planned = do {
     backedUp \<leftarrow> fs_listFilesRecursive fs (backupDir marker);
     complete \<leftarrow> restore_all fs marker backedUp True;
     _ \<leftarrow> forM planned (remove_created fs marker backedUp);
     _ \<leftarrow> fs_removeTree fs (backupDir marker);
     _ \<leftarrow> fs_removeTree fs (stagingDir marker);
     _ \<leftarrow> fs_remove fs (archiveFor config (itemId marker));
     _ \<leftarrow> fs_remove fs (mergeFileListPath config);
     _ \<leftarrow> fs_remove fs (markerPath config);
     State_Monad.return complete
   }"

section \<open>The merge\<close>

text \<open>Undo and report: the result is the given one if everything could be put back.\<close>

definition abandon ::
  "'w FileStore \<Rightarrow> CfwInstallConfig \<Rightarrow> MergeMarker \<Rightarrow> string list \<Rightarrow> InstallOutcome \<Rightarrow> InstallResult \<Rightarrow> string \<Rightarrow>
   ('w, InstallOutcome + InstallOutcome) state" where
  "abandon fs config marker toWrite out r detail = do {
     restored \<leftarrow> cfw_rollBack fs config marker toWrite;
     State_Monad.return (Inl (finish_with out (if restored then r else MergeFailed)
       (if restored then detail else kPartialRestore)))
   }"

text \<open>Moving one staged file into place: \<open>Inl\<close> is the early return of the whole merge.\<close>

definition place_file ::
  "'w FileStore \<Rightarrow> CfwInstallConfig \<Rightarrow> MergeMarker \<Rightarrow> string list \<Rightarrow> InstallOutcome \<Rightarrow> string \<Rightarrow>
   ('w, InstallOutcome + InstallOutcome) state" where
  "place_file fs config marker toWrite out relative = do {
     let source = cfw_join (stagingDir marker) relative;
     let target = cfw_join (destinationRoot marker) relative;
     let targetParent = cfw_parentOf target;
     ok \<leftarrow> (if targetParent \<noteq> [] then fs_makeDirectories fs targetParent else State_Monad.return True);
     if \<not> ok then
       abandon fs config marker toWrite out InstallRolledBack (''could not create a directory for '' @ relative)
     else do {
       moved \<leftarrow> fs_rename fs source target;
       if \<not> moved then
         abandon fs config marker toWrite out InstallRolledBack
           (''could not install '' @ relative @ ''; the previous files were restored'')
       else State_Monad.return (Inr (out\<lparr>filesMerged := filesMerged out + 1\<rparr>))
     }
   }"

definition set_aside ::
  "'w FileStore \<Rightarrow> CfwInstallConfig \<Rightarrow> MergeMarker \<Rightarrow> string list \<Rightarrow> InstallOutcome \<Rightarrow> string \<Rightarrow>
   ('w, InstallOutcome + InstallOutcome) state" where
  "set_aside fs config marker toWrite out relative = do {
     let target = cfw_join (destinationRoot marker) relative;
     there \<leftarrow> fs_exists fs target;
     if \<not> there then State_Monad.return (Inr out)
     else do {
       let backup = cfw_join (backupDir marker) relative;
       let backupParent = cfw_parentOf backup;
       ok \<leftarrow> (if backupParent \<noteq> [] then fs_makeDirectories fs backupParent else State_Monad.return True);
       if \<not> ok then
         abandon fs config marker toWrite out InstallRolledBack
           (''could not back up '' @ relative @ ''; nothing was changed'')
       else do {
         moved \<leftarrow> fs_rename fs target backup;
         if \<not> moved then
           abandon fs config marker toWrite out InstallRolledBack
             (''could not set aside '' @ relative @ ''; nothing was changed'')
         else State_Monad.return (Inr (out\<lparr>filesReplaced := filesReplaced out + 1\<rparr>))
       }
     }
   }"

fun merge_loop ::
  "'w FileStore \<Rightarrow> CfwInstallConfig \<Rightarrow> MergeMarker \<Rightarrow> string list \<Rightarrow> InstallCallback \<Rightarrow> nat \<Rightarrow> InstallOutcome \<Rightarrow>
   string list \<Rightarrow> ('w, InstallOutcome + InstallOutcome) state" where
  "merge_loop fs config marker toWrite onProgress completed out [] = State_Monad.return (Inr out)"
| "merge_loop fs config marker toWrite onProgress completed out (relative # rest) = do {
     let completed = completed + 1;
     if \<not> report_progress onProgress Merging (of_nat completed) (of_nat (length toWrite)) relative then
       abandon fs config marker toWrite out Cancelled ''cancelled; the previous files were restored''
     else do {
       aside \<leftarrow> set_aside fs config marker toWrite out relative;
       case aside of
         Inl stopped \<Rightarrow> State_Monad.return (Inl stopped)
       | Inr out \<Rightarrow> do {
           placed \<leftarrow> place_file fs config marker toWrite out relative;
           case placed of
             Inl stopped \<Rightarrow> State_Monad.return (Inl stopped)
           | Inr out \<Rightarrow> merge_loop fs config marker toWrite onProgress completed out rest
         }
     }
   }"

text \<open>What will be written, and how many files the rules preserve.\<close>

fun plan_merge ::
  "'w FileStore \<Rightarrow> PreserveRules \<Rightarrow> string \<Rightarrow> string list \<Rightarrow> nat \<Rightarrow> string list \<Rightarrow> ('w, string list \<times> nat) state" where
  "plan_merge fs preserve dest toWrite kept [] = State_Monad.return (toWrite, kept)"
| "plan_merge fs preserve dest toWrite kept (relative # rest) =
     (if preserves preserve relative then do {
        there \<leftarrow> fs_exists fs (cfw_join dest relative);
        if there then plan_merge fs preserve dest toWrite (kept + 1) rest
        else plan_merge fs preserve dest (toWrite @ [relative]) kept rest
      }
      else plan_merge fs preserve dest (toWrite @ [relative]) kept rest)"

definition planned_text :: "string list \<Rightarrow> string" where
  "planned_text toWrite = concat (map (\<lambda>relative. relative @ [CHR 0x0A]) toWrite)"

text \<open>The moves and the commit.\<close>

definition run_merge ::
  "'w FileStore \<Rightarrow> CfwInstallConfig \<Rightarrow> CatalogItem \<Rightarrow> MergeMarker \<Rightarrow> string list \<Rightarrow> InstallOutcome \<Rightarrow> InstallCallback \<Rightarrow>
   ('w, InstallOutcome) state" where
  "run_merge fs config item marker toWrite out onProgress = do {
     merged \<leftarrow> merge_loop fs config marker toWrite onProgress 0 out toWrite;
     case merged of
       Inl stopped \<Rightarrow> State_Monad.return stopped
     | Inr out \<Rightarrow> do {
         cfw_commit fs config marker;
         State_Monad.return (finish_with out InstallInstalled
           (''installed '' @ item_name item @
            (if item_versionText item = [] then [] else '' '' @ item_versionText item)))
       }
   }"

text \<open>The plan and the marker are on the card before the first move.\<close>

definition record_and_merge ::
  "'w FileStore \<Rightarrow> CfwInstallConfig \<Rightarrow> CatalogItem \<Rightarrow> MergeMarker \<Rightarrow> string \<Rightarrow> string list \<Rightarrow> InstallOutcome \<Rightarrow>
   InstallCallback \<Rightarrow> ('w, InstallOutcome) state" where
  "record_and_merge fs config item marker doc toWrite out onProgress = do {
     recorded \<leftarrow> fs_writeAtomic fs (mergeFileListPath config) (planned_text toWrite);
     if \<not> recorded then do {
       discardStaging fs config (item_id item);
       State_Monad.return (finish_with out MergeFailed ''could not record what the installation would write'')
     }
     else do {
       marked \<leftarrow> fs_writeAtomic fs (markerPath config) doc;
       if \<not> marked then do {
         _ \<leftarrow> fs_remove fs (mergeFileListPath config);
         discardStaging fs config (item_id item);
         State_Monad.return (finish_with out MergeFailed ''could not record the installation'')
       }
       else run_merge fs config item marker toWrite out onProgress
     }
   }"

definition mergeStagedTree ::
  "'w FileStore \<Rightarrow> (string \<Rightarrow> json option) \<Rightarrow> (json \<Rightarrow> string) \<Rightarrow> int \<Rightarrow> CfwInstallConfig \<Rightarrow> CatalogItem \<Rightarrow>
   PreserveRules \<Rightarrow> string \<Rightarrow> string \<Rightarrow> InstallCallback \<Rightarrow> ('w, InstallOutcome) state" where
  "mergeStagedTree fs jparse jdump nowUnix config item preserve staging dest onProgress = do {
     staged \<leftarrow> fs_listFilesRecursive fs staging;
     if staged = [] then do {
       discardStaging fs config (item_id item);
       State_Monad.return (finish_with empty_InstallOutcome ExtractFailed ''the package expanded to nothing'')
     }
     else do {
       let marker = \<lparr>mm_schemaVersion = kSupportedMergeMarkerSchema, mm_createdAtUnix = nowUnix,
         itemId = item_id item, itemName = item_name item, stagingDir = staging, destinationRoot = dest,
         backupDir = backupFor config (item_id item)\<rparr>;
       let doc = serializeMergeMarker jdump marker;
       if \<not> has_value (parseMergeMarker jparse doc) then do {
         discardStaging fs config (item_id item);
         State_Monad.return (finish_with empty_InstallOutcome MergeFailed
           ''refusing to start a merge this build could not undo'')
       }
       else do {
         (toWrite, kept) \<leftarrow> plan_merge fs preserve dest [] 0 staged;
         record_and_merge fs config item marker doc toWrite (empty_InstallOutcome\<lparr>filesPreserved := kept\<rparr>)
           onProgress
       }
     }
   }"

section \<open>Recovery\<close>

definition plan_lines :: "string \<Rightarrow> string list" where
  "plan_lines raw = filter (\<lambda>l. l \<noteq> []) (split_on (CHR 0x0A) raw)"

definition readPlannedFiles :: "'w FileStore \<Rightarrow> CfwInstallConfig \<Rightarrow> ('w, string list) state" where
  "readPlannedFiles fs config = do {
     raw \<leftarrow> fs_readText fs (mergeFileListPath config) (8 * 1024 * 1024);
     State_Monad.return (case raw of None \<Rightarrow> [] | Some txt \<Rightarrow> plan_lines txt)
   }"

text \<open>The marker, when it is there and readable, with what is present on the card.\<close>

definition look_around ::
  "'w FileStore \<Rightarrow> (string \<Rightarrow> json option) \<Rightarrow> CfwInstallConfig \<Rightarrow>
   ('w, MergeMarker option \<times> MergePresence) state" where
  "look_around fs jparse config = do {
     let nothing = \<lparr>mp_marker = False, mp_staging = False, mp_backup = False, mp_destination = False\<rparr>;
     marked \<leftarrow> fs_exists fs (markerPath config);
     if \<not> marked then State_Monad.return (None, nothing)
     else do {
       raw \<leftarrow> fs_readText fs (markerPath config) (64 * 1024);
       case raw of
         None \<Rightarrow> State_Monad.return (None, nothing\<lparr>mp_marker := True\<rparr>)
       | Some txt \<Rightarrow>
           (case parseMergeMarker jparse txt of
              Inl e \<Rightarrow> State_Monad.return (None, nothing\<lparr>mp_marker := True\<rparr>)
            | Inr marker \<Rightarrow> do {
                staged \<leftarrow> fs_listFilesRecursive fs (stagingDir marker);
                backedUp \<leftarrow> fs_listFilesRecursive fs (backupDir marker);
                State_Monad.return (Some marker,
                  \<lparr>mp_marker = True, mp_staging = staged \<noteq> [], mp_backup = backedUp \<noteq> [], mp_destination = True\<rparr>)
              })
     }
   }"

definition clean_up_only ::
  "'w FileStore \<Rightarrow> CfwInstallConfig \<Rightarrow> MergeMarker option \<Rightarrow> ('w, unit) state" where
  "clean_up_only fs config marker = do {
     _ \<leftarrow> (case marker of
        None \<Rightarrow> State_Monad.return ()
      | Some m \<Rightarrow> do {
          _ \<leftarrow> fs_removeTree fs (stagingDir m);
          _ \<leftarrow> fs_removeTree fs (backupDir m);
          _ \<leftarrow> fs_remove fs (archiveFor config (itemId m));
          State_Monad.return ()
        });
     _ \<leftarrow> fs_remove fs (mergeFileListPath config);
     _ \<leftarrow> fs_remove fs (markerPath config);
     State_Monad.return ()
   }"

text \<open>Rolling back what an earlier run left behind.\<close>

definition undo_merge ::
  "'w FileStore \<Rightarrow> CfwInstallConfig \<Rightarrow> MergeMarker \<Rightarrow> string \<Rightarrow> ('w, InstallOutcome) state" where
  "undo_merge fs config marker why = do {
     toRestore \<leftarrow> fs_listFilesRecursive fs (backupDir marker);
     planned \<leftarrow> readPlannedFiles fs config;
     complete \<leftarrow> cfw_rollBack fs config marker planned;
     let out = empty_InstallOutcome\<lparr>filesReplaced := length toRestore\<rparr>;
     State_Monad.return (finish_with out (if complete then InstallRolledBack else MergeFailed)
       (if \<not> complete then ''some files could not be restored; reinstall the pack to be sure''
        else if planned = [] then
          why @ '' - the list of installed files was lost, so some of the new '' @ ''package may remain''
        else why))
   }"

definition recoverInterruptedMerge ::
  "'w FileStore \<Rightarrow> (string \<Rightarrow> json option) \<Rightarrow> CfwInstallConfig \<Rightarrow> ('w, InstallOutcome) state" where
  "recoverInterruptedMerge fs jparse config = do {
     (marker, present) \<leftarrow> look_around fs jparse config;
     let decision = decideMergeRecovery marker present;
     case merge_action decision of
       MergeNothing \<Rightarrow>
         State_Monad.return (finish_with empty_InstallOutcome InstallInstalled (merge_reason decision))
     | MergeUnrecoverable \<Rightarrow>
         State_Monad.return (finish_with empty_InstallOutcome MergeFailed (merge_reason decision))
     | CleanUpOnly \<Rightarrow> do {
         clean_up_only fs config marker;
         State_Monad.return (finish_with empty_InstallOutcome InstallRolledBack (merge_reason decision))
       }
     | MergeRollBack \<Rightarrow> undo_merge fs config (the marker) (merge_reason decision)
   }"

section \<open>Installing\<close>

definition install_needed :: "CfwInstallConfig \<Rightarrow> 64 word \<Rightarrow> 64 word" where
  "install_needed config bytes = bytes + bytes * word_of_int (freeSpaceHeadroomPercent config) div 100"

definition space_message :: "64 word \<Rightarrow> 64 word \<Rightarrow> string" where
  "space_message needed free =
     ''need about '' @ show_nat (unat (needed div 1024 div 1024)) @ '' MB free, have '' @
     show_nat (unat (free div 1024 div 1024)) @ '' MB''"

fun download_result :: "HttpError \<Rightarrow> InstallResult" where
  "download_result DigestMismatch = VerifyFailed"
| "download_result SizeMismatch = VerifyFailed"
| "download_result Aborted = Cancelled"
| "download_result _ = DownloadFailed"

fun extract_result :: "ArchiveError \<Rightarrow> InstallResult" where
  "extract_result UnsafeEntry = UnsafeArchive"
| "extract_result ArchiveAborted = Cancelled"
| "extract_result _ = ExtractFailed"

text \<open>Steps 3 to 5: expand into the staging tree, then merge.\<close>

definition expand_and_merge ::
  "'w ArchiveGateway \<Rightarrow> 'w FileStore \<Rightarrow> (string \<Rightarrow> json option) \<Rightarrow> (json \<Rightarrow> string) \<Rightarrow> int \<Rightarrow> CfwInstallConfig \<Rightarrow>
   CatalogItem \<Rightarrow> PreserveRules \<Rightarrow> InstallCallback \<Rightarrow> ('w, InstallOutcome) state" where
  "expand_and_merge archives fs jparse jdump nowUnix config item preserve onProgress =
     (let staging = stagingFor config (item_id item) in
      if \<not> report_progress onProgress Extracting 0 0 (item_name item) then do {
        discardStaging fs config (item_id item);
        State_Monad.return (finish_with empty_InstallOutcome Cancelled ''cancelled'')
      }
      else do {
        made \<leftarrow> fs_makeDirectories fs staging;
        if \<not> made then do {
          discardStaging fs config (item_id item);
          State_Monad.return (finish_with empty_InstallOutcome ExtractFailed (''could not create '' @ staging))
        }
        else do {
          extracted \<leftarrow> arch_extract archives (archiveFor config (item_id item))
            \<lparr>m_root = staging, m_preserve = Preserve_Rules.parse []\<rparr> (maxUncompressedBytes config)
            (case onProgress of None \<Rightarrow> None | Some _ \<Rightarrow>
               Some (\<lambda>p. report_progress onProgress Extracting (of_nat (entriesDone p)) (of_nat (entriesTotal p))
                 (if currentEntry p = [] then item_name item else currentEntry p)));
          case extracted of
            Inl e \<Rightarrow> do {
              discardStaging fs config (item_id item);
              State_Monad.return (finish_with empty_InstallOutcome (extract_result e) (describe_ArchiveError e))
            }
          | Inr _ \<Rightarrow>
              mergeStagedTree fs jparse jdump nowUnix config item
                (if honourPreserveRules item then preserve else Preserve_Rules.parse []) staging
                (cfw_resolve config (item_target item)) onProgress
        }
      })"

definition cfw_install ::
  "'w HttpGateway \<Rightarrow> 'w ArchiveGateway \<Rightarrow> 'w FileStore \<Rightarrow> (string \<Rightarrow> json option) \<Rightarrow> (json \<Rightarrow> string) \<Rightarrow> int \<Rightarrow>
   CfwInstallConfig \<Rightarrow> CatalogItem \<Rightarrow> PreserveRules \<Rightarrow> InstallCallback \<Rightarrow> ('w, InstallOutcome) state" where
  "cfw_install http archives fs jparse jdump nowUnix config item preserve onProgress = do {
     busy \<leftarrow> fs_exists fs (markerPath config);
     if busy then
       State_Monad.return (finish_with empty_InstallOutcome Busy ''an interrupted installation must be resolved first'')
     else if \<not> report_progress onProgress Preflight 0 0 (item_name item) then
       State_Monad.return (finish_with empty_InstallOutcome Cancelled ''cancelled'')
     else do {
       discardStaging fs config (item_id item);
       _ \<leftarrow> fs_removeTree fs (backupFor config (item_id item));
       made \<leftarrow> fs_makeDirectories fs (stagingRoot config);
       if \<not> made then
         State_Monad.return (finish_with empty_InstallOutcome MergeFailed
           (''could not create '' @ stagingRoot config))
       else do {
         free \<leftarrow> fs_freeSpaceBytes fs (stagingRoot config);
         let needed = install_needed config (item_size item);
         if free \<noteq> None \<and> the free < needed then
           State_Monad.return (finish_with empty_InstallOutcome InsufficientSpace (space_message needed (the free)))
         else if \<not> report_progress onProgress Downloading 0 (item_size item) (item_name item) then
           State_Monad.return (finish_with empty_InstallOutcome Cancelled ''cancelled'')
         else do {
           downloaded \<leftarrow> http_download http (item_url item) (archiveFor config (item_id item))
             \<lparr>expected_size = item_size item, expected_sha256 = item_sha256 item\<rparr>
             (case onProgress of None \<Rightarrow> None | Some _ \<Rightarrow>
                Some (\<lambda>p. report_progress onProgress Downloading (received p) (expected_total p) (item_name item)));
           case downloaded of
             Inl e \<Rightarrow> do {
               discardStaging fs config (item_id item);
               State_Monad.return ((finish_with empty_InstallOutcome (download_result e) (describe_HttpError e))
                 \<lparr>io_transport := e\<rparr>)
             }
           | Inr _ \<Rightarrow>
               expand_and_merge archives fs jparse jdump nowUnix config item preserve onProgress
         }
       }
     }
   }"

end
