(* ===== verification/Card_Tree.thy ===== *)
theory Card_Tree
  imports Sd_Card
begin

text \<open>
  The directory tree on the card: which cards are well formed, that every call of the C library keeps them
  so, and what the calls do while the power may be lost.  The file store and the installers rest on these
  facts.
\<close>

section \<open>Paths\<close>

text \<open>Names a FAT volume can hold, and absolute paths made of them.\<close>

definition name_ok :: "string \<Rightarrow> bool" where
  "name_ok n =
     (n \<noteq> [] \<and> n \<noteq> ''.'' \<and> n \<noteq> ''..'' \<and>
      list_all (\<lambda>c. c \<noteq> CHR ''/'' \<and> c \<noteq> CHR '':'' \<and> c \<noteq> CHR 0x0A) n)"

definition wf_path :: "string \<Rightarrow> bool" where
  "wf_path p = (p \<noteq> [] \<and> hd p = CHR ''/'' \<and> list_all name_ok (split_on CHR ''/'' (tl p)))"

text \<open>\<open>q\<close> is a proper ancestor of \<open>p\<close>.\<close>

definition ancestor :: "string \<Rightarrow> string \<Rightarrow> bool" where
  "ancestor q p = (\<exists>s. p = q @ CHR ''/'' # s)"

lemma ancestorI [intro]: "ancestor q (q @ CHR ''/'' # s)"
  by (auto simp: ancestor_def)

lemma ancestor_trans: "ancestor a b \<Longrightarrow> ancestor b c \<Longrightarrow> ancestor a c"
  by (auto simp: ancestor_def)

lemma ancestor_longer: "ancestor a b \<Longrightarrow> length a < length b"
  by (auto simp: ancestor_def)

lemma ancestor_irrefl [simp]: "\<not> ancestor a a"
  using ancestor_longer by blast

lemma ancestor_append_cancel [simp]: "ancestor (pre @ a) (pre @ b) = ancestor a b"
  by (auto simp: ancestor_def)

lemma name_ok_free: "name_ok n \<Longrightarrow> CHR ''/'' \<notin> set n"
  by (auto simp: name_ok_def list_all_iff)

lemma parent_base:
  assumes "CHR ''/'' \<in> set p"
  shows "p = parent_dir p @ CHR ''/'' # base_name p" and "CHR ''/'' \<notin> set (base_name p)"
proof -
  let ?P = "\<lambda>c. c \<noteq> CHR ''/''"
  have d: "dropWhile ?P (rev p) \<noteq> []" using assms by (simp add: dropWhile_Nil_free)
  then have "hd (dropWhile ?P (rev p)) = CHR ''/''" using hd_dropWhile [of ?P "rev p"] by simp
  with d have "dropWhile ?P (rev p) = CHR ''/'' # tl (dropWhile ?P (rev p))"
    by (cases "dropWhile ?P (rev p)") auto
  then have "rev p = takeWhile ?P (rev p) @ CHR ''/'' # tl (dropWhile ?P (rev p))"
    by (metis takeWhile_dropWhile_id)
  then have "p = rev (takeWhile ?P (rev p) @ CHR ''/'' # tl (dropWhile ?P (rev p)))"
    by (metis rev_rev_ident)
  then show "p = parent_dir p @ CHR ''/'' # base_name p"
    by (simp add: parent_dir_def base_name_def)
  show "CHR ''/'' \<notin> set (base_name p)"
    by (auto simp: base_name_def dest: set_takeWhileD)
qed

lemma parent_dir_append [simp]: "CHR ''/'' \<notin> set n \<Longrightarrow> parent_dir (d @ CHR ''/'' # n) = d"
  by (simp add: parent_dir_def dropWhile_append3 dropWhile_append)

lemma base_name_append [simp]: "CHR ''/'' \<notin> set n \<Longrightarrow> base_name (d @ CHR ''/'' # n) = n"
  by (simp add: base_name_def takeWhile_append)

lemma wf_path_snoc:
  assumes "CHR ''/'' \<notin> set n"
  shows "wf_path (d @ CHR ''/'' # n) \<longleftrightarrow> name_ok n \<and> (d = [] \<or> wf_path d)"
  using assms by (cases d) (auto simp: wf_path_def split_on_append_sep)

lemma wf_path_append: "wf_path (d @ CHR ''/'' # s) \<longleftrightarrow> (d = [] \<or> wf_path d) \<and> list_all name_ok (split_on CHR ''/'' s)"
  by (cases d) (auto simp: wf_path_def split_on_append_sep)

lemma wf_path_slash: "wf_path p \<Longrightarrow> CHR ''/'' \<in> set p"
  by (cases p) (auto simp: wf_path_def)

lemma wf_path_parts:
  assumes "wf_path p"
  shows "p = parent_dir p @ CHR ''/'' # base_name p" and "name_ok (base_name p)"
    and "parent_dir p = [] \<or> wf_path (parent_dir p)"
proof -
  note s = parent_base [OF wf_path_slash [OF assms]]
  show "p = parent_dir p @ CHR ''/'' # base_name p" by (rule s(1))
  have "wf_path (parent_dir p @ CHR ''/'' # base_name p)" using assms s(1) by simp
  then show "name_ok (base_name p)" "parent_dir p = [] \<or> wf_path (parent_dir p)"
    using s(2) by (auto simp: wf_path_snoc)
qed

lemma wf_path_not_root: "wf_path p \<Longrightarrow> p \<noteq> ''/''"
  by (auto simp: wf_path_def name_ok_def)

section \<open>Well-formed cards\<close>

definition wf_card :: "sd \<Rightarrow> bool" where
  "wf_card w =
     (distinct (map fst (files w)) \<and> distinct (dirs w) \<and>
      list_all (\<lambda>p. wf_path p \<and> dir_exists w (parent_dir p)) (paths w) \<and>
      list_all (\<lambda>p. content w p = None) (dirs w))"

lemma content_Some_path: "content w p = Some d \<Longrightarrow> p \<in> set (paths w)"
  by (auto simp: content_def paths_def dest!: map_of_SomeD intro: rev_image_eqI)

lemma content_iff_path: "content w p \<noteq> None \<longleftrightarrow> p \<in> fst ` set (files w)"
  by (simp add: content_def map_of_eq_None_iff)

lemma paths_iff: "p \<in> set (paths w) \<longleftrightarrow> content w p \<noteq> None \<or> p \<in> set (dirs w)"
  unfolding content_iff_path by (simp add: paths_def)

lemma wf_card_path: "wf_card w \<Longrightarrow> p \<in> set (paths w) \<Longrightarrow> wf_path p \<and> dir_exists w (parent_dir p)"
  by (simp add: wf_card_def list_all_iff)

lemma is_dir_dirs: "wf_card w \<Longrightarrow> p \<noteq> ''/'' \<Longrightarrow> is_dir w p \<longleftrightarrow> p \<in> set (dirs w)"
  by (simp add: is_dir_def)

lemma wf_card_dir: "wf_card w \<Longrightarrow> p \<in> set (dirs w) \<Longrightarrow> wf_path p \<and> content w p = None"
  using wf_card_path [of w p] by (auto simp: wf_card_def list_all_iff paths_iff)

text \<open>Everything above a file or a directory is a directory.\<close>

lemma wf_card_above:
  assumes "wf_card w" and "p \<in> set (paths w)" and "p = q @ CHR ''/'' # s" and "q \<noteq> []"
  shows "q \<in> set (dirs w)"
  using assms(2, 3)
proof (induction "length s" arbitrary: p s rule: less_induct)
  case less
  have wf: "wf_path p" and par: "dir_exists w (parent_dir p)"
    using wf_card_path [OF assms(1) less.prems(1)] by auto
  show ?case
  proof (cases "CHR ''/'' \<in> set s")
    case False
    then show ?thesis using par less.prems(2) assms(4) by (simp add: dir_exists_def)
  next
    case True
    let ?t = "parent_dir s" and ?n = "base_name s"
    have s: "s = ?t @ CHR ''/'' # ?n" "CHR ''/'' \<notin> set ?n" using parent_base [OF True] by auto
    then have "p = (q @ CHR ''/'' # ?t) @ CHR ''/'' # ?n" using less.prems(2) by simp
    then have "parent_dir p = q @ CHR ''/'' # ?t" using parent_dir_append [OF s(2)] by metis
    then have "q @ CHR ''/'' # ?t \<in> set (dirs w)" using par by (simp add: dir_exists_def)
    moreover have "length ?t < length s"
      using arg_cong [OF s(1), of length] by simp
    ultimately show ?thesis using less.hyps [of ?t] by (simp add: paths_iff)
  qed
qed

lemma wf_card_children:
  assumes "wf_card w"
  shows "n \<in> set (dir_entries w d) \<longleftrightarrow> name_ok n \<and> d @ CHR ''/'' # n \<in> set (paths w)"
proof
  assume "n \<in> set (dir_entries w d)"
  then obtain p where p: "p \<in> set (paths w)" "parent_dir p = d" "n = base_name p"
    by (auto simp: dir_entries_def)
  then show "name_ok n \<and> d @ CHR ''/'' # n \<in> set (paths w)"
    using wf_path_parts [of p] wf_card_path [OF assms p(1)] by auto
next
  assume n: "name_ok n \<and> d @ CHR ''/'' # n \<in> set (paths w)"
  then have "CHR ''/'' \<notin> set n" "n \<noteq> []" using name_ok_free by (auto simp: name_ok_def)
  with n show "n \<in> set (dir_entries w d)"
    unfolding dir_entries_def set_map set_filter
    by (intro image_eqI [of _ _ "d @ CHR ''/'' # n"]) auto
qed

lemma wf_card_paths_distinct: "wf_card w \<Longrightarrow> distinct (paths w)"
proof -
  assume wf: "wf_card w"
  then have "p \<notin> set (dirs w)" if "p \<in> fst ` set (files w)" for p
    using that content_iff_path [of w p] wf_card_dir [OF wf, of p] by auto
  with wf show ?thesis by (auto simp: paths_def wf_card_def)
qed

lemma dir_entries_distinct:
  assumes "wf_card w"
  shows "distinct (dir_entries w d)"
proof -
  have "inj_on base_name (set (filter (\<lambda>p. CHR ''/'' \<in> set p \<and> parent_dir p = d \<and> base_name p \<noteq> []) (paths w)))"
    by (rule inj_onI) (simp, metis parent_base(1))
  then show ?thesis
    using wf_card_paths_distinct [OF assms] by (simp add: dir_entries_def distinct_map)
qed

section \<open>The calls keep cards well formed\<close>

lemma wf_card_update:
  assumes "wf_card w" and "wf_path p" and "dir_exists w (parent_dir p)" and "p \<notin> set (dirs w)"
    and "files w' = AList.update p d (files w)" and "dirs w' = dirs w"
  shows "wf_card w'"
proof -
  have c: "content w' = (content w)(p \<mapsto> d)" using assms(5) by (auto simp: content_def)
  then have "\<forall>q. q \<in> set (paths w') \<longleftrightarrow> q = p \<or> q \<in> set (paths w)"
    using assms(6) by (simp add: paths_iff)
  moreover have "\<forall>d. dir_exists w' d = dir_exists w d" using assms(6) by (simp add: dir_exists_def)
  ultimately show ?thesis
    using assms c distinct_update [of "files w" p d]
    by (auto simp: wf_card_def list_all_iff)
qed

lemma wf_card_delete:
  assumes "wf_card w" and "files w' = AList.delete p (files w)" and "dirs w' = dirs w"
  shows "wf_card w'"
proof -
  have c: "content w' = (content w)(p := None)" using assms(2) by (auto simp: content_def)
  then have "\<forall>q. q \<in> set (paths w') \<longrightarrow> q \<in> set (paths w)"
    using assms(3) by (auto simp: paths_iff)
  moreover have "\<forall>d. dir_exists w' d = dir_exists w d" using assms(3) by (simp add: dir_exists_def)
  ultimately show ?thesis
    using assms c distinct_delete [of "files w" p]
    by (auto simp: wf_card_def list_all_iff)
qed

lemma wf_card_mkdir:
  assumes "wf_card w" and "wf_path p" and "dir_exists w (parent_dir p)" and "p \<notin> set (dirs w)"
    and "content w p = None" and "files w' = files w" and "dirs w' = dirs w @ [p]"
  shows "wf_card w'"
  using assms by (auto simp: wf_card_def list_all_iff paths_def content_def dir_exists_def)

lemma wf_card_rmdir:
  assumes "wf_card w" and "dir_entries w p = []" and "files w' = files w"
    and "dirs w' = removeAll p (dirs w)" and "p \<noteq> []"
  shows "wf_card w'"
proof -
  have "parent_dir q \<noteq> p" if "q \<in> set (paths w)" for q
  proof
    assume "parent_dir q = p"
    moreover have "wf_path q" using wf_card_path [OF assms(1) that] by simp
    ultimately have "base_name q \<in> set (dir_entries w p)"
      using that wf_path_parts [of q] wf_card_children [OF assms(1), of "base_name q" p] by auto
    then show False using assms(2) by simp
  qed
  then show ?thesis
    using assms by (auto simp: wf_card_def list_all_iff paths_def content_def dir_exists_def distinct_removeAll)
qed

section \<open>Losing power\<close>

text \<open>From some call on nothing takes effect any more; the call in progress may be torn.\<close>

definition crashing :: "sd \<Rightarrow> bool" where
  "crashing w = (\<exists>n. (\<forall>k<n. fate w k = Done) \<and> (\<forall>k>n. fate w k = Fails))"

definition off :: "sd \<Rightarrow> bool" where
  "off w = (\<forall>k\<ge>tick w. fate w k = Fails)"

definition good_card :: "sd \<Rightarrow> bool" where
  "good_card w = (wf_card w \<and> (calm w \<or> crashing w))"

lemma calm_not_off: "calm w \<Longrightarrow> \<not> off w"
  by (auto simp: calm_def off_def)

text \<open>What every call does: time passes, the fate stays, and a card without power keeps its contents.\<close>

definition passes :: "sd \<Rightarrow> sd \<Rightarrow> bool" where
  "passes w w' =
     (fate w' = fate w \<and> tick w \<le> tick w' \<and>
      (off w \<longrightarrow> content w' = content w \<and> dirs w' = dirs w) \<and> (wf_card w \<longrightarrow> wf_card w'))"

lemma passes_refl [simp]: "passes w w"
  by (simp add: passes_def)

lemma passes_off: "passes w w' \<Longrightarrow> off w \<Longrightarrow> off w'"
  by (auto simp: passes_def off_def)

lemma passes_trans: "passes u v \<Longrightarrow> passes v w \<Longrightarrow> passes u w"
  using passes_off [of u v] by (auto simp: passes_def)

lemma passes_calm: "passes w w' \<Longrightarrow> calm w' = calm w"
  by (auto simp: passes_def calm_def)

lemma passes_good: "passes w w' \<Longrightarrow> good_card w \<Longrightarrow> good_card w'"
  by (auto simp: passes_def good_card_def calm_def crashing_def)

lemma fault_off:
  assumes "good_card w" and "fate w (tick w) \<noteq> Done" and "fate w' = fate w" and "tick w' = tick w + 1"
  shows "off w'"
proof -
  have "\<not> calm w" using assms(2) by (auto simp: calm_def)
  then obtain n where n: "\<forall>k<n. fate w k = Done" "\<forall>k>n. fate w k = Fails"
    using assms(1) by (auto simp: good_card_def crashing_def)
  then have "\<not> tick w < n" using assms(2) by auto
  then show ?thesis using n(2) assms(3, 4) by (auto simp: off_def)
qed

section \<open>The calls on a good card\<close>

text \<open>Every call either takes effect, or is refused for the reason the C library has, or the power is gone.\<close>

lemma passes_tick [simp]:
  "passes w (w\<lparr>tick := Suc (tick w)\<rparr>)" "content (w\<lparr>tick := Suc (tick w)\<rparr>) = content w"
  by (auto simp: passes_def wf_card_def paths_def content_def dir_exists_def)

lemma passes_change:
  assumes "fate w (tick w) \<noteq> Fails" and "wf_card w \<Longrightarrow> wf_card w'"
    and "fate w' = fate w" and "tick w' = Suc (tick w)"
  shows "passes w w'"
proof -
  have "\<not> off w" using assms(1) by (auto simp: off_def)
  then show ?thesis using assms by (simp add: passes_def)
qed

lemma fault_tick: "good_card w \<Longrightarrow> fate w (tick w) \<noteq> Done \<Longrightarrow> off (w\<lparr>tick := Suc (tick w)\<rparr>)"
  using fault_off [of w "w\<lparr>tick := Suc (tick w)\<rparr>"] by simp

lemma wp_remove_card:
  assumes good: "good_card w"
    and taken: "\<And>w'. passes w w' \<Longrightarrow> dirs w' = dirs w \<Longrightarrow> content w' = (content w)(p := None) \<Longrightarrow>
           Q (content w p \<noteq> None) w'"
    and fault: "\<And>w'. passes w w' \<Longrightarrow> dirs w' = dirs w \<Longrightarrow> content w' = content w \<Longrightarrow> off w' \<Longrightarrow> Q False w'"
  shows "wp_io (c_remove p) Q w"
proof -
  let ?u = "w\<lparr>tick := Suc (tick w)\<rparr>" and ?v = "w\<lparr>tick := Suc (tick w), files := AList.delete p (files w)\<rparr>"
  have 1: "Q False ?u" if "content w p = None"
    using taken [of ?u] that by (simp add: fun_upd_idem)
  have 2: "Q False ?u" if "fate w (tick w) \<noteq> Done"
    using fault [of ?u] fault_tick [OF good that] by simp
  have 3: "Q True ?v" if "fate w (tick w) = Done" "content w p \<noteq> None"
    using taken [of ?v] that passes_change [of w ?v] wf_card_delete [of w ?v p]
    by (simp add: content_def [abs_def])
  show ?thesis using 1 2 3
    by (cases "fate w (tick w)") (auto simp: wp_io_def c_remove_def Let_def)
qed

lemma wp_rename_card:
  assumes good: "good_card w" and to: "wf_path to"
    and taken: "\<And>w' d. passes w w' \<Longrightarrow> dirs w' = dirs w \<Longrightarrow> content w from = Some d \<Longrightarrow> content w to = None \<Longrightarrow>
           content w' = (content w)(from := None, to \<mapsto> d) \<Longrightarrow> Q True w'"
    and fault: "\<And>w'. passes w w' \<Longrightarrow> dirs w' = dirs w \<Longrightarrow> content w' = content w \<Longrightarrow>
           content w from = None \<or> content w to \<noteq> None \<or> to \<in> set (dirs w) \<or> \<not> dir_exists w (parent_dir to) \<or>
           off w' \<Longrightarrow> Q False w'"
  shows "wp_io (c_rename from to) Q w"
proof -
  let ?u = "w\<lparr>tick := Suc (tick w)\<rparr>"
  let ?v = "\<lambda>d. w\<lparr>tick := Suc (tick w), files := AList.update to d (AList.delete from (files w))\<rparr>"
  have 1: "Q False ?u" if "content w from = None \<or> content w to \<noteq> None \<or> to \<in> set (dirs w) \<or>
      \<not> dir_exists w (parent_dir to)"
    using fault [of ?u] that by auto
  have 2: "Q False ?u" if "fate w (tick w) \<noteq> Done"
    using fault [of ?u] fault_tick [OF good that] by simp
  have 3: "Q True (?v d)" if *: "fate w (tick w) = Done" "content w from = Some d" "content w to = None"
    "to \<notin> set (dirs w)" "dir_exists w (parent_dir to)" for d
  proof (rule taken [OF _ _ *(2, 3)])
    let ?m = "w\<lparr>files := AList.delete from (files w)\<rparr>"
    show "passes w (?v d)"
    proof (rule passes_change)
      assume "wf_card w"
      then have "wf_card ?m" by (rule wf_card_delete) simp_all
      then show "wf_card (?v d)"
        using wf_card_update [of ?m to "?v d" d] to *(4, 5) by (simp add: dir_exists_def)
    qed (use * in simp_all)
  qed (simp_all add: content_def [abs_def])
  show ?thesis using 1 2 3
    by (cases "fate w (tick w)") (auto simp: wp_io_def c_rename_def Let_def split: option.splits)
qed

lemma wp_write_card:
  assumes good: "good_card w" and path: "wf_path p"
    and taken: "\<And>w'. passes w w' \<Longrightarrow> dirs w' = dirs w \<Longrightarrow> content w' = (content w)(p \<mapsto> data) \<Longrightarrow> Q Written w'"
    and torn: "\<And>w' n. passes w w' \<Longrightarrow> dirs w' = dirs w \<Longrightarrow> off w' \<Longrightarrow>
           content w' = (content w)(p \<mapsto> take n data) \<Longrightarrow> Q Short w'"
    and fault: "\<And>w'. passes w w' \<Longrightarrow> dirs w' = dirs w \<Longrightarrow> content w' = content w \<Longrightarrow>
           p \<in> set (dirs w) \<or> \<not> dir_exists w (parent_dir p) \<or> off w' \<Longrightarrow> Q NotOpened w'"
  shows "wp_io (c_write p data) Q w"
proof -
  let ?u = "w\<lparr>tick := Suc (tick w)\<rparr>"
  let ?v = "\<lambda>d. w\<lparr>tick := Suc (tick w), files := AList.update p d (files w)\<rparr>"
  have 1: "Q NotOpened ?u" if "p \<in> set (dirs w) \<or> \<not> dir_exists w (parent_dir p)"
    using fault [of ?u] that by auto
  have 2: "Q NotOpened ?u" if "fate w (tick w) \<noteq> Done"
    using fault [of ?u] fault_tick [OF good that] by simp
  have v: "passes w (?v d)" if "fate w (tick w) \<noteq> Fails" "p \<notin> set (dirs w)" "dir_exists w (parent_dir p)" for d
    using passes_change [of w "?v d"] wf_card_update [of w p "?v d" d] path that by simp
  have 3: "Q Written (?v data)" if "fate w (tick w) = Done" "p \<notin> set (dirs w)" "dir_exists w (parent_dir p)"
    using taken [OF v] that by (simp add: content_def [abs_def])
  have 4: "Q Short (?v (take n data))"
    if "fate w (tick w) = Torn n" "p \<notin> set (dirs w)" "dir_exists w (parent_dir p)" for n
    using torn [OF v, of "take n data" n] that fault_off [OF good, of "?v (take n data)"]
    by (simp add: content_def [abs_def])
  show ?thesis using 1 2 3 4
    by (cases "fate w (tick w)") (auto simp: wp_io_def c_write_def Let_def)
qed

lemma wp_mkdir_card:
  assumes good: "good_card w" and path: "wf_path p"
    and taken: "\<And>w'. passes w w' \<Longrightarrow> content w' = content w \<Longrightarrow> dirs w' = dirs w @ [p] \<Longrightarrow> Q True w'"
    and fault: "\<And>w'. passes w w' \<Longrightarrow> dirs w' = dirs w \<Longrightarrow> content w' = content w \<Longrightarrow>
           p \<in> set (dirs w) \<or> content w p \<noteq> None \<or> \<not> dir_exists w (parent_dir p) \<or> off w' \<Longrightarrow> Q False w'"
  shows "wp_io (c_mkdir p) Q w"
proof -
  let ?u = "w\<lparr>tick := Suc (tick w)\<rparr>" and ?v = "w\<lparr>tick := Suc (tick w), dirs := dirs w @ [p]\<rparr>"
  have root: "is_dir w p = (p \<in> set (dirs w))" using wf_path_not_root [OF path] by (simp add: is_dir_def)
  have 1: "Q False ?u" if "p \<in> set (dirs w) \<or> content w p \<noteq> None \<or> \<not> dir_exists w (parent_dir p)"
    using fault [of ?u] that by auto
  have 2: "Q False ?u" if "fate w (tick w) \<noteq> Done"
    using fault [of ?u] fault_tick [OF good that] by simp
  have 3: "Q True ?v" if "fate w (tick w) = Done" "p \<notin> set (dirs w)" "content w p = None"
    "dir_exists w (parent_dir p)"
    using taken [of ?v] that passes_change [of w ?v] wf_card_mkdir [of w p ?v] path
    by (simp add: content_def [abs_def])
  show ?thesis using 1 2 3
    by (cases "fate w (tick w)") (auto simp: wp_io_def c_mkdir_def Let_def root)
qed

lemma wp_rmdir_card:
  assumes good: "good_card w" and path: "p \<noteq> []"
    and taken: "\<And>w'. passes w w' \<Longrightarrow> content w' = content w \<Longrightarrow> dirs w' = removeAll p (dirs w) \<Longrightarrow>
           dir_entries w p = [] \<Longrightarrow> Q True w'"
    and fault: "\<And>w'. passes w w' \<Longrightarrow> dirs w' = dirs w \<Longrightarrow> content w' = content w \<Longrightarrow>
           p \<notin> set (dirs w) \<or> dir_entries w p \<noteq> [] \<or> off w' \<Longrightarrow> Q False w'"
  shows "wp_io (c_rmdir p) Q w"
proof -
  let ?u = "w\<lparr>tick := Suc (tick w)\<rparr>" and ?v = "w\<lparr>tick := Suc (tick w), dirs := removeAll p (dirs w)\<rparr>"
  have 1: "Q False ?u" if "p \<notin> set (dirs w) \<or> dir_entries w p \<noteq> []"
    using fault [of ?u] that by auto
  have 2: "Q False ?u" if "fate w (tick w) \<noteq> Done"
    using fault [of ?u] fault_tick [OF good that] by simp
  have 3: "Q True ?v" if "fate w (tick w) = Done" "dir_entries w p = []"
    using taken [of ?v] that passes_change [of w ?v] wf_card_rmdir [of w p ?v] path
    by (simp add: content_def [abs_def])
  show ?thesis using 1 2 3
    by (cases "fate w (tick w)") (auto simp: wp_io_def c_rmdir_def Let_def)
qed

end
