(* ===== verification/Store_Laws.thy ===== *)
theory Store_Laws
  imports Sd_File_Store Card_Tree
begin

text \<open>
  What the SD file store promises on a well-formed card: the directory walk of
  \<^verbatim>\<open>SdFileStore::listFilesRecursive\<close> finds exactly the files below a directory, and every operation satisfies
  the law the installers rely on, also when the power is lost.
\<close>

section \<open>The directory walk\<close>

text \<open>The members of a set of paths that lie below a directory, relative to where the walk started.\<close>

definition tree_of :: "string set \<Rightarrow> string \<Rightarrow> string \<Rightarrow> string set" where
  "tree_of X dir r = {child_path r y | y. y \<noteq> [] \<and> abs_path dir r @ CHR ''/'' # y \<in> X}"

lemma child_path_inject [simp]: "child_path r a = child_path r b \<longleftrightarrow> a = b"
  by (simp add: child_path_def)

lemma child_path_child [simp]:
  "n \<noteq> [] \<Longrightarrow> child_path (child_path r n) y = child_path r (n @ CHR ''/'' # y)"
  by (simp add: child_path_def)

lemma abs_path_child [simp]:
  "n \<noteq> [] \<Longrightarrow> abs_path dir (child_path r n) = abs_path dir r @ CHR ''/'' # n"
  by (simp add: child_path_def abs_path_def)

lemma abs_path_not_Nil: "dir \<noteq> [] \<Longrightarrow> abs_path dir r \<noteq> []"
  by (simp add: abs_path_def)

lemma tree_of_child:
  "n \<noteq> [] \<Longrightarrow> tree_of X dir (child_path r n) =
     {child_path r (n @ CHR ''/'' # y) | y. y \<noteq> [] \<and> abs_path dir r @ CHR ''/'' # n @ CHR ''/'' # y \<in> X}"
  by (simp add: tree_of_def)

lemma visible_iff:
  assumes "wf_card w" and "d \<noteq> []"
  shows "n \<in> set (visible w d) \<longleftrightarrow> name_ok n \<and> d @ CHR ''/'' # n \<in> set (paths w)"
proof -
  have "d \<in> set (dirs w)" if "d @ CHR ''/'' # n \<in> set (paths w)"
    using wf_card_above [OF assms(1) that refl assms(2)] .
  then show ?thesis
    using wf_card_children [OF assms(1)] by (auto simp: visible_def name_ok_def)
qed

lemma tree_of_step:
  fixes r dir :: string
  assumes wf: "wf_card w" and X: "X \<subseteq> set (paths w)" and dir: "dir \<noteq> []"
  defines "d \<equiv> abs_path dir r"
  shows "tree_of X dir r =
    child_path r ` {n \<in> set (visible w d). d @ CHR ''/'' # n \<in> X} \<union>
    (\<Union>n\<in>set (subdirs w d). tree_of X dir (child_path r n))" (is "?lhs = ?here \<union> ?rest")
proof
  have d: "d \<noteq> []" using dir by (simp add: d_def abs_path_not_Nil)
  show "?lhs \<subseteq> ?here \<union> ?rest"
  proof
    fix x assume "x \<in> ?lhs"
    then obtain y where y: "x = child_path r y" "y \<noteq> []" "d @ CHR ''/'' # y \<in> X"
      by (auto simp: tree_of_def d_def)
    then have p: "d @ CHR ''/'' # y \<in> set (paths w)" using X by blast
    then have names: "list_all name_ok (split_on CHR ''/'' y)"
      using wf_card_path [OF wf p] by (simp add: wf_path_append)
    show "x \<in> ?here \<union> ?rest"
    proof (cases "CHR ''/'' \<in> set y")
      case False
      then have "y \<in> set (visible w d)" using names p visible_iff [OF wf d] by simp
      then show ?thesis using y by auto
    next
      case True
      let ?n = "before CHR ''/'' y" and ?s = "after CHR ''/'' y"
      have split: "y = ?n @ CHR ''/'' # ?s" using before_after [OF True] by simp
      moreover have "CHR ''/'' \<notin> set ?n" by (rule before_free)
      ultimately have "name_ok ?n" and s: "?s \<noteq> []"
        using names split_on_append_sep [of "CHR ''/''" ?n ?s] by (auto simp: name_ok_def)
      have "(d @ CHR ''/'' # ?n) @ CHR ''/'' # ?s \<in> set (paths w)" using p split by simp
      from wf_card_above [OF wf this refl] have "d @ CHR ''/'' # ?n \<in> set (dirs w)" by simp
      with \<open>name_ok ?n\<close> have n: "?n \<in> set (subdirs w d)"
        using visible_iff [OF wf d] by (simp add: subdirs_def is_dir_def paths_iff)
      have "?n \<noteq> []" using \<open>name_ok ?n\<close> by (simp add: name_ok_def)
      then have "x \<in> tree_of X dir (child_path r ?n)"
        using y s split by (auto simp: tree_of_child d_def)
      with n show ?thesis by blast
    qed
  qed
  show "?here \<union> ?rest \<subseteq> ?lhs"
  proof
    fix x assume "x \<in> ?here \<union> ?rest"
    then consider (here) n where "n \<in> set (visible w d)" "d @ CHR ''/'' # n \<in> X" "x = child_path r n"
      | (rest) n where "n \<in> set (visible w d)" "x \<in> tree_of X dir (child_path r n)"
      by (auto simp: subdirs_def)
    then show "x \<in> ?lhs"
    proof cases
      case here
      then show ?thesis using visible_not_Nil by (auto simp: tree_of_def d_def)
    next
      case rest
      then have "n \<noteq> []" by (simp add: visible_not_Nil)
      then show ?thesis using rest by (auto simp: tree_of_child tree_of_def d_def)
    qed
  qed
qed

lemma tree_of_disjoint:
  assumes "CHR ''/'' \<notin> set m" and "CHR ''/'' \<notin> set n" and "m \<noteq> n" and "m \<noteq> []" and "n \<noteq> []"
  shows "tree_of X dir (child_path r m) \<inter> tree_of X dir (child_path r n) = {}"
proof -
  have "before CHR ''/'' (m @ CHR ''/'' # a) = m" "before CHR ''/'' (n @ CHR ''/'' # b) = n" for a b
    using assms by simp_all
  then have "m @ CHR ''/'' # a \<noteq> n @ CHR ''/'' # b" for a b using assms(3) by metis
  then show ?thesis using assms(4, 5) by (auto simp: tree_of_child)
qed

lemma finite_tree_of: "X \<subseteq> set (paths w) \<Longrightarrow> finite (tree_of X dir r)"
proof -
  assume X: "X \<subseteq> set (paths w)"
  have "tree_of X dir r \<subseteq> (\<lambda>p. child_path r (drop (Suc (length (abs_path dir r))) p)) ` X"
    by (force simp: tree_of_def)
  then show ?thesis using X finite_subset [OF X] finite_surj by blast
qed

lemma mset_set_UN_list:
  assumes "distinct ns" and "\<And>m n. m \<in> set ns \<Longrightarrow> n \<in> set ns \<Longrightarrow> m \<noteq> n \<Longrightarrow> F m \<inter> F n = {}"
    and "\<And>n. n \<in> set ns \<Longrightarrow> finite (F n)"
  shows "mset_set (\<Union>n\<in>set ns. F n) = (\<Sum>n\<leftarrow>ns. mset_set (F n))"
  using assms
proof (induction ns)
  case (Cons n ns)
  have "F n \<inter> (\<Union>n\<in>set ns. F n) = {}" using Cons.prems(1, 2) by fastforce
  then show ?case using Cons by (simp add: mset_set_Union)
qed simp

text \<open>The same step on multisets: what the walk finds here, and what it will find below.\<close>

lemma tree_of_mset:
  fixes r dir :: string
  assumes wf: "wf_card w" and X: "X \<subseteq> set (paths w)" and dir: "dir \<noteq> []"
  defines "d \<equiv> abs_path dir r"
  shows "mset_set (tree_of X dir r) =
    mset (map (child_path r) (filter (\<lambda>n. d @ CHR ''/'' # n \<in> X) (visible w d))) +
    (\<Sum>n\<leftarrow>subdirs w d. mset_set (tree_of X dir (child_path r n)))"
proof -
  let ?here = "child_path r ` {n \<in> set (visible w d). d @ CHR ''/'' # n \<in> X}"
  let ?rest = "\<Union>n\<in>set (subdirs w d). tree_of X dir (child_path r n)"
  have d: "d \<noteq> []" using dir by (simp add: d_def abs_path_not_Nil)
  have dist: "distinct (visible w d)"
    using dir_entries_distinct [OF wf] by (simp add: visible_def)
  have free: "CHR ''/'' \<notin> set n \<and> n \<noteq> []" if "n \<in> set (visible w d)" for n
    using that visible_iff [OF wf d] name_ok_free by (auto simp: name_ok_def)
  have "?here \<inter> ?rest = {}"
  proof -
    have "child_path r m \<notin> tree_of X dir (child_path r n)"
      if "m \<in> set (visible w d)" "n \<in> set (visible w d)" for m n
      using free [OF that(1)] free [OF that(2)] by (auto simp: tree_of_child)
    then show ?thesis by (auto simp: subdirs_def)
  qed
  moreover have "finite ?rest" using finite_tree_of [OF X] by simp
  ultimately have "mset_set (?here \<union> ?rest) = mset_set ?here + mset_set ?rest"
    by (intro mset_set_Union) auto
  then have "mset_set (tree_of X dir r) = mset_set ?here + mset_set ?rest"
    unfolding d_def tree_of_step [OF wf X dir, of r, symmetric] .
  moreover have "mset_set ?here = mset (map (child_path r) (filter (\<lambda>n. d @ CHR ''/'' # n \<in> X) (visible w d)))"
  proof -
    have "distinct (map (child_path r) (filter (\<lambda>n. d @ CHR ''/'' # n \<in> X) (visible w d)))"
      using dist by (simp add: distinct_map inj_on_def)
    from mset_set_set [OF this] show ?thesis by (simp add: image_def)
  qed
  moreover have "mset_set ?rest = (\<Sum>n\<leftarrow>subdirs w d. mset_set (tree_of X dir (child_path r n)))"
    using dist free tree_of_disjoint finite_tree_of [OF X]
    by (intro mset_set_UN_list) (auto simp: subdirs_def)
  ultimately show ?thesis by simp
qed

lemma child_not_root [simp]: "d \<noteq> [] \<Longrightarrow> d @ CHR ''/'' # n \<noteq> ''/''"
  by (cases d) auto

lemma filter_files:
  assumes "wf_card w" and "d \<noteq> []"
  shows "filter (\<lambda>n. d @ CHR ''/'' # n \<in> {p. content w p \<noteq> None}) (visible w d) = plain_files w d"
proof -
  have "is_dir w (d @ CHR ''/'' # n) \<longleftrightarrow> content w (d @ CHR ''/'' # n) = None"
    if "n \<in> set (visible w d)" for n
    using that visible_iff [OF assms] wf_card_dir [OF assms(1)] assms(2) by (auto simp: is_dir_def paths_iff)
  then show ?thesis unfolding plain_files_def by (intro filter_cong) auto
qed

lemma filter_dirs:
  "d \<noteq> [] \<Longrightarrow> filter (\<lambda>n. d @ CHR ''/'' # n \<in> set (dirs w)) (visible w d) = subdirs w d"
  by (simp add: subdirs_def is_dir_def)

lemma walk_mset:
  assumes wf: "wf_card w" and dir: "dir \<noteq> []"
  shows "mset (fst (walk w dir pending out)) =
      mset (fst out) + (\<Sum>r\<leftarrow>pending. mset_set (tree_of {p. content w p \<noteq> None} dir r)) \<and>
    mset (snd (walk w dir pending out)) =
      mset (snd out) + (\<Sum>r\<leftarrow>pending. mset_set (tree_of (set (dirs w)) dir r))"
  using assms
proof (induction w dir pending out rule: walk.induct)
  case (2 w dir relative pending out)
  let ?d = "abs_path dir relative" and ?F = "{p. content w p \<noteq> None}"
  let ?sub = "map (child_path relative) (subdirs w ?d)"
  let ?out = "(fst out @ map (child_path relative) (plain_files w ?d), snd out @ ?sub)"
  have d: "?d \<noteq> []" using 2 by (simp add: abs_path_not_Nil)
  have F: "?F \<subseteq> set (paths w)" "set (dirs w) \<subseteq> set (paths w)" by (auto simp: paths_iff)
  have sums: "(\<Sum>r\<leftarrow>rev ?sub @ pending. G r) = (\<Sum>n\<leftarrow>subdirs w ?d. G (child_path relative n)) + (\<Sum>r\<leftarrow>pending. G r)"
    for G :: "string \<Rightarrow> string multiset"
    by (simp add: rev_map [symmetric] sum_list_rev comp_def)
  have files: "mset_set (tree_of ?F dir relative) = mset (map (child_path relative) (plain_files w ?d)) +
      (\<Sum>n\<leftarrow>subdirs w ?d. mset_set (tree_of ?F dir (child_path relative n)))"
    using tree_of_mset [OF 2(2) F(1) 2(3), of relative] unfolding filter_files [OF 2(2) d] .
  have dirs: "mset_set (tree_of (set (dirs w)) dir relative) = mset ?sub +
      (\<Sum>n\<leftarrow>subdirs w ?d. mset_set (tree_of (set (dirs w)) dir (child_path relative n)))"
    using tree_of_mset [OF 2(2) F(2) 2(3), of relative] unfolding filter_dirs [OF d] .
  have step: "walk w dir (relative # pending) out = walk w dir (rev ?sub @ pending) ?out"
    by (simp add: Let_def)
  show ?case
    using 2(1) [OF refl 2(2, 3)] unfolding step sums list.map sum_list.Cons files dirs
    by (simp add: add.assoc)
qed simp

text \<open>The listing: every file below the directory, each once.\<close>

lemma listing:
  assumes "wf_card w" and "dir \<noteq> []"
  shows "distinct (fst (walk w dir [[]] ([], [])))"
    and "set (fst (walk w dir [[]] ([], []))) = {r. r \<noteq> [] \<and> content w (dir @ CHR ''/'' # r) \<noteq> None}"
    and "distinct (snd (walk w dir [[]] ([], [])))"
    and "set (snd (walk w dir [[]] ([], []))) = {r. r \<noteq> [] \<and> dir @ CHR ''/'' # r \<in> set (dirs w)}"
proof -
  let ?F = "tree_of {p. content w p \<noteq> None} dir []" and ?D = "tree_of (set (dirs w)) dir []"
  have F: "?F = {r. r \<noteq> [] \<and> content w (dir @ CHR ''/'' # r) \<noteq> None}"
    and D: "?D = {r. r \<noteq> [] \<and> dir @ CHR ''/'' # r \<in> set (dirs w)}"
    by (simp_all add: tree_of_def child_path_def abs_path_def)
  have fin: "finite ?F" "finite ?D"
    by (rule finite_tree_of [of _ w]; auto simp: paths_iff)+
  have m: "mset (fst (walk w dir [[]] ([], []))) = mset_set ?F" "mset (snd (walk w dir [[]] ([], []))) = mset_set ?D"
    using walk_mset [OF assms, of "[[]]" "([], [])"] by simp_all
  have "distinct xs \<and> set xs = A" if "mset xs = mset_set A" "finite A" for xs and A :: "string set"
    using that by (auto simp: distinct_count_atmost_1 dest: arg_cong [of _ _ set_mset])
  from this [OF m(1) fin(1)] this [OF m(2) fin(2)]
  show "distinct (fst (walk w dir [[]] ([], [])))" "distinct (snd (walk w dir [[]] ([], [])))"
    "set (fst (walk w dir [[]] ([], []))) = {r. r \<noteq> [] \<and> content w (dir @ CHR ''/'' # r) \<noteq> None}"
    "set (snd (walk w dir [[]] ([], []))) = {r. r \<noteq> [] \<and> dir @ CHR ''/'' # r \<in> set (dirs w)}"
    unfolding F D by simp_all
qed

section \<open>The operations on a good card\<close>

lemma store_exists_law: "wp_io (store_exists p) Q w = Q (content w p \<noteq> None) w"
  by (simp add: store_exists_def wp)

lemma store_list_law:
  assumes "good_card w" and "dir \<noteq> []"
    and "\<And>xs. distinct xs \<Longrightarrow> set xs = {r. r \<noteq> [] \<and> content w (dir @ CHR ''/'' # r) \<noteq> None} \<Longrightarrow> Q xs w"
  shows "wp_io (store_listFilesRecursive dir) Q w"
  using assms listing(1, 2) [of w dir]
  by (simp add: wp_io_def store_listFilesRecursive_def good_card_def)

lemma read_loop_all:
  "length out + sum_list (map length bufs) \<le> unat maxBytes \<Longrightarrow>
   read_loop maxBytes out bufs = Some (out @ concat bufs)"
proof (induction maxBytes out bufs rule: read_loop.induct)
  case (2 maxBytes out buf bufs)
  have "length out + length buf < 2 ^ 64" using 2(2) unsigned_less [where ?'a = nat and w = maxBytes] by simp
  then have "unat (of_nat (length out) + of_nat (length buf) :: 64 word) = length out + length buf"
    by (simp flip: of_nat_add add: unat_of_nat take_bit_nat_eq_self)
  then have "\<not> of_nat (length out) + of_nat (length buf) > maxBytes"
    using 2(2) by (simp add: word_less_nat_alt)
  then show ?case using 2 by simp
qed simp

lemma store_chunks_concat: "concat (store_chunks s) = s"
  by (induction s rule: store_chunks.induct) (subst store_chunks.simps, simp)

lemma store_readText_law:
  assumes "content w p = Some d" and "length d \<le> unat maxBytes" and "Q (Some d) w"
  shows "wp_io (store_readText p maxBytes) Q w"
proof -
  have "sum_list (map length (store_chunks d)) = length d"
    by (metis store_chunks_concat length_concat)
  then have "read_loop maxBytes [] (store_chunks d) = Some d"
    using assms(2) read_loop_all [of "[]" "store_chunks d" maxBytes] by (simp add: store_chunks_concat)
  then show ?thesis using assms by (simp add: store_readText_def wp)
qed

lemma store_readText_pure: "(\<And>r. Q r w) \<Longrightarrow> wp_io (store_readText p maxBytes) Q w"
  by (simp add: store_readText_def wp)

lemma store_remove_law:
  assumes "good_card w"
    and "\<And>w' b. passes w w' \<Longrightarrow> dirs w' = dirs w \<Longrightarrow>
      content w' = (content w)(p := None) \<or> off w' \<and> content w' = content w \<Longrightarrow> Q b w'"
  shows "wp_io (store_remove p) Q w"
  unfolding store_remove_def wp store_exists_def
  by (rule wp_remove_card [OF assms(1)]) (auto intro: assms(2))

lemma store_rename_law:
  assumes good: "good_card w" and to: "wf_path to"
    and taken: "\<And>w' d. passes w w' \<Longrightarrow> dirs w' = dirs w \<Longrightarrow> content w from = Some d \<Longrightarrow> from \<noteq> to \<Longrightarrow>
      content w' = (content w)(from := None, to \<mapsto> d) \<Longrightarrow> Q True w'"
    and fault: "\<And>w'. passes w w' \<Longrightarrow> dirs w' = dirs w \<Longrightarrow>
      content w' = content w \<or> content w' = (content w)(to := None) \<Longrightarrow>
      content w from = None \<or> from = to \<or> to \<in> set (dirs w) \<or> \<not> dir_exists w (parent_dir to) \<or> off w' \<Longrightarrow>
      Q False w'"
  shows "wp_io (store_rename from to) Q w"
  unfolding store_rename_def wp
proof (rule wp_remove_card [OF good])
  fix v assume v: "passes w v" "dirs v = dirs w" "content v = (content w)(to := None)"
  show "wp_io (c_rename from to) Q v"
  proof (rule wp_rename_card [OF passes_good [OF v(1) good] to])
    fix w' d assume w': "passes v w'" "dirs w' = dirs v" "content v from = Some d"
      "content w' = (content v)(from := None, to \<mapsto> d)"
    then have "from \<noteq> to" "content w from = Some d" using v(3) by (auto split: if_splits)
    moreover have "content w' = (content w)(from := None, to \<mapsto> d)"
      using w'(4) v(3) \<open>from \<noteq> to\<close> by (auto simp: fun_upd_twist)
    ultimately show "Q True w'" using taken passes_trans [OF v(1) w'(1)] w'(2) v(2) by simp
  next
    fix w' assume w': "passes v w'" "dirs w' = dirs v" "content w' = content v"
      "content v from = None \<or> content v to \<noteq> None \<or> to \<in> set (dirs v) \<or> \<not> dir_exists v (parent_dir to) \<or> off w'"
    then show "Q False w'"
      using fault [OF passes_trans [OF v(1) w'(1)]] v(2, 3) by (auto simp: dir_exists_def split: if_splits)
  qed
next
  fix v assume v: "passes w v" "dirs v = dirs w" "content v = content w" "off v"
  show "wp_io (c_rename from to) Q v"
  proof (rule wp_rename_card [OF passes_good [OF v(1) good] to])
    fix w' d assume w': "passes v w'" "content v from = Some d" "content v to = None"
      "content w' = (content v)(from := None, to \<mapsto> d)"
    then have "content w' = content v" using v(4) by (simp add: passes_def)
    with w' show "Q True w'" by (metis fun_upd_same option.distinct(1))
  next
    fix w' assume w': "passes v w'" "dirs w' = dirs v" "content w' = content v"
    then show "Q False w'"
      using fault [OF passes_trans [OF v(1) w'(1)]] v passes_off [OF w'(1)] by simp
  qed
qed

lemma wf_path_tmp:
  assumes "wf_path p"
  shows "wf_path (p @ ''.tmp'')" and "parent_dir (p @ ''.tmp'') = parent_dir p"
proof -
  let ?d = "parent_dir p" and ?n = "base_name p"
  have p: "p @ ''.tmp'' = ?d @ CHR ''/'' # (?n @ ''.tmp'')" using wf_path_parts(1) [OF assms] by simp
  have n: "name_ok ?n" using wf_path_parts(2) [OF assms] .
  then have "name_ok (?n @ ''.tmp'')" by (cases ?n) (auto simp: name_ok_def)
  moreover have free: "CHR ''/'' \<notin> set (?n @ ''.tmp'')" using name_ok_free [OF n] by simp
  ultimately show "wf_path (p @ ''.tmp'')"
    using wf_path_parts(3) [OF assms] unfolding p wf_path_snoc [OF free] by simp
  show "parent_dir (p @ ''.tmp'') = ?d" unfolding p using free by (rule parent_dir_append)
qed

lemma neg_if: "(if \<not> b then x else y) = (if b then y else x)"
  by simp

lemma store_writeAtomic_law:
  assumes good: "good_card w" and path: "wf_path p"
    and taken: "\<And>w'. passes w w' \<Longrightarrow> dirs w' = dirs w \<Longrightarrow>
      content w' = (content w)(p @ ''.tmp'' := None, p \<mapsto> data) \<Longrightarrow> Q True w'"
    and fault: "\<And>w'. passes w w' \<Longrightarrow> dirs w' = dirs w \<Longrightarrow>
      \<forall>q. q \<noteq> p \<longrightarrow> q \<noteq> p @ ''.tmp'' \<longrightarrow> content w' q = content w q \<Longrightarrow>
      content w' p = content w p \<or> content w' p = None \<Longrightarrow>
      p \<in> set (dirs w) \<or> p @ ''.tmp'' \<in> set (dirs w) \<or> \<not> dir_exists w (parent_dir p) \<or> off w' \<Longrightarrow> Q False w'"
  shows "wp_io (store_writeAtomic p data) Q w"
proof -
  let ?t = "p @ ''.tmp''"
  define touched where "touched v \<longleftrightarrow> passes w v \<and> dirs v = dirs w \<and>
    (\<forall>q. q \<noteq> p \<longrightarrow> q \<noteq> ?t \<longrightarrow> content v q = content w q) \<and> (content v p = content w p \<or> content v p = None)" for v
  define excuse where "excuse v \<longleftrightarrow>
    p \<in> set (dirs w) \<or> ?t \<in> set (dirs w) \<or> \<not> dir_exists w (parent_dir p) \<or> off v" for v
  have refuse: "Q False v" if "touched v" "excuse v" for v
    using that fault by (simp add: touched_def excuse_def)
  have give_up: "wp_io (c_remove ?t) (\<lambda>_. Q False) v" if v: "touched v" "excuse v" for v
  proof (rule wp_remove_card)
    show "good_card v" using v(1) passes_good [OF _ good] by (simp add: touched_def)
    fix w' assume w': "passes v w'" "dirs w' = dirs v"
    have e: "excuse w'" using v(2) passes_off [OF w'(1)] by (auto simp: excuse_def)
    show "Q False w'" if "content w' = (content v)(?t := None)"
      by (rule refuse [OF _ e]) (use that w' v(1) passes_trans [of w v w'] in \<open>auto simp: touched_def\<close>)
    show "Q False w'" if "content w' = content v"
      by (rule refuse [OF _ e]) (use that w' v(1) passes_trans [of w v w'] in \<open>auto simp: touched_def\<close>)
  qed
  have final: "wp_io (c_rename ?t p) (\<lambda>ok v. if ok then Q True v else wp_io (c_remove ?t) (\<lambda>_. Q False) v) v"
    if v: "touched v" "content v ?t = Some data" "content v p = None \<or> off v" for v
  proof (rule wp_rename_card [OF passes_good [OF _ good] path])
    show "passes w v" using v(1) by (simp add: touched_def)
    fix w' d assume w': "passes v w'" "dirs w' = dirs v" "content v ?t = Some d"
      "content w' = (content v)(?t := None, p \<mapsto> d)"
    have "content w' q = ((content w)(?t := None, p \<mapsto> data)) q" for q
      using w'(3, 4) v by (cases "q = p"; cases "q = ?t") (simp_all add: touched_def)
    then show "if True then Q True w' else wp_io (c_remove ?t) (\<lambda>_. Q False) w'"
      using taken [of w'] w'(1, 2) v(1) passes_trans [of w v w'] by (simp add: touched_def ext)
  next
    fix w' assume w': "passes v w'" "dirs w' = dirs v" "content w' = content v"
      "content v ?t = None \<or> content v p \<noteq> None \<or> p \<in> set (dirs v) \<or> \<not> dir_exists v (parent_dir p) \<or> off w'"
    then have "touched w'" using v(1) passes_trans [of w v w'] unfolding touched_def by metis
    moreover have "excuse w'"
    proof -
      have "dirs v = dirs w" using v(1) by (simp add: touched_def)
      then show ?thesis
        using w'(4) v(2, 3) passes_off [OF w'(1)] unfolding excuse_def dir_exists_def by fastforce
    qed
    ultimately show "if False then Q True w' else wp_io (c_remove ?t) (\<lambda>_. Q False) w'" using give_up by simp
  qed
  have commit: "wp_io (c_remove p) (\<lambda>_. wp_io (c_rename ?t p)
      (\<lambda>ok v. if ok then Q True v else wp_io (c_remove ?t) (\<lambda>_. Q False) v)) v"
    if v: "passes w v" "dirs v = dirs w" "content v = (content w)(?t \<mapsto> data)" for v
  proof (rule wp_remove_card [OF passes_good [OF v(1) good]])
    fix u assume u: "passes v u" "dirs u = dirs v" "content u = (content v)(p := None)"
    show "wp_io (c_rename ?t p) (\<lambda>ok v. if ok then Q True v else wp_io (c_remove ?t) (\<lambda>_. Q False) v) u"
      by (rule final) (use u v passes_trans [OF v(1) u(1)] in \<open>simp_all add: touched_def\<close>)
  next
    fix u assume u: "passes v u" "dirs u = dirs v" "content u = content v" "off u"
    show "wp_io (c_rename ?t p) (\<lambda>ok v. if ok then Q True v else wp_io (c_remove ?t) (\<lambda>_. Q False) v) u"
      by (rule final) (use u v passes_trans [OF v(1) u(1)] in \<open>simp_all add: touched_def\<close>)
  qed
  have eq: "store_writeAtomic p data = do {
      r \<leftarrow> c_write ?t data;
      case r of NotOpened \<Rightarrow> State_Monad.return False
      | Short \<Rightarrow> do { _ \<leftarrow> c_remove ?t; State_Monad.return False }
      | Written \<Rightarrow> do { _ \<leftarrow> c_remove p; ok \<leftarrow> c_rename ?t p;
          if ok then State_Monad.return True else do { _ \<leftarrow> c_remove ?t; State_Monad.return False } } }"
    unfolding store_writeAtomic_def Let_def neg_if ..
  have all: "wp_io (c_write ?t data) (\<lambda>r v. case r of NotOpened \<Rightarrow> Q False v
      | Short \<Rightarrow> wp_io (c_remove ?t) (\<lambda>_. Q False) v
      | Written \<Rightarrow> wp_io (c_remove p) (\<lambda>_. wp_io (c_rename ?t p)
          (\<lambda>ok v. if ok then Q True v else wp_io (c_remove ?t) (\<lambda>_. Q False) v)) v) w"
    by (rule wp_write_card [OF good wf_path_tmp(1) [OF path]])
      (simp_all add: commit give_up refuse touched_def excuse_def wf_path_tmp(2) [OF path])
  show ?thesis unfolding eq wp by (rule wp_mono [OF all]) (auto simp: wp split: written.splits elim!: wp_mono)
qed

subsection \<open>Creating directories\<close>

lemma wp_forM_append: "wp_io (forM (xs @ ys) f) Q w = wp_io (forM xs f) (\<lambda>_. wp_io (forM ys f) Q) w"
  by (induction xs arbitrary: w) (simp_all add: wp wp_io_def case_prod_unfold)

lemma wf_path_last:
  assumes "wf_path p"
  shows "last p \<noteq> CHR ''/''" and "last p \<noteq> CHR '':''" and "p \<noteq> []"
proof -
  let ?n = "base_name p"
  have n: "name_ok ?n" and p: "p = parent_dir p @ CHR ''/'' # ?n" using wf_path_parts [OF assms] by auto
  then have "last p = last ?n" "last ?n \<in> set ?n"
    using last_appendR [of "CHR ''/'' # ?n" "parent_dir p"] by (auto simp: name_ok_def)
  then show "last p \<noteq> CHR ''/''" "last p \<noteq> CHR '':''" using n by (auto simp: name_ok_def list_all_iff)
  show "p \<noteq> []" using assms by (simp add: wf_path_def)
qed

lemma map_filter_none: "(\<And>x. x \<in> set xs \<Longrightarrow> f x = None) \<Longrightarrow> List.map_filter f xs = []"
  by (induction xs) (simp_all add: List.map_filter_simps)

lemma map_filter_cong2: "(\<And>x. x \<in> set xs \<Longrightarrow> f x = g x) \<Longrightarrow> List.map_filter f xs = List.map_filter g xs"
  by (induction xs) (simp_all add: List.map_filter_simps cong: option.case_cong)

lemma map_filter_append2: "List.map_filter f (xs @ ys) = List.map_filter f xs @ List.map_filter f ys"
  by (induction xs) (simp_all add: List.map_filter_simps split: option.splits)

text \<open>The components of a path are its ancestors from the top, and the path itself.\<close>

lemma mkdir_list_snoc:
  assumes p: "wf_path p" and d: "d = parent_dir p"
  shows "mkdir_list p = (if d = [] then [] else mkdir_list d) @ [p]"
proof -
  define n where "n = base_name p"
  have pn: "p = d @ CHR ''/'' # n" and n: "name_ok n" and wd: "d = [] \<or> wf_path d"
    using wf_path_parts [OF p] d n_def by auto
  have ne: "n \<noteq> []" using n by (simp add: name_ok_def)
  have free: "n ! j \<noteq> CHR ''/''" if "j < length n" for j
    using name_ok_free [OF n] nth_mem [OF that] by auto
  define k m where "k = length d" and "m = length n - 1"
  have len: "length p = k + Suc (Suc m)" using ne by (simp add: pn k_def m_def)
  have at_k: "p ! k = CHR ''/''" by (simp add: pn k_def nth_append)
  have at_n: "p ! (Suc k + j) = n ! j" for j by (simp add: pn k_def nth_append)
  have low: "p ! i = d ! i" "take i p = take i d" "take (Suc i) p = take (Suc i) d" if "i < k" for i
    using that by (simp_all add: pn k_def nth_append)
  have idx: "[0..<length p] = [0..<k] @ [k] @ [Suc k..<Suc k + m] @ [Suc k + m]"
    unfolding len using upt_add_eq_append [of 0 k "Suc (Suc m)"] upt_conv_Cons [of k "k + Suc (Suc m)"]
      upt_Suc_append [of "Suc k" "Suc k + m"] by simp
  have last_p: "mkdir_component p (Suc k + m) = Some p"
    using free [of m] ne wf_path_last [OF p] at_n [of m] len
    by (simp add: mkdir_component_def Let_def m_def)
  have mid: "mkdir_component p i = None" if "i \<in> set [Suc k..<Suc k + m]" for i
  proof -
    have j: "i = Suc k + (i - Suc k)" "i - Suc k < m" using that by auto
    then have "p ! i \<noteq> CHR ''/''" using at_n [of "i - Suc k"] free [of "i - Suc k"] by (simp add: m_def)
    then show ?thesis using j len by (simp add: mkdir_component_def Let_def)
  qed
  have k: "mkdir_component p k = (if d = [] then None else Some d)"
    using at_k wd wf_path_last [of d] len by (auto simp: mkdir_component_def Let_def k_def pn)
  have mids: "List.map_filter (mkdir_component p) [Suc k..<Suc k + m] = []" using mid by (rule map_filter_none)
  have list: "mkdir_list p = List.map_filter (mkdir_component p) [0..<k] @ (if d = [] then [] else [d]) @ [p]"
    unfolding mkdir_list_def idx map_filter_append2 mids
    using k last_p by (simp add: List.map_filter_simps)
  show ?thesis
  proof (cases "d = []")
    case True
    then show ?thesis using list by (simp add: k_def List.map_filter_simps)
  next
    case False
    then obtain k' where k': "k = Suc k'" by (cases k) (auto simp: k_def)
    have dl: "d ! k' \<noteq> CHR ''/''" using False wd wf_path_last [of d] k' by (simp add: last_conv_nth k_def)
    have below: "mkdir_component p i = mkdir_component d i" if "i \<in> set [0..<k']" for i
      using that low [of i] k' len by (auto simp: mkdir_component_def Let_def k_def)
    have "mkdir_component p k' = None" using dl low(1) [of k'] k' len by (simp add: mkdir_component_def Let_def)
    moreover have "mkdir_component d k' = Some d"
      using dl k' False wd wf_path_last [of d] by (simp add: mkdir_component_def Let_def k_def)
    ultimately have "mkdir_list d = List.map_filter (mkdir_component p) [0..<k] @ [d]"
      using map_filter_cong2 [of "[0..<k']" "mkdir_component p" "mkdir_component d"] below k'
      by (simp add: mkdir_list_def k_def [symmetric] map_filter_append2 List.map_filter_simps)
    then show ?thesis using list False by simp
  qed
qed

lemma make_path:
  assumes "good_card w" and "wf_path p"
    and "\<And>w'. passes w w' \<Longrightarrow> content w' = content w \<Longrightarrow> set (dirs w) \<subseteq> set (dirs w') \<Longrightarrow>
      \<forall>q\<in>set (dirs w'). q \<in> set (dirs w) \<or> q = p \<or> ancestor q p \<Longrightarrow>
      p \<in> set (dirs w') \<or> off w' \<or> (\<exists>q. (q = p \<or> ancestor q p) \<and> content w q \<noteq> None) \<Longrightarrow> Q () w'"
  shows "wp_io (forM (mkdir_list p) c_mkdir) Q w"
  using assms
proof (induction "length p" arbitrary: p Q rule: less_induct)
  case less
  let ?d = "parent_dir p"
  have parts: "p = ?d @ CHR ''/'' # base_name p" "?d = [] \<or> wf_path ?d"
    using wf_path_parts [OF less.prems(2)] by auto
  have shorter: "length ?d < length p" using arg_cong [OF parts(1), of length] by simp
  have up: "ancestor ?d p" using parts(1) by (metis ancestorI)
  have own: "wp_io (c_mkdir p) (\<lambda>_. Q ()) v"
    if v: "passes w v" "content v = content w" "set (dirs w) \<subseteq> set (dirs v)"
      "\<forall>q\<in>set (dirs v). q \<in> set (dirs w) \<or> ancestor q p"
      "dir_exists v ?d \<or> off v \<or> (\<exists>q. ancestor q p \<and> content w q \<noteq> None)" for v
  proof (rule wp_mkdir_card [OF passes_good [OF v(1) less.prems(1)] less.prems(2)])
    fix w' assume "passes v w'" "content w' = content v" "dirs w' = dirs v @ [p]"
    then show "Q () w'" using less.prems(3) [of w'] passes_trans [OF v(1), of w'] v(2-4) by auto
  next
    fix w' assume w': "passes v w'" "dirs w' = dirs v" "content w' = content v"
      "p \<in> set (dirs v) \<or> content v p \<noteq> None \<or> \<not> dir_exists v ?d \<or> off w'"
    then have "p \<in> set (dirs w') \<or> off w' \<or> (\<exists>q. (q = p \<or> ancestor q p) \<and> content w q \<noteq> None)"
      using v(2, 5) passes_off [OF w'(1)] by (metis)
    then show "Q () w'" using less.prems(3) [of w'] passes_trans [OF v(1) w'(1)] w'(2, 3) v(2-4) by auto
  qed
  show ?case
  proof (cases "?d = []")
    case True
    then show ?thesis
      using own [of w] unfolding mkdir_list_snoc [OF less.prems(2) refl]
      by (simp add: wp dir_exists_def)
  next
    case False
    then have d: "wf_path ?d" using parts(2) by simp
    have "wp_io (forM (mkdir_list ?d) c_mkdir) (\<lambda>_. wp_io (c_mkdir p) (\<lambda>_. Q ())) w"
    proof (rule less.hyps [OF shorter less.prems(1) d])
      fix v assume v: "passes w v" "content v = content w" "set (dirs w) \<subseteq> set (dirs v)"
        "\<forall>q\<in>set (dirs v). q \<in> set (dirs w) \<or> q = ?d \<or> ancestor q ?d"
        "?d \<in> set (dirs v) \<or> off v \<or> (\<exists>q. (q = ?d \<or> ancestor q ?d) \<and> content w q \<noteq> None)"
      show "wp_io (c_mkdir p) (\<lambda>_. Q ()) v"
        by (rule own [OF v(1-3)]) (use v(4, 5) up ancestor_trans in \<open>auto simp: dir_exists_def\<close>)
    qed
    then show ?thesis
      using False unfolding mkdir_list_snoc [OF less.prems(2) refl]
      by (simp add: wp wp_forM_append)
  qed
qed

lemma store_makeDirectories_law:
  assumes "good_card w" and "wf_path p"
    and "\<And>w' b. passes w w' \<Longrightarrow> content w' = content w \<Longrightarrow> set (dirs w) \<subseteq> set (dirs w') \<Longrightarrow>
      \<forall>q\<in>set (dirs w'). q \<in> set (dirs w) \<or> q = p \<or> ancestor q p \<Longrightarrow> b = (p \<in> set (dirs w')) \<Longrightarrow>
      b \<or> off w' \<or> (\<exists>q. (q = p \<or> ancestor q p) \<and> content w q \<noteq> None) \<Longrightarrow> Q b w'"
  shows "wp_io (store_makeDirectories p) Q w"
proof -
  have "wp_io (forM (mkdir_list p) c_mkdir) (\<lambda>_ w'. Q (is_dir w' p) w') w"
    by (rule make_path [OF assms(1, 2)])
      (use assms(3) wf_path_not_root [OF assms(2)] in \<open>auto simp: is_dir_def\<close>)
  then show ?thesis
    using wf_path_last [OF assms(2)] unfolding store_makeDirectories_def wp
    by (simp add: wp_io_def c_is_dir_def)
qed

subsection \<open>Removing a tree\<close>

lemma remove_all:
  assumes "good_card w"
    and "\<And>w'. passes w w' \<Longrightarrow> dirs w' = dirs w \<Longrightarrow> \<forall>q. q \<notin> g ` set xs \<longrightarrow> content w' q = content w q \<Longrightarrow>
      \<forall>q. content w' q = content w q \<or> content w' q = None \<Longrightarrow>
      off w' \<or> (\<forall>x\<in>set xs. content w' (g x) = None) \<Longrightarrow> Q () w'"
  shows "wp_io (forM xs (\<lambda>x. c_remove (g x))) Q w"
  using assms
proof (induction xs arbitrary: w)
  case Nil
  then show ?case by (simp add: wp)
next
  case (Cons x xs)
  have rest: "wp_io (forM xs (\<lambda>x. c_remove (g x))) Q v"
    if v: "passes w v" "dirs v = dirs w" "content v = (content w)(g x := None) \<or> off v \<and> content v = content w" for v
  proof (rule Cons.IH [OF passes_good [OF v(1) Cons.prems(1)]])
    fix w' assume w': "passes v w'" "dirs w' = dirs v" "\<forall>q. q \<notin> g ` set xs \<longrightarrow> content w' q = content v q"
      "\<forall>q. content w' q = content v q \<or> content w' q = None"
      "off w' \<or> (\<forall>x\<in>set xs. content w' (g x) = None)"
    have "content w' (g x) = None \<or> off w'"
      using v(3) w'(4) passes_off [OF w'(1)] by (metis fun_upd_same)
    moreover have "\<forall>q. q \<notin> g ` set (x # xs) \<longrightarrow> content w' q = content w q"
      using v(3) w'(3) by auto
    moreover have "\<forall>q. content w' q = content w q \<or> content w' q = None"
      using v(3) w'(4) by (metis fun_upd_apply)
    ultimately show "Q () w'"
      using Cons.prems(2) [OF passes_trans [OF v(1) w'(1)]] w'(2, 5) v(2) by auto
  qed
  show ?case unfolding forM.simps wp
    by (rule wp_remove_card [OF Cons.prems(1)]) (auto intro: rest)
qed

text \<open>Directories go from the deepest up, so each is empty when its turn comes.\<close>

lemma no_entries:
  assumes wf: "wf_card w" and files: "\<forall>q. ancestor d q \<longrightarrow> content w q = None"
    and dirs: "\<forall>q. ancestor d q \<longrightarrow> q \<notin> set (dirs w)"
  shows "dir_entries w d = []"
proof (rule ccontr)
  assume "dir_entries w d \<noteq> []"
  then obtain n where "n \<in> set (dir_entries w d)" by (cases "dir_entries w d") auto
  then have "d @ CHR ''/'' # n \<in> set (paths w)" using wf_card_children [OF wf] by blast
  then show False using files dirs ancestorI [of d n] by (auto simp: paths_iff)
qed

lemma rmdir_all:
  assumes "good_card w" and "dir \<noteq> []"
    and "off w \<or> (\<forall>q. ancestor dir q \<longrightarrow> content w q = None)"
    and "\<forall>q\<in>set (dirs w). ancestor dir q \<longrightarrow> (\<exists>d\<in>set ds. q = dir @ CHR ''/'' # d)"
    and "sorted (map (\<lambda>d. - int (length d)) ds)"
    and "\<And>w'. passes w w' \<Longrightarrow> content w' = content w \<Longrightarrow> set (dirs w') \<subseteq> set (dirs w) \<Longrightarrow>
      \<forall>q\<in>set (dirs w). q \<notin> set (dirs w') \<longrightarrow> ancestor dir q \<Longrightarrow>
      off w' \<or> (\<forall>q. ancestor dir q \<longrightarrow> q \<notin> set (dirs w')) \<Longrightarrow> Q () w'"
  shows "wp_io (forM ds (\<lambda>d. c_rmdir (dir @ CHR ''/'' # d))) Q w"
  using assms
proof (induction ds arbitrary: w)
  case Nil
  then have "Q () w" by (intro Nil.prems(6)) auto
  then show ?case by (simp add: wp)
next
  case (Cons d ds)
  let ?p = "dir @ CHR ''/'' # d"
  have rest: "wp_io (forM ds (\<lambda>d. c_rmdir (dir @ CHR ''/'' # d))) Q v"
    if v: "passes w v" "content v = content w" "set (dirs v) \<subseteq> set (dirs w)"
      "\<forall>q\<in>set (dirs w). q \<notin> set (dirs v) \<longrightarrow> q = ?p" "off v \<or> ?p \<notin> set (dirs v)" for v
  proof (cases "off v")
    case True
    have frozen: "wp_io (forM es (\<lambda>d. c_rmdir (dir @ CHR ''/'' # d)))
        (\<lambda>_ w'. passes v w' \<and> content w' = content v \<and> dirs w' = dirs v \<and> off w') v" for es
    proof (rule wp_forM [where I = "\<lambda>w'. passes v w' \<and> content w' = content v \<and> dirs w' = dirs v \<and> off w'"])
      fix e u assume u: "passes v u \<and> content u = content v \<and> dirs u = dirs v \<and> off u"
      then have "good_card u" using passes_good [OF v(1) Cons.prems(1)] passes_good by blast
      then show "wp_io (c_rmdir (dir @ CHR ''/'' # e))
          (\<lambda>_ w'. passes v w' \<and> content w' = content v \<and> dirs w' = dirs v \<and> off w') u"
      proof (rule wp_rmdir_card)
        fix w' assume "passes u w'"
        then show "passes v w' \<and> content w' = content v \<and> dirs w' = dirs v \<and> off w'"
          using u passes_trans [of v u w'] passes_off [of u w'] by (auto simp: passes_def)
      next
        fix w' assume "passes u w'"
        then show "passes v w' \<and> content w' = content v \<and> dirs w' = dirs v \<and> off w'"
          using u passes_trans [of v u w'] passes_off [of u w'] by (auto simp: passes_def)
      qed simp
    qed (use True in simp)
    show ?thesis
    proof (rule wp_mono [OF frozen])
      fix a :: unit and w' assume "passes v w' \<and> content w' = content v \<and> dirs w' = dirs v \<and> off w'"
      then have w': "passes v w'" "content w' = content v" "dirs w' = dirs v" "off w'" by auto
      have "Q () w'"
        by (rule Cons.prems(6) [OF passes_trans [OF v(1) w'(1)]]) (use v(2-4) w'(2-4) in auto)
      then show "Q a w'" by simp
    qed
  next
    case False
    then have gone: "?p \<notin> set (dirs v)" and on: "\<not> off w" using v(5) passes_off [OF v(1)] by auto
    show ?thesis
    proof (rule Cons.IH [OF passes_good [OF v(1) Cons.prems(1)] Cons.prems(2)])
      show "off v \<or> (\<forall>q. ancestor dir q \<longrightarrow> content v q = None)" using Cons.prems(3) on v(2) by simp
      show "\<forall>q\<in>set (dirs v). ancestor dir q \<longrightarrow> (\<exists>d\<in>set ds. q = dir @ CHR ''/'' # d)"
        using Cons.prems(4) v(3) gone by fastforce
      show "sorted (map (\<lambda>d. - int (length d)) ds)" using Cons.prems(5) by simp
      fix w' assume w': "passes v w'" "content w' = content v" "set (dirs w') \<subseteq> set (dirs v)"
        "\<forall>q\<in>set (dirs v). q \<notin> set (dirs w') \<longrightarrow> ancestor dir q"
        "off w' \<or> (\<forall>q. ancestor dir q \<longrightarrow> q \<notin> set (dirs w'))"
      show "Q () w'"
        by (rule Cons.prems(6) [OF passes_trans [OF v(1) w'(1)]]) (use v w' in auto)
    qed
  qed
  have empty: "dir_entries w ?p = []" if "\<not> off w"
  proof (rule no_entries)
    show "wf_card w" using Cons.prems(1) by (simp add: good_card_def)
    show "\<forall>q. ancestor ?p q \<longrightarrow> content w q = None"
      using Cons.prems(3) that ancestor_trans [OF ancestorI] by blast
    show "\<forall>q. ancestor ?p q \<longrightarrow> q \<notin> set (dirs w)"
    proof (intro allI impI notI)
      fix q assume q: "ancestor ?p q" "q \<in> set (dirs w)"
      then obtain e where e: "e \<in> set (d # ds)" "q = dir @ CHR ''/'' # e"
        using Cons.prems(4) ancestor_trans [OF ancestorI] by blast
      then have "length e \<le> length d" using Cons.prems(5) by auto
      then show False using q(1) e(2) ancestor_longer by fastforce
    qed
  qed
  show ?case unfolding forM.simps wp
  proof (rule wp_rmdir_card [OF Cons.prems(1)])
    fix v assume "passes w v" "content v = content w" "dirs v = removeAll ?p (dirs w)"
    then show "wp_io (forM ds (\<lambda>d. c_rmdir (dir @ CHR ''/'' # d))) Q v" by (intro rest) auto
  next
    fix v assume v: "passes w v" "dirs v = dirs w" "content v = content w"
      "?p \<notin> set (dirs w) \<or> dir_entries w ?p \<noteq> [] \<or> off v"
    then show "wp_io (forM ds (\<lambda>d. c_rmdir (dir @ CHR ''/'' # d))) Q v"
      using empty passes_off [OF v(1)] by (intro rest) auto
  qed simp
qed

lemma store_removeTree_law:
  assumes good: "good_card w" and dir: "dir \<noteq> []"
    and Q: "\<And>w' b. passes w w' \<Longrightarrow> \<forall>q. content w' q = content w q \<or> ancestor dir q \<and> content w' q = None \<Longrightarrow>
      set (dirs w') \<subseteq> set (dirs w) \<Longrightarrow>
      \<forall>q\<in>set (dirs w). q \<notin> set (dirs w') \<longrightarrow> q = dir \<or> ancestor dir q \<Longrightarrow>
      off w' \<or> (\<forall>q. ancestor dir q \<longrightarrow> content w' q = None) \<and>
        (\<forall>q. q = dir \<or> ancestor dir q \<longrightarrow> q \<notin> set (dirs w')) \<Longrightarrow> Q b w'"
  shows "wp_io (store_removeTree dir) Q w"
proof -
  let ?files = "fst (walk w dir [[]] ([], []))"
  have wf: "wf_card v" if "passes w v" for v
    using passes_good [OF that good] by (simp add: good_card_def)
  have final: "wp_io (c_rmdir dir) (\<lambda>_. wp_io (c_stat dir) (\<lambda>there. Q (\<not> there))) v"
    if v: "passes w v" "\<forall>q. content v q = content w q \<or> ancestor dir q \<and> content v q = None"
      "set (dirs v) \<subseteq> set (dirs w)" "\<forall>q\<in>set (dirs w). q \<notin> set (dirs v) \<longrightarrow> ancestor dir q"
      "off v \<or> (\<forall>q. ancestor dir q \<longrightarrow> content v q = None \<and> q \<notin> set (dirs v))" for v
  proof (rule wp_rmdir_card [OF passes_good [OF v(1) good] dir])
    fix w' assume w': "passes v w'" "content w' = content v" "dirs w' = removeAll dir (dirs v)"
    have "Q b w'" for b
      by (rule Q [OF passes_trans [OF v(1) w'(1)]]) (use v w'(2, 3) passes_off [OF w'(1)] in auto)
    then show "wp_io (c_stat dir) (\<lambda>there. Q (\<not> there)) w'" by (simp add: wp_io_def c_stat_def)
  next
    fix w' assume w': "passes v w'" "dirs w' = dirs v" "content w' = content v"
      "dir \<notin> set (dirs v) \<or> dir_entries v dir \<noteq> [] \<or> off w'"
    have "off w' \<or> dir \<notin> set (dirs w')"
      using w'(2, 4) v(5) passes_off [OF w'(1)] no_entries [OF wf [OF v(1)], of dir] by metis
    then have "Q b w'" for b
      by (intro Q [OF passes_trans [OF v(1) w'(1)]]) (use v w'(2, 3) passes_off [OF w'(1)] in auto)
    then show "wp_io (c_stat dir) (\<lambda>there. Q (\<not> there)) w'" by (simp add: wp_io_def c_stat_def)
  qed
  have body: "wp_io (forM ?files (\<lambda>r. c_remove (dir @ CHR ''/'' # r)))
    (\<lambda>_ v. wp_io (forM (sort_key (\<lambda>d. - int (length d)) (snd (walk v dir [[]] ([], []))))
        (\<lambda>d. c_rmdir (dir @ CHR ''/'' # d)))
      (\<lambda>_. wp_io (c_rmdir dir) (\<lambda>_. wp_io (c_stat dir) (\<lambda>there. Q (\<not> there)))) v) w"
  proof (rule remove_all [where g = "\<lambda>r. dir @ CHR ''/'' # r", OF good])
    fix v assume v: "passes w v" "dirs v = dirs w"
      "\<forall>q. q \<notin> (\<lambda>r. dir @ CHR ''/'' # r) ` set ?files \<longrightarrow> content v q = content w q"
      "\<forall>q. content v q = content w q \<or> content v q = None"
      "off v \<or> (\<forall>x\<in>set ?files. content v (dir @ CHR ''/'' # x) = None)"
    have known: "dir @ CHR ''/'' # r \<in> (\<lambda>r. dir @ CHR ''/'' # r) ` set ?files"
      if "content w (dir @ CHR ''/'' # r) \<noteq> None" for r
    proof -
      have "wf_path (dir @ CHR ''/'' # r)"
        using wf_card_path [OF wf [OF passes_refl]] that paths_iff by blast
      then have "r \<noteq> []" by (auto simp: wf_path_append name_ok_def)
      with that show ?thesis using listing(2) [OF wf [OF passes_refl] dir] by auto
    qed
    have empty: "off v \<or> (\<forall>q. ancestor dir q \<longrightarrow> content v q = None)"
      using v(3, 5) known v(4) unfolding ancestor_def by (metis (no_types, lifting) image_iff)
    have frame: "\<forall>q. content v q = content w q \<or> ancestor dir q \<and> content v q = None"
    proof
      fix q
      show "content v q = content w q \<or> ancestor dir q \<and> content v q = None"
        using spec [OF v(3), of q] spec [OF v(4), of q] by (cases "ancestor dir q") (auto simp: ancestorI)
    qed
    let ?ds = "sort_key (\<lambda>d. - int (length d)) (snd (walk v dir [[]] ([], [])))"
    show "wp_io (forM ?ds (\<lambda>d. c_rmdir (dir @ CHR ''/'' # d)))
      (\<lambda>_. wp_io (c_rmdir dir) (\<lambda>_. wp_io (c_stat dir) (\<lambda>there. Q (\<not> there)))) v"
    proof (rule rmdir_all [OF passes_good [OF v(1) good] dir empty])
      show "\<forall>q\<in>set (dirs v). ancestor dir q \<longrightarrow> (\<exists>d\<in>set ?ds. q = dir @ CHR ''/'' # d)"
      proof (intro ballI impI)
        fix q assume q: "q \<in> set (dirs v)" "ancestor dir q"
        then obtain r where r: "q = dir @ CHR ''/'' # r" by (auto simp: ancestor_def)
        then have "r \<noteq> []"
          using wf_card_dir [OF wf [OF v(1)] q(1)] by (auto simp: wf_path_append name_ok_def)
        then show "\<exists>d\<in>set ?ds. q = dir @ CHR ''/'' # d"
          using r q(1) listing(4) [OF wf [OF v(1)] dir] by auto
      qed
      show "sorted (map (\<lambda>d. - int (length d)) ?ds)" by simp
      fix u assume u: "passes v u" "content u = content v" "set (dirs u) \<subseteq> set (dirs v)"
        "\<forall>q\<in>set (dirs v). q \<notin> set (dirs u) \<longrightarrow> ancestor dir q"
        "off u \<or> (\<forall>q. ancestor dir q \<longrightarrow> q \<notin> set (dirs u))"
      show "wp_io (c_rmdir dir) (\<lambda>_. wp_io (c_stat dir) (\<lambda>there. Q (\<not> there))) u"
        by (rule final [OF passes_trans [OF v(1) u(1)]])
          (use u frame v(2) empty passes_off [OF u(1)] in auto)
    qed
  qed
  have list: "wp_io (store_listFilesRecursive dir) P v = P (fst (walk v dir [[]] ([], []))) v"
    and found: "wp_io (found_directories dir) P v = P (snd (walk v dir [[]] ([], []))) v" for P v
    by (simp_all add: wp_io_def store_listFilesRecursive_def found_directories_def)
  show ?thesis
    using body unfolding store_removeTree_def wp list found by (simp add: found wp)
qed

section \<open>The contract of a file store\<close>

text \<open>
  What the installers may rely on.  A state has contents and directories; \<open>good\<close> states are the well-formed
  ones, in a \<open>dead\<close> state the power is gone and nothing changes any more, a \<open>steady\<close> state never loses
  power, and \<open>restart\<close> brings the power back.  \<open>later\<close> relates the states before and after an operation.
\<close>

locale file_store =
  fixes fs :: "'w FileStore"
    and cont :: "'w \<Rightarrow> string \<Rightarrow> string option"
    and isdir :: "'w \<Rightarrow> string \<Rightarrow> bool"
    and good :: "'w \<Rightarrow> bool" and dead :: "'w \<Rightarrow> bool" and steady :: "'w \<Rightarrow> bool"
    and later :: "'w \<Rightarrow> 'w \<Rightarrow> bool" and restart :: "'w \<Rightarrow> 'w"
  assumes later_refl: "later w w"
    and later_trans: "later u v \<Longrightarrow> later v w \<Longrightarrow> later u w"
    and later_good: "later w w' \<Longrightarrow> good w \<Longrightarrow> good w'"
    and later_dead: "later w w' \<Longrightarrow> dead w \<Longrightarrow> dead w' \<and> cont w' = cont w \<and> isdir w' = isdir w"
    and later_steady: "later w w' \<Longrightarrow> steady w \<Longrightarrow> steady w'"
    and steady_alive: "steady w \<Longrightarrow> \<not> dead w"
    and file_not_dir: "good w \<Longrightarrow> isdir w p \<Longrightarrow> cont w p = None"
    and tree: "good w \<Longrightarrow> cont w p \<noteq> None \<or> isdir w p \<Longrightarrow> ancestor q p \<Longrightarrow> q \<noteq> [] \<Longrightarrow> isdir w q"
    and file_path: "good w \<Longrightarrow> cont w p \<noteq> None \<Longrightarrow> wf_path p"
    and exists_law: "wp_io (fs_exists fs p) Q w = Q (cont w p \<noteq> None) w"
    and list_law: "good w \<Longrightarrow> dir \<noteq> [] \<Longrightarrow>
      (\<And>xs. distinct xs \<Longrightarrow> set xs = {r. r \<noteq> [] \<and> cont w (dir @ CHR ''/'' # r) \<noteq> None} \<Longrightarrow> P xs w) \<Longrightarrow>
      wp_io (fs_listFilesRecursive fs dir) P w"
    and read_law: "cont w p = Some d \<Longrightarrow> length d \<le> unat limit \<Longrightarrow> R (Some d) w \<Longrightarrow>
      wp_io (fs_readText fs p limit) R w"
    and read_pure: "(\<And>r. R r w) \<Longrightarrow> wp_io (fs_readText fs p limit) R w"
    and remove_law: "good w \<Longrightarrow>
      (\<And>w' b. later w w' \<Longrightarrow> isdir w' = isdir w \<Longrightarrow>
        cont w' = (cont w)(p := None) \<or> dead w' \<and> cont w' = cont w \<Longrightarrow> Q b w') \<Longrightarrow>
      wp_io (fs_remove fs p) Q w"
    and rename_law: "good w \<Longrightarrow> wf_path to \<Longrightarrow>
      (\<And>w' d. later w w' \<Longrightarrow> isdir w' = isdir w \<Longrightarrow> cont w from = Some d \<Longrightarrow> from \<noteq> to \<Longrightarrow>
        cont w' = (cont w)(from := None, to \<mapsto> d) \<Longrightarrow> Q True w') \<Longrightarrow>
      (\<And>w'. later w w' \<Longrightarrow> isdir w' = isdir w \<Longrightarrow> cont w' = cont w \<or> cont w' = (cont w)(to := None) \<Longrightarrow>
        cont w from = None \<or> from = to \<or> isdir w to \<or> parent_dir to \<noteq> [] \<and> \<not> isdir w (parent_dir to) \<or> dead w' \<Longrightarrow>
        Q False w') \<Longrightarrow>
      wp_io (fs_rename fs from to) Q w"
    and write_law: "good w \<Longrightarrow> wf_path p \<Longrightarrow>
      (\<And>w'. later w w' \<Longrightarrow> isdir w' = isdir w \<Longrightarrow> cont w' = (cont w)(p @ ''.tmp'' := None, p \<mapsto> data) \<Longrightarrow>
        Q True w') \<Longrightarrow>
      (\<And>w'. later w w' \<Longrightarrow> isdir w' = isdir w \<Longrightarrow>
        \<forall>q. q \<noteq> p \<longrightarrow> q \<noteq> p @ ''.tmp'' \<longrightarrow> cont w' q = cont w q \<Longrightarrow>
        cont w' p = cont w p \<or> cont w' p = None \<Longrightarrow>
        isdir w p \<or> isdir w (p @ ''.tmp'') \<or> parent_dir p \<noteq> [] \<and> \<not> isdir w (parent_dir p) \<or> dead w' \<Longrightarrow> Q False w') \<Longrightarrow>
      wp_io (fs_writeAtomic fs p data) Q w"
    and mkdirs_law: "good w \<Longrightarrow> wf_path p \<Longrightarrow>
      (\<And>w' b. later w w' \<Longrightarrow> cont w' = cont w \<Longrightarrow> \<forall>q. isdir w q \<longrightarrow> isdir w' q \<Longrightarrow>
        \<forall>q. isdir w' q \<longrightarrow> isdir w q \<or> q = p \<or> ancestor q p \<Longrightarrow> b = isdir w' p \<Longrightarrow>
        b \<or> dead w' \<or> (\<exists>q. (q = p \<or> ancestor q p) \<and> cont w q \<noteq> None) \<Longrightarrow> Q b w') \<Longrightarrow>
      wp_io (fs_makeDirectories fs p) Q w"
    and rmtree_law: "good w \<Longrightarrow> wf_path dir \<Longrightarrow>
      (\<And>w' b. later w w' \<Longrightarrow> \<forall>q. cont w' q = cont w q \<or> ancestor dir q \<and> cont w' q = None \<Longrightarrow>
        \<forall>q. isdir w' q \<longrightarrow> isdir w q \<Longrightarrow>
        \<forall>q. isdir w q \<longrightarrow> \<not> isdir w' q \<longrightarrow> q = dir \<or> ancestor dir q \<Longrightarrow>
        dead w' \<or> (\<forall>q. ancestor dir q \<longrightarrow> cont w' q = None) \<and> (\<forall>q. q = dir \<or> ancestor dir q \<longrightarrow> \<not> isdir w' q) \<Longrightarrow>
        Q b w') \<Longrightarrow>
      wp_io (fs_removeTree fs dir) Q w"
    and restart_good: "good w \<Longrightarrow> good (restart w) \<and> steady (restart w)"
    and restart_same: "cont (restart w) = cont w \<and> isdir (restart w) = isdir w"

text \<open>The SD card keeps the contract.\<close>

definition power_on :: "sd \<Rightarrow> sd" where
  "power_on w = w\<lparr>fate := (\<lambda>_. Done), tick := 0\<rparr>"

lemma parent_missing:
  "wf_path to \<Longrightarrow> \<not> dir_exists w (parent_dir to) \<Longrightarrow> parent_dir to \<noteq> [] \<and> \<not> is_dir w (parent_dir to)"
  using wf_path_parts(3) [of to] wf_path_not_root by (auto simp: dir_exists_def is_dir_def)

interpretation card: file_store "sd_store vfs" content is_dir good_card off calm passes power_on
proof (unfold_locales, goal_cases)
  case (4 w w')
  then show ?case using passes_off [of w w'] by (auto simp: passes_def is_dir_def fun_eq_iff)
next
  case (7 w p)
  then have wf: "wf_card w" by (simp add: good_card_def)
  then show ?case
    using 7(2) wf_card_dir [OF wf] wf_card_path [OF wf, of p] wf_path_not_root [of p]
    by (cases "content w p") (auto simp: is_dir_def paths_iff)
next
  case (8 w p q)
  then have wf: "wf_card w" by (simp add: good_card_def)
  obtain s where s: "p = q @ CHR ''/'' # s" using 8(3) by (auto simp: ancestor_def)
  then have "p \<in> set (paths w)" using 8(2, 4) by (auto simp: is_dir_def paths_iff)
  from wf_card_above [OF wf this s 8(4)] show ?case by (simp add: is_dir_def)
next
  case (9 w p)
  then show ?case using wf_card_path [of w p] by (auto simp: good_card_def paths_iff)
next
  case (15 w to "from" Q)
  have "wp_io (store_rename from to) Q w"
  proof (rule store_rename_law [OF 15(1, 2)])
    fix w' assume w': "passes w w'" "dirs w' = dirs w"
      "content w' = content w \<or> content w' = (content w)(to := None)"
      "content w from = None \<or> from = to \<or> to \<in> set (dirs w) \<or> \<not> dir_exists w (parent_dir to) \<or> off w'"
    show "Q False w'"
      by (rule 15(4) [OF w'(1) _ w'(3)])
        (use w'(2, 4) parent_missing [OF 15(2)] in \<open>auto simp: is_dir_def fun_eq_iff\<close>)
  qed (rule 15(3); simp add: is_dir_def fun_eq_iff)
  then show ?case by (simp add: sd_store_def)
next
  case (18 w dir Q)
  have nr: "q \<noteq> ''/''" if "q = dir \<or> ancestor dir q" for q
    using that wf_path_not_root [OF 18(2)] child_not_root [OF wf_path_last(3) [OF 18(2)]]
    by (metis ancestor_def)
  have "wp_io (store_removeTree dir) Q w"
    by (rule store_removeTree_law [OF 18(1) wf_path_last(3) [OF 18(2)]], rule 18(3))
      (use nr in \<open>auto simp: is_dir_def\<close>)
  then show ?case by (simp add: sd_store_def)
next
  case (16 w p data Q)
  have "wp_io (store_writeAtomic p data) Q w"
  proof (rule store_writeAtomic_law [OF 16(1, 2)])
    fix w' assume w': "passes w w'" "dirs w' = dirs w"
      "\<forall>q. q \<noteq> p \<longrightarrow> q \<noteq> p @ ''.tmp'' \<longrightarrow> content w' q = content w q"
      "content w' p = content w p \<or> content w' p = None"
      "p \<in> set (dirs w) \<or> p @ ''.tmp'' \<in> set (dirs w) \<or> \<not> dir_exists w (parent_dir p) \<or> off w'"
    show "Q False w'"
      by (rule 16(4) [OF w'(1) _ w'(3, 4)])
        (use w'(2, 5) parent_missing [OF 16(2)] in \<open>auto simp: is_dir_def fun_eq_iff\<close>)
  qed (rule 16(3); simp add: is_dir_def fun_eq_iff)
  then show ?case by (simp add: sd_store_def)
next
  case (17 w p Q)
  have "wp_io (store_makeDirectories p) Q w"
    by (rule store_makeDirectories_law [OF 17(1, 2)], rule 17(3))
      (use wf_path_not_root [OF 17(2)] in \<open>auto simp: is_dir_def\<close>)
  then show ?case by (simp add: sd_store_def)
next
  case (14 w p Q)
  have "wp_io (store_remove p) Q w"
    by (rule store_remove_law [OF 14(1)], rule 14(2)) (auto simp: is_dir_def)
  then show ?case by (simp add: sd_store_def)
next
  case (19 w)
  then show ?case
    by (auto simp: good_card_def power_on_def calm_def wf_card_def paths_def content_def dir_exists_def)
qed (auto simp: sd_store_def is_dir_def fun_eq_iff power_on_def content_def calm_not_off passes_calm store_exists_law
    intro: passes_trans passes_good store_list_law store_readText_law store_readText_pure)

section \<open>The listing\<close>

text \<open>C29: On a well-formed card the walk with an explicit stack lists exactly the files below a directory, each
  of them once, and changes nothing.\<close>

theorem listFilesRecursive_exact:
  assumes "wf_card w" and "dir \<noteq> []"
  shows "case run_state (store_listFilesRecursive dir) w of (listed, w') \<Rightarrow>
    w' = w \<and> distinct listed \<and> (\<forall>r. r \<in> set listed \<longleftrightarrow> r \<noteq> [] \<and> content w (dir @ ''/'' @ r) \<noteq> None)"
  using listing(1, 2) [OF assms] by (simp add: store_listFilesRecursive_def)

definition nested_card :: sd where
  "nested_card =
     \<lparr>files = [(''/p/a/x'', ''1''), (''/p/b'', ''2''), (''/q'', ''3'')], dirs = [''/p'', ''/p/a'', ''/p/e''],
      fate = (\<lambda>_. Done), tick = 0\<rparr>"

theorem listFilesRecursive_exact_witness:
  "set (fst (run_state (store_listFilesRecursive ''/p'') nested_card)) = {''a/x'', ''b''}"
proof -
  have "wf_card nested_card" by code_simp
  from listFilesRecursive_exact [OF this, of "''/p''"]
  have "\<forall>r. r \<in> set (fst (run_state (store_listFilesRecursive ''/p'') nested_card)) \<longleftrightarrow>
      r \<noteq> [] \<and> content nested_card (''/p'' @ ''/'' @ r) \<noteq> None"
    by (simp add: case_prod_unfold)
  then show ?thesis by (auto simp: nested_card_def content_def split: if_splits)
qed

end
