(* ===== verification/Cfw_Merge.thy ===== *)
theory Cfw_Merge
  imports Cfw_Install Store_Laws
begin

text \<open>
  Why an interrupted or failed installation can be undone.  While a merge runs, every file of the package is
  untouched, set aside, or in place; from any such state the rollback restores the destination.  The proofs
  use the contract of the file store only.
\<close>

section \<open>The places of a file\<close>

abbreviation tgt :: "MergeMarker \<Rightarrow> string \<Rightarrow> string" where
  "tgt m \<equiv> cfw_join (destinationRoot m)"

abbreviation src :: "MergeMarker \<Rightarrow> string \<Rightarrow> string" where
  "src m \<equiv> cfw_join (stagingDir m)"

abbreviation bak :: "MergeMarker \<Rightarrow> string \<Rightarrow> string" where
  "bak m \<equiv> cfw_join (backupDir m)"

text \<open>Everything below the staging root belongs to the installer.\<close>

definition area :: "CfwInstallConfig \<Rightarrow> string \<Rightarrow> bool" where
  "area config q = ancestor (stagingRoot config) q"

text \<open>The marker of an installation with a sensible configuration.\<close>

definition layout_ok :: "CfwInstallConfig \<Rightarrow> MergeMarker \<Rightarrow> bool" where
  "layout_ok config m =
     (wf_path (stagingRoot config) \<and> name_ok (itemId m) \<and>
      stagingDir m = stagingFor config (itemId m) \<and> backupDir m = backupFor config (itemId m) \<and>
      (destinationRoot m = ''/'' \<or> wf_path (destinationRoot m)))"

lemma cfw_join_wf: "wf_path d \<Longrightarrow> cfw_join d r = d @ CHR ''/'' # r"
  using wf_path_last [of d] wf_path_not_root [of d] by (simp add: cfw_join_def)

definition dest_prefix :: "MergeMarker \<Rightarrow> string" where
  "dest_prefix m = (if destinationRoot m = ''/'' then ''/'' else destinationRoot m @ ''/'')"

lemma tgt_eq: "layout_ok config m \<Longrightarrow> tgt m r = dest_prefix m @ r"
  using wf_path_not_root [of "destinationRoot m"]
  by (auto simp: layout_ok_def dest_prefix_def cfw_join_wf) (simp add: cfw_join_def)

lemma name_ok_backup: "name_ok n \<Longrightarrow> name_ok (n @ ''.backup'')"
  by (cases n) (auto simp: name_ok_def)

lemma layout_dirs:
  assumes "layout_ok config m"
  shows "wf_path (stagingDir m)" "wf_path (backupDir m)" "stagingRoot config \<noteq> []"
    "stagingDir m = stagingRoot config @ CHR ''/'' # itemId m"
    "backupDir m = stagingRoot config @ CHR ''/'' # (itemId m @ ''.backup'')"
  using assms name_ok_free [of "itemId m"] name_ok_backup [of "itemId m"]
    name_ok_free [of "itemId m @ ''.backup''"] wf_path_last(3) [of "stagingRoot config"]
  by (simp_all add: layout_ok_def stagingFor_def backupFor_def wf_path_snoc)

lemma src_eq: "layout_ok config m \<Longrightarrow> src m r = stagingDir m @ CHR ''/'' # r"
  and bak_eq: "layout_ok config m \<Longrightarrow> bak m r = backupDir m @ CHR ''/'' # r"
  using cfw_join_wf [OF layout_dirs(1)] cfw_join_wf [OF layout_dirs(2)] by blast+

lemma place_inject:
  assumes "layout_ok config m"
  shows "tgt m r = tgt m r' \<longleftrightarrow> r = r'" "src m r = src m r' \<longleftrightarrow> r = r'" "bak m r = bak m r' \<longleftrightarrow> r = r'"
  using assms by (simp_all add: tgt_eq src_eq bak_eq)

lemma place_area:
  assumes "layout_ok config m"
  shows "area config (src m r)" "area config (bak m r)" "area config (backupDir m)" "area config (stagingDir m)"
  using layout_dirs(4, 5) [OF assms] src_eq [OF assms] bak_eq [OF assms]
  by (auto simp: area_def ancestor_def)

lemma src_bak_apart:
  assumes "layout_ok config m"
  shows "src m r \<noteq> bak m r'"
proof
  assume "src m r = bak m r'"
  then have "stagingDir m @ CHR ''/'' # r = backupDir m @ CHR ''/'' # r'"
    using src_eq [OF assms] bak_eq [OF assms] by simp
  then have "itemId m @ CHR ''/'' # r = (itemId m @ ''.backup'') @ CHR ''/'' # r'"
    unfolding layout_dirs(4, 5) [OF assms] by simp
  then have "before CHR ''/'' (itemId m @ CHR ''/'' # r) =
      before CHR ''/'' ((itemId m @ ''.backup'') @ CHR ''/'' # r')" by simp
  then show False
    using name_ok_free [of "itemId m"] assms by (simp add: layout_ok_def del: append_assoc)
qed

lemma wf_tgt:
  assumes "layout_ok config m" and "wf_path (d @ CHR ''/'' # r)"
  shows "wf_path (tgt m r)"
proof -
  have "list_all name_ok (split_on CHR ''/'' r)" using assms(2) by (simp add: wf_path_append)
  then show ?thesis
    using assms(1) wf_path_append [of "[]" r] wf_path_append [of "destinationRoot m" r]
    by (auto simp: tgt_eq [OF assms(1)] dest_prefix_def layout_ok_def)
qed

lemma cfw_parentOf_eq: "cfw_parentOf p = (if CHR ''/'' \<in> set p then parent_dir p else [])"
  by (simp add: cfw_parentOf_def)

lemma parentOf_wf: "wf_path p \<Longrightarrow> cfw_parentOf p = parent_dir p"
  by (simp add: cfw_parentOf_eq wf_path_slash)

lemma parent_ancestor: "wf_path p \<Longrightarrow> ancestor (parent_dir p) p"
  using wf_path_parts(1) [of p] by (metis ancestorI)

text \<open>The proper ancestors of a path are its parent and the ancestors of the parent.\<close>

lemma ancestor_parent:
  assumes "wf_path p" and "ancestor q p"
  shows "q = parent_dir p \<or> ancestor q (parent_dir p)"
proof -
  obtain s where s: "p = q @ CHR ''/'' # s" using assms(2) by (auto simp: ancestor_def)
  show ?thesis
  proof (cases "CHR ''/'' \<in> set s")
    case False
    then show ?thesis using s by simp
  next
    case True
    then have "p = (q @ CHR ''/'' # parent_dir s) @ CHR ''/'' # base_name s"
      using s parent_base(1) [OF True] by simp
    then have "parent_dir p = q @ CHR ''/'' # parent_dir s"
      using parent_dir_append [OF parent_base(2) [OF True]] by metis
    then show ?thesis by (auto simp: ancestor_def)
  qed
qed

section \<open>The phases of a merge\<close>

type_synonym contents = "string \<Rightarrow> string option"

definition untouched :: "MergeMarker \<Rightarrow> contents \<Rightarrow> contents \<Rightarrow> string \<Rightarrow> bool" where
  "untouched m c0 c r = (c (tgt m r) = c0 (tgt m r) \<and> c (src m r) = c0 (src m r) \<and> c (bak m r) = None)"

definition aside :: "MergeMarker \<Rightarrow> contents \<Rightarrow> contents \<Rightarrow> string \<Rightarrow> bool" where
  "aside m c0 c r =
     (c0 (tgt m r) \<noteq> None \<and> c (tgt m r) = None \<and> c (src m r) = c0 (src m r) \<and> c (bak m r) = c0 (tgt m r))"

definition placed :: "MergeMarker \<Rightarrow> contents \<Rightarrow> contents \<Rightarrow> string \<Rightarrow> bool" where
  "placed m c0 c r = (c (tgt m r) = c0 (src m r) \<and> c (src m r) = None \<and> c (bak m r) = c0 (tgt m r))"

definition merging :: "MergeMarker \<Rightarrow> string list \<Rightarrow> contents \<Rightarrow> contents \<Rightarrow> bool" where
  "merging m ps c0 c =
     ((\<forall>r\<in>set ps. untouched m c0 c r \<or> aside m c0 c r \<or> placed m c0 c r) \<and>
      (\<forall>q. (\<forall>r\<in>set ps. q \<noteq> tgt m r \<and> q \<noteq> src m r \<and> q \<noteq> bak m r) \<longrightarrow> c q = c0 q))"

definition apart :: "CfwInstallConfig \<Rightarrow> MergeMarker \<Rightarrow> string list \<Rightarrow> bool" where
  "apart config m ps = (layout_ok config m \<and> (\<forall>r\<in>set ps. \<not> area config (tgt m r)))"

lemma apart_places:
  assumes "apart config m ps" and "r \<in> set ps"
  shows "tgt m r \<noteq> src m r'" "tgt m r \<noteq> bak m r'" "src m r' \<noteq> tgt m r" "bak m r' \<noteq> tgt m r"
    "src m r'' \<noteq> bak m r'" "bak m r' \<noteq> src m r''"
  using assms place_area(1, 2) [of config m] src_bak_apart [of config m] unfolding apart_def by metis+

lemma apart_inject:
  "apart config m ps \<Longrightarrow> tgt m r = tgt m r' \<longleftrightarrow> r = r'"
  "apart config m ps \<Longrightarrow> src m r = src m r' \<longleftrightarrow> r = r'"
  "apart config m ps \<Longrightarrow> bak m r = bak m r' \<longleftrightarrow> r = r'"
  using place_inject [of config m] by (simp_all add: apart_def)

lemma merging_start: "\<forall>r\<in>set ps. c0 (bak m r) = None \<Longrightarrow> merging m ps c0 c0"
  by (simp add: merging_def untouched_def)

lemma merging_aside:
  assumes a: "apart config m ps" and r: "r \<in> set ps" and m: "merging m ps c0 c" and u: "untouched m c0 c r"
    and d: "c (tgt m r) = Some d"
  defines "c' \<equiv> c(tgt m r := None, bak m r \<mapsto> d)"
  shows "merging m ps c0 c'" and "aside m c0 c' r"
    and "x \<in> set ps \<Longrightarrow> x \<noteq> r \<Longrightarrow> untouched m c0 c x \<Longrightarrow> untouched m c0 c' x"
proof -
  have same: "c' (tgt m x) = c (tgt m x)" "c' (src m x) = c (src m x)" "c' (bak m x) = c (bak m x)"
    if "x \<in> set ps" "x \<noteq> r" for x
    using that apart_places [OF a r] apart_places [OF a that(1)] apart_inject [OF a] by (simp_all add: c'_def)
  show as: "aside m c0 c' r"
    using u d apart_places [OF a r] by (auto simp: aside_def untouched_def c'_def dest: sym)
  have "c' q = c0 q" if q: "\<forall>x\<in>set ps. q \<noteq> tgt m x \<and> q \<noteq> src m x \<and> q \<noteq> bak m x" for q
    using q r m by (auto simp: c'_def merging_def)
  moreover have "untouched m c0 c' x \<or> aside m c0 c' x \<or> placed m c0 c' x" if x: "x \<in> set ps" for x
    using as m x same [OF x] by (cases "x = r") (auto simp: merging_def untouched_def aside_def placed_def)
  ultimately show "merging m ps c0 c'" by (simp add: merging_def)
  show "x \<in> set ps \<Longrightarrow> x \<noteq> r \<Longrightarrow> untouched m c0 c x \<Longrightarrow> untouched m c0 c' x"
    using same by (simp add: untouched_def)
qed

lemma merging_place:
  assumes a: "apart config m ps" and r: "r \<in> set ps" and m: "merging m ps c0 c"
    and u: "untouched m c0 c r \<and> c0 (tgt m r) = None \<or> aside m c0 c r"
    and d: "c (src m r) = Some d"
  defines "c' \<equiv> c(src m r := None, tgt m r \<mapsto> d)"
  shows "merging m ps c0 c'" and "placed m c0 c' r"
    and "x \<in> set ps \<Longrightarrow> x \<noteq> r \<Longrightarrow> untouched m c0 c x \<Longrightarrow> untouched m c0 c' x"
    and "x \<in> set ps \<Longrightarrow> x \<noteq> r \<Longrightarrow> placed m c0 c x \<Longrightarrow> placed m c0 c' x"
proof -
  have same: "c' (tgt m x) = c (tgt m x)" "c' (src m x) = c (src m x)" "c' (bak m x) = c (bak m x)"
    if "x \<in> set ps" "x \<noteq> r" for x
    using that apart_places [OF a r] apart_places [OF a that(1)] apart_inject [OF a] by (simp_all add: c'_def)
  show as: "placed m c0 c' r"
    using u d apart_places [OF a r] by (auto simp: aside_def untouched_def placed_def c'_def)
  have "c' q = c0 q" if q: "\<forall>x\<in>set ps. q \<noteq> tgt m x \<and> q \<noteq> src m x \<and> q \<noteq> bak m x" for q
    using q r m by (auto simp: c'_def merging_def)
  moreover have "untouched m c0 c' x \<or> aside m c0 c' x \<or> placed m c0 c' x" if x: "x \<in> set ps" for x
    using as m x same [OF x] by (cases "x = r") (auto simp: merging_def untouched_def aside_def placed_def)
  ultimately show "merging m ps c0 c'" by (simp add: merging_def)
  show "x \<in> set ps \<Longrightarrow> x \<noteq> r \<Longrightarrow> untouched m c0 c x \<Longrightarrow> untouched m c0 c' x"
    "x \<in> set ps \<Longrightarrow> x \<noteq> r \<Longrightarrow> placed m c0 c x \<Longrightarrow> placed m c0 c' x"
    using same by (simp_all add: untouched_def placed_def)
qed

text \<open>The state in which a merge starts, and what it keeps while it runs.  Directories are only added, above
  the files it moves.\<close>

definition merge_start ::
  "CfwInstallConfig \<Rightarrow> MergeMarker \<Rightarrow> string list \<Rightarrow> contents \<Rightarrow> (string \<Rightarrow> bool) \<Rightarrow> bool" where
  "merge_start config m ps c0 d0 =
     (apart config m ps \<and> distinct ps \<and> (\<forall>r\<in>set ps. c0 (src m r) \<noteq> None) \<and>
      (\<forall>q. q = backupDir m \<or> ancestor (backupDir m) q \<longrightarrow> c0 q = None \<and> \<not> d0 q))"

definition merge_inv ::
  "MergeMarker \<Rightarrow> string list \<Rightarrow> contents \<Rightarrow> (string \<Rightarrow> bool) \<Rightarrow> contents \<Rightarrow> (string \<Rightarrow> bool) \<Rightarrow> bool" where
  "merge_inv m ps c0 d0 c d =
     (merging m ps c0 c \<and> (\<forall>q. d0 q \<longrightarrow> d q) \<and>
      (\<forall>q. d q \<longrightarrow> q = [] \<or> d0 q \<or> (\<exists>r\<in>set ps. ancestor q (tgt m r)) \<or>
        (q = backupDir m \<or> ancestor (backupDir m) q) \<and> (\<exists>r\<in>set ps. ancestor q (bak m r))))"

text \<open>Nothing stands in the way of the package.\<close>

definition compatible :: "MergeMarker \<Rightarrow> string list \<Rightarrow> contents \<Rightarrow> (string \<Rightarrow> bool) \<Rightarrow> bool" where
  "compatible m ps c0 d0 =
     (\<forall>r\<in>set ps. \<not> d0 (tgt m r) \<and> (\<forall>q. ancestor q (tgt m r) \<longrightarrow> c0 q = None))"

lemma area_below: "area config q \<Longrightarrow> ancestor q p \<Longrightarrow> area config p"
  unfolding area_def by (rule ancestor_trans)

lemma src_not_below_backup:
  assumes "layout_ok config m"
  shows "src m r \<noteq> backupDir m" and "\<not> ancestor (backupDir m) (src m r)"
proof -
  show "\<not> ancestor (backupDir m) (src m r)"
    using src_bak_apart [OF assms, of r] bak_eq [OF assms] by (auto simp: ancestor_def)
  show "src m r \<noteq> backupDir m"
  proof
    assume "src m r = backupDir m"
    then have "stagingDir m @ CHR ''/'' # r = backupDir m" using src_eq [OF assms] by simp
    then have "itemId m @ CHR ''/'' # r = itemId m @ ''.backup''"
      unfolding layout_dirs(4, 5) [OF assms] by simp
    then show False by simp
  qed
qed

lemma layout_parent: "layout_ok config m \<Longrightarrow> parent_dir (backupDir m) = stagingRoot config"
  unfolding layout_dirs(5)
  by (rule parent_dir_append) (use name_ok_free [OF name_ok_backup] in \<open>auto simp: layout_ok_def\<close>)

text \<open>A proper ancestor of a backup lies inside the backup directory, or is above the staging directory.\<close>

lemma bak_ancestor:
  assumes l: "layout_ok config m" and q: "ancestor q (bak m r)" and r: "wf_path (bak m r)"
  shows "q = backupDir m \<or> ancestor (backupDir m) q \<or> ancestor q (stagingDir m)"
proof -
  obtain s where s: "backupDir m @ CHR ''/'' # r = q @ CHR ''/'' # s"
    using q bak_eq [OF l] by (auto simp: ancestor_def)
  then consider us where "backupDir m = q @ us" "us @ CHR ''/'' # r = CHR ''/'' # s"
    | us where "backupDir m @ us = q" "CHR ''/'' # r = us @ CHR ''/'' # s"
    by (auto simp: append_eq_append_conv2)
  then show ?thesis
  proof cases
    case 1
    show ?thesis
    proof (cases us)
      case Nil
      then show ?thesis using 1 by simp
    next
      case (Cons c us')
      then have "ancestor q (backupDir m)" using 1 by (auto simp: ancestor_def)
      from ancestor_parent [OF layout_dirs(2) [OF l] this]
      have "q = stagingRoot config \<or> ancestor q (stagingRoot config)"
        unfolding layout_parent [OF l] .
      moreover have "ancestor (stagingRoot config) (stagingDir m)" using layout_dirs(4) [OF l] by auto
      ultimately show ?thesis using ancestor_trans by blast
    qed
  next
    case 2
    then show ?thesis by (cases us) (auto simp: ancestor_def)
  qed
qed

lemma admin_area:
  "area config (markerPath config)" "area config (mergeFileListPath config)" "area config (archiveFor config ident)"
  "area config (archiveFor config ident @ ''.part'')" "area config (stagingFor config ident)"
  by (auto simp: area_def ancestor_def markerPath_def mergeFileListPath_def archiveFor_def stagingFor_def)

section \<open>Programs over the contract\<close>

context file_store
begin

text \<open>Every operation leads to a later state; without power that is the same contents.\<close>

lemma later_ops:
  assumes "good w"
  shows "wp_io (fs_exists fs p) (\<lambda>_. later w) w"
    and "dir \<noteq> [] \<Longrightarrow> wp_io (fs_listFilesRecursive fs dir) (\<lambda>_. later w) w"
    and "wp_io (fs_readText fs p limit) (\<lambda>_. later w) w"
    and "wp_io (fs_remove fs p) (\<lambda>_. later w) w"
    and "wf_path p \<Longrightarrow> wp_io (fs_rename fs q p) (\<lambda>_. later w) w"
    and "wf_path p \<Longrightarrow> wp_io (fs_makeDirectories fs p) (\<lambda>_. later w) w"
    and "wf_path dir \<Longrightarrow> wp_io (fs_removeTree fs dir) (\<lambda>_. later w) w"
  using assms
  by (auto simp: exists_law later_refl intro: list_law read_pure remove_law rename_law mkdirs_law rmtree_law)

lemma dead_frozen:
  assumes "wp_io p (\<lambda>_. later w) w" and "dead w"
  shows "wp_io p (\<lambda>_ w'. later w w' \<and> dead w' \<and> cont w' = cont w \<and> isdir w' = isdir w) w"
  using assms(1) by (rule wp_mono) (use later_dead assms(2) in auto)

text \<open>Sequences keep to the future.\<close>

lemma later_seq:
  assumes "wp_io p (\<lambda>_. later w) w" and "good w" and "\<And>a w'. good w' \<Longrightarrow> wp_io (k a) (\<lambda>_. later w') w'"
  shows "wp_io (State_Monad.bind p k) (\<lambda>_. later w) w"
  unfolding wp using assms(1)
proof (rule wp_mono)
  fix a w' assume l: "later w w'"
  then have "wp_io (k a) (\<lambda>_. later w') w'" using assms(2, 3) later_good by blast
  then show "wp_io (k a) (\<lambda>_. later w) w'" by (rule wp_mono) (rule later_trans [OF l])
qed

lemma later_return: "wp_io (State_Monad.return a) (\<lambda>_. later w) w"
  by (simp add: wp later_refl)

lemma later_forM:
  assumes "\<And>x w. good w \<Longrightarrow> wp_io (f x) (\<lambda>_. later w) w" and "good w"
  shows "wp_io (forM xs f) (\<lambda>_. later w) w"
  using assms(2) by (induction xs arbitrary: w) (auto simp: later_return intro!: later_seq assms(1))

lemma later_discardStaging:
  assumes "layout_ok config m" and "good w"
  shows "wp_io (discardStaging fs config (itemId m)) (\<lambda>_. later w) w"
proof -
  have "wf_path (stagingFor config (itemId m))"
    using layout_dirs(1) [OF assms(1)] assms(1) by (simp add: layout_ok_def)
  then show ?thesis unfolding discardStaging_def
    by (intro later_seq later_ops later_return assms)
qed

lemma later_commit:
  assumes "layout_ok config m" and "good w"
  shows "wp_io (cfw_commit fs config m) (\<lambda>_. later w) w"
  unfolding cfw_commit_def using layout_dirs(1, 2) [OF assms(1)]
  by (intro later_seq later_ops later_return assms)

lemma later_restore_all:
  assumes "\<forall>r\<in>set xs. wf_path (tgt m r)" and "good w"
  shows "wp_io (restore_all fs m xs complete) (\<lambda>_. later w) w"
  using assms
proof (induction xs arbitrary: w complete)
  case (Cons r xs)
  then have "wf_path (tgt m r)" by simp
  moreover have "cfw_parentOf (tgt m r) \<noteq> [] \<Longrightarrow> wf_path (cfw_parentOf (tgt m r))"
    using wf_path_parts(3) [OF calculation] by (simp add: parentOf_wf [OF calculation])
  ultimately show ?case using Cons
    by (auto simp: Let_def intro!: later_seq later_ops later_return)
qed (simp add: later_return)

lemma later_rollBack:
  assumes "layout_ok config m" and "good w"
  shows "wp_io (cfw_rollBack fs config m planned) (\<lambda>_. later w) w"
proof -
  let ?rest = "\<lambda>backedUp complete. do {
     _ \<leftarrow> forM planned (remove_created fs m backedUp);
     _ \<leftarrow> fs_removeTree fs (backupDir m);
     _ \<leftarrow> fs_removeTree fs (stagingDir m);
     _ \<leftarrow> fs_remove fs (archiveFor config (itemId m));
     _ \<leftarrow> fs_remove fs (mergeFileListPath config);
     _ \<leftarrow> fs_remove fs (markerPath config);
     State_Monad.return complete }"
  have one: "wp_io (remove_created fs m d r) (\<lambda>_. later v) v" if "good v" for d r v
    using that by (auto simp: remove_created_def intro!: later_seq later_ops later_return)
  have rest: "wp_io (?rest b c) (\<lambda>_. later v) v" if "good v" for b c v
    using layout_dirs(1, 2) [OF assms(1)]
    by (intro later_seq later_forM one later_ops later_return that)
  have restore: "wp_io (restore_all fs m b True) (\<lambda>_. later w) w"
    if "set b = {r. r \<noteq> [] \<and> cont w (backupDir m @ CHR ''/'' # r) \<noteq> None}" for b
  proof (rule later_restore_all [OF _ assms(2)])
    show "\<forall>r\<in>set b. wf_path (tgt m r)"
      using that file_path [OF assms(2)] wf_tgt [OF assms(1)] by blast
  qed
  have "wp_io (State_Monad.bind (restore_all fs m b True) (?rest b)) (\<lambda>_. later w) w"
    if "set b = {r. r \<noteq> [] \<and> cont w (backupDir m @ CHR ''/'' # r) \<noteq> None}" for b
    by (rule later_seq [OF restore [OF that] assms(2) rest])
  then show ?thesis
    unfolding cfw_rollBack_def wp_bind [of "fs_listFilesRecursive fs (backupDir m)"]
    by (intro list_law [OF assms(2)]) (use layout_dirs(2) [OF assms(1)] wf_path_last(3) in auto)
qed

text \<open>No file of the package lies below another.\<close>

lemma prefix_free:
  assumes "good w0" and "merge_start config m ps (cont w0) (isdir w0)" and "r \<in> set ps" and "r' \<in> set ps"
  shows "\<not> ancestor r r'" and "\<not> ancestor (tgt m r) (tgt m r')" and "\<not> ancestor (bak m r) (bak m r')"
proof -
  have l: "layout_ok config m" using assms(2) by (simp add: merge_start_def apart_def)
  have S: "cont w0 (src m r) \<noteq> None" "cont w0 (src m r') \<noteq> None" using assms by (auto simp: merge_start_def)
  show free: "\<not> ancestor r r'"
  proof
    assume "ancestor r r'"
    then have "ancestor (src m r) (src m r')" unfolding src_eq [OF l] by (auto simp: ancestor_def)
    moreover have "src m r \<noteq> []" using src_eq [OF l] by simp
    ultimately have "isdir w0 (src m r)" using tree [OF assms(1)] S(2) by blast
    then show False using S(1) file_not_dir [OF assms(1)] by simp
  qed
  then show "\<not> ancestor (tgt m r) (tgt m r')" "\<not> ancestor (bak m r) (bak m r')"
    by (simp_all add: tgt_eq [OF l] bak_eq [OF l] ancestor_def)
qed

lemma start_wf:
  assumes "good w0" and "merge_start config m ps (cont w0) (isdir w0)" and "r \<in> set ps"
  shows "wf_path (src m r)" "wf_path (tgt m r)" "wf_path (bak m r)" "layout_ok config m" "\<not> area config (tgt m r)"
proof -
  show l: "layout_ok config m" using assms(2) by (simp add: merge_start_def apart_def)
  show "wf_path (src m r)" using assms file_path [OF assms(1)] by (auto simp: merge_start_def)
  then have s: "wf_path (stagingDir m @ CHR ''/'' # r)" by (simp add: src_eq [OF l])
  from wf_tgt [OF l this] show "wf_path (tgt m r)" .
  show "wf_path (bak m r)"
    using s layout_dirs(2) [OF l] by (simp add: bak_eq [OF l] wf_path_append)
  show "\<not> area config (tgt m r)" using assms by (simp add: merge_start_def apart_def)
qed

lemma tgt_not_dir:
  assumes "good w0" and st: "merge_start config m ps (cont w0) (isdir w0)" and r: "r \<in> set ps"
    and inv: "merge_inv m ps (cont w0) (isdir w0) c d" and "\<not> isdir w0 (tgt m r)"
  shows "\<not> d (tgt m r)"
proof
  note w = start_wf [OF assms(1) st r]
  assume "d (tgt m r)"
  moreover have "tgt m r \<noteq> []" using wf_path_last(3) [OF w(2)] .
  ultimately have "(\<exists>r'\<in>set ps. ancestor (tgt m r) (tgt m r')) \<or> tgt m r = backupDir m \<or> ancestor (backupDir m) (tgt m r)"
    using inv assms(5) by (auto simp: merge_inv_def)
  then show False
    using prefix_free(2) [OF assms(1) st r] place_area(3) [OF w(4)] area_below w(5) by metis
qed

lemma bak_not_dir:
  assumes "good w0" and st: "merge_start config m ps (cont w0) (isdir w0)" and r: "r \<in> set ps"
    and inv: "merge_inv m ps (cont w0) (isdir w0) c d"
  shows "\<not> d (bak m r)"
proof
  note w = start_wf [OF assms(1) st r]
  assume d: "d (bak m r)"
  have "bak m r \<noteq> []" using wf_path_last(3) [OF w(3)] .
  moreover have "\<not> isdir w0 (bak m r)" using st bak_eq [OF w(4)] by (auto simp: merge_start_def)
  moreover have "\<not> ancestor (bak m r) (tgt m r')" if "r' \<in> set ps" for r'
    using start_wf(5) [OF assms(1) st that] area_below [OF place_area(2) [OF w(4)]] by blast
  ultimately show False
    using inv d prefix_free(3) [OF assms(1) st r] by (auto simp: merge_inv_def)
qed

text \<open>Nothing stands in the way of a backup.\<close>

lemma bak_clear:
  assumes "good w0" and st: "merge_start config m ps (cont w0) (isdir w0)" and r: "r \<in> set ps"
    and "good w" and inv: "merge_inv m ps (cont w0) (isdir w0) (cont w) (isdir w)"
    and q: "ancestor q (bak m r)"
  shows "q = [] \<or> cont w q = None"
proof -
  note w = start_wf [OF assms(1) st r]
  consider "q = backupDir m \<or> ancestor (backupDir m) q" | "ancestor q (stagingDir m)"
    using bak_ancestor [OF w(4) q w(3)] by blast
  then show ?thesis
  proof cases
    case 1
    then have none: "cont w0 q = None" and ar: "area config q"
      using st place_area(3) [OF w(4)] area_below by (auto simp: merge_start_def)
    have "q \<noteq> tgt m x \<and> q \<noteq> src m x \<and> q \<noteq> bak m x" if x: "x \<in> set ps" for x
      using ar start_wf(5) [OF assms(1) st x] src_not_below_backup [OF w(4)] 1
        prefix_free(3) [OF assms(1) st x r] q by metis
    then have "cont w q = cont w0 q" using inv by (simp add: merge_inv_def merging_def)
    then show ?thesis using none by simp
  next
    case 2
    have "ancestor (stagingDir m) (src m r)" by (auto simp: src_eq [OF w(4)])
    with 2 have "ancestor q (src m r)" using ancestor_trans by blast
    then have "q = [] \<or> isdir w0 q" using tree [OF assms(1)] st r by (metis merge_start_def)
    then have "q = [] \<or> isdir w q" using inv by (auto simp: merge_inv_def)
    then show ?thesis using file_not_dir [OF assms(4), of q] by auto
  qed
qed

lemma tgt_clear:
  assumes "good w0" and st: "merge_start config m ps (cont w0) (isdir w0)" and r: "r \<in> set ps"
    and inv: "merge_inv m ps (cont w0) (isdir w0) c d" and co: "compatible m ps (cont w0) (isdir w0)"
    and q: "ancestor q (tgt m r)"
  shows "c q = None"
proof -
  note w = start_wf [OF assms(1) st r]
  have "q \<noteq> tgt m x \<and> q \<noteq> src m x \<and> q \<noteq> bak m x" if x: "x \<in> set ps" for x
    using w(5) area_below [OF _ q] place_area(1, 2) [OF w(4)] prefix_free(2) [OF assms(1) st x r] q by metis
  then have "c q = cont w0 q" using inv by (simp add: merge_inv_def merging_def)
  then show ?thesis using co r q by (simp add: compatible_def)
qed

text \<open>Creating the parent directories of a place keeps the invariant.\<close>

lemma make_parent:
  assumes "good w0" and st: "merge_start config m ps (cont w0) (isdir w0)" and r: "r \<in> set ps"
    and "good w" and inv: "merge_inv m ps (cont w0) (isdir w0) (cont w) (isdir w)"
    and p: "p = tgt m r \<or> p = bak m r"
    and Q: "\<And>w' b. later w w' \<Longrightarrow> cont w' = cont w \<Longrightarrow> merge_inv m ps (cont w0) (isdir w0) (cont w') (isdir w') \<Longrightarrow>
      (b \<Longrightarrow> parent_dir p = [] \<or> isdir w' (parent_dir p)) \<Longrightarrow>
      b \<or> dead w' \<or> (\<exists>q. ancestor q p \<and> q \<noteq> [] \<and> cont w q \<noteq> None) \<Longrightarrow> Q b w'"
  shows "wp_io (if cfw_parentOf p \<noteq> [] then fs_makeDirectories fs (cfw_parentOf p) else State_Monad.return True) Q w"
proof -
  note wf = start_wf [OF assms(1) st r]
  have p_wf: "wf_path p" using p wf by auto
  have up: "ancestor q p" if "q = parent_dir p \<or> ancestor q (parent_dir p)" for q
    using that parent_ancestor [OF p_wf] ancestor_trans by blast
  have new: "q = [] \<or> isdir w0 q \<or> (\<exists>r\<in>set ps. ancestor q (tgt m r)) \<or>
      (q = backupDir m \<or> ancestor (backupDir m) q) \<and> (\<exists>r\<in>set ps. ancestor q (bak m r))"
    if "ancestor q p" for q
  proof (cases "p = tgt m r")
    case False
    then have b: "ancestor q (bak m r)" using p that by simp
    have "ancestor (stagingDir m) (src m r)" by (auto simp: src_eq [OF wf(4)])
    then have "q = [] \<or> isdir w0 q" if "ancestor q (stagingDir m)"
      using that ancestor_trans tree [OF assms(1)] st r by (metis merge_start_def)
    then show ?thesis using bak_ancestor [OF wf(4) b wf(3)] b r by blast
  qed (use that r in blast)
  show ?thesis
  proof (cases "parent_dir p = []")
    case True
    then show ?thesis using Q [OF later_refl refl inv] by (simp add: parentOf_wf [OF p_wf] wp)
  next
    case False
    then have "wf_path (parent_dir p)" using wf_path_parts(3) [OF p_wf] by blast
    then have "wp_io (fs_makeDirectories fs (parent_dir p)) Q w"
    proof (rule mkdirs_law [OF assms(4)])
      fix w' b assume w': "later w w'" "cont w' = cont w" "\<forall>q. isdir w q \<longrightarrow> isdir w' q"
        "\<forall>q. isdir w' q \<longrightarrow> isdir w q \<or> q = parent_dir p \<or> ancestor q (parent_dir p)" "b = isdir w' (parent_dir p)"
        "b \<or> dead w' \<or> (\<exists>q. (q = parent_dir p \<or> ancestor q (parent_dir p)) \<and> cont w q \<noteq> None)"
      have "merge_inv m ps (cont w0) (isdir w0) (cont w') (isdir w')"
        using inv w'(2, 3, 4) new up unfolding merge_inv_def by (metis (no_types, lifting))
      moreover have "b \<or> dead w' \<or> (\<exists>q. ancestor q p \<and> q \<noteq> [] \<and> cont w q \<noteq> None)"
        using w'(6) up file_path [OF assms(4)] wf_path_last(3) by metis
      ultimately show "Q b w'" using Q w'(1, 2, 5) by blast
    qed
    then show ?thesis using False by (simp add: parentOf_wf [OF p_wf])
  qed
qed

lemma set_aside_wp:
  assumes "good w0" and st: "merge_start config m ps (cont w0) (isdir w0)" and r: "r \<in> set ps"
    and g: "good w" and inv: "merge_inv m ps (cont w0) (isdir w0) (cont w) (isdir w)"
    and u: "untouched m (cont w0) (cont w) r"
    and ok: "\<And>w' out'. later w w' \<Longrightarrow> merge_inv m ps (cont w0) (isdir w0) (cont w') (isdir w') \<Longrightarrow>
      untouched m (cont w0) (cont w') r \<and> cont w0 (tgt m r) = None \<or> aside m (cont w0) (cont w') r \<Longrightarrow>
      (\<And>x. x \<in> set ps \<Longrightarrow> x \<noteq> r \<Longrightarrow> untouched m (cont w0) (cont w) x \<Longrightarrow> untouched m (cont w0) (cont w') x) \<Longrightarrow>
      (\<And>x. x \<in> set ps \<Longrightarrow> x \<noteq> r \<Longrightarrow> placed m (cont w0) (cont w) x \<Longrightarrow> placed m (cont w0) (cont w') x) \<Longrightarrow>
      Q (Inr out') w'"
    and stop: "\<And>w' detail. later w w' \<Longrightarrow> merge_inv m ps (cont w0) (isdir w0) (cont w') (isdir w') \<Longrightarrow> dead w' \<Longrightarrow>
      wp_io (abandon fs config m ps out InstallRolledBack detail) Q w'"
  shows "wp_io (set_aside fs config m ps out r) Q w"
proof (cases "cont w (tgt m r)")
  case None
  then show ?thesis
    using ok [OF later_refl inv] u by (simp add: set_aside_def Let_def exists_law wp untouched_def)
next
  case (Some d)
  note wf = start_wf [OF assms(1) st r]
  have a: "apart config m ps" using st by (simp add: merge_start_def)
  have mg: "merging m ps (cont w0) (cont w)" using inv by (simp add: merge_inv_def)
  let ?k = "\<lambda>ok. if \<not> ok then abandon fs config m ps out InstallRolledBack
         (''could not back up '' @ r @ ''; nothing was changed'')
       else do {
         moved \<leftarrow> fs_rename fs (tgt m r) (bak m r);
         if \<not> moved then
           abandon fs config m ps out InstallRolledBack
             (''could not set aside '' @ r @ ''; nothing was changed'')
         else State_Monad.return (Inr (out\<lparr>filesReplaced := filesReplaced out + 1\<rparr>)) }"
  have "wp_io (if cfw_parentOf (bak m r) \<noteq> [] then fs_makeDirectories fs (cfw_parentOf (bak m r))
      else State_Monad.return True) (\<lambda>b. wp_io (?k b) Q) w"
  proof (rule make_parent [OF assms(1) st r g inv])
    show "bak m r = tgt m r \<or> bak m r = bak m r" by simp
    fix v b assume v: "later w v" "cont v = cont w" "merge_inv m ps (cont w0) (isdir w0) (cont v) (isdir v)"
      "b \<Longrightarrow> parent_dir (bak m r) = [] \<or> isdir v (parent_dir (bak m r))"
      "b \<or> dead v \<or> (\<exists>q. ancestor q (bak m r) \<and> q \<noteq> [] \<and> cont w q \<noteq> None)"
    have gv: "good v" using later_good [OF v(1) g] .
    show "wp_io (?k b) Q v"
    proof (cases b)
      case False
      have "cont w q = None" if "ancestor q (bak m r)" "q \<noteq> []" for q
        using bak_clear [OF assms(1) st r g inv that(1)] that(2) by simp
      then have "dead v" using v(5) False by auto
      then show ?thesis using stop [OF v(1, 3)] False by simp
    next
      case True
      have "wp_io (fs_rename fs (tgt m r) (bak m r)) (\<lambda>moved. wp_io (if \<not> moved then
           abandon fs config m ps out InstallRolledBack
             (''could not set aside '' @ r @ ''; nothing was changed'')
         else State_Monad.return (Inr (out\<lparr>filesReplaced := filesReplaced out + 1\<rparr>))) Q) v"
      proof (rule rename_law [OF gv wf(3)])
        fix w' d' assume w': "later v w'" "isdir w' = isdir v" "cont v (tgt m r) = Some d'"
          "cont w' = (cont v)(tgt m r := None, bak m r \<mapsto> d')"
        then have c: "cont w' = (cont w)(tgt m r := None, bak m r \<mapsto> d)" using Some v(2) by simp
        note md = merging_aside [OF a r mg u Some, folded c]
        have "merge_inv m ps (cont w0) (isdir w0) (cont w') (isdir w')"
          using v(3) md(1) w'(2) by (simp add: merge_inv_def)
        moreover have "placed m (cont w0) (cont w') x" if "x \<in> set ps" "x \<noteq> r" "placed m (cont w0) (cont w) x" for x
          using that c apart_places [OF a r] apart_places [OF a that(1)] apart_inject [OF a] by (simp add: placed_def)
        ultimately show "wp_io (if \<not> True then
           abandon fs config m ps out InstallRolledBack
             (''could not set aside '' @ r @ ''; nothing was changed'')
         else State_Monad.return (Inr (out\<lparr>filesReplaced := filesReplaced out + 1\<rparr>))) Q w'"
          using ok [OF later_trans [OF v(1) w'(1)]] md(2, 3) by (simp add: wp)
      next
        fix w' assume w': "later v w'" "isdir w' = isdir v"
          "cont w' = cont v \<or> cont w' = (cont v)(bak m r := None)"
          "cont v (tgt m r) = None \<or> tgt m r = bak m r \<or> isdir v (bak m r) \<or>
           parent_dir (bak m r) \<noteq> [] \<and> \<not> isdir v (parent_dir (bak m r)) \<or> dead w'"
        have "dead w'"
          using w'(4) Some v(2, 4) True apart_places [OF a r] bak_not_dir [OF assms(1) st r v(3)] by auto
        moreover have "cont w' = cont v" using w'(3) u v(2) by (auto simp: untouched_def fun_upd_idem)
        ultimately show "wp_io (if \<not> False then
           abandon fs config m ps out InstallRolledBack
             (''could not set aside '' @ r @ ''; nothing was changed'')
         else State_Monad.return (Inr (out\<lparr>filesReplaced := filesReplaced out + 1\<rparr>))) Q w'"
          using stop [OF later_trans [OF v(1) w'(1)]] v(3) w'(2) by simp
      qed
      then show ?thesis using True by (simp add: wp)
    qed
  qed
  then show ?thesis using Some by (simp add: set_aside_def Let_def exists_law wp_bind wp_if)
qed

lemma place_file_wp:
  assumes "good w0" and st: "merge_start config m ps (cont w0) (isdir w0)" and r: "r \<in> set ps"
    and g: "good w" and inv: "merge_inv m ps (cont w0) (isdir w0) (cont w) (isdir w)"
    and u: "untouched m (cont w0) (cont w) r \<and> cont w0 (tgt m r) = None \<or> aside m (cont w0) (cont w) r"
    and ok: "\<And>w' out'. later w w' \<Longrightarrow> merge_inv m ps (cont w0) (isdir w0) (cont w') (isdir w') \<Longrightarrow>
      placed m (cont w0) (cont w') r \<Longrightarrow>
      (\<And>x. x \<in> set ps \<Longrightarrow> x \<noteq> r \<Longrightarrow> untouched m (cont w0) (cont w) x \<Longrightarrow> untouched m (cont w0) (cont w') x) \<Longrightarrow>
      (\<And>x. x \<in> set ps \<Longrightarrow> x \<noteq> r \<Longrightarrow> placed m (cont w0) (cont w) x \<Longrightarrow> placed m (cont w0) (cont w') x) \<Longrightarrow>
      Q (Inr out') w'"
    and stop: "\<And>w' detail. later w w' \<Longrightarrow> merge_inv m ps (cont w0) (isdir w0) (cont w') (isdir w') \<Longrightarrow>
      compatible m ps (cont w0) (isdir w0) \<longrightarrow> dead w' \<Longrightarrow>
      wp_io (abandon fs config m ps out InstallRolledBack detail) Q w'"
  shows "wp_io (place_file fs config m ps out r) Q w"
proof -
  note wf = start_wf [OF assms(1) st r]
  have a: "apart config m ps" using st by (simp add: merge_start_def)
  have mg: "merging m ps (cont w0) (cont w)" using inv by (simp add: merge_inv_def)
  have gone: "cont w (tgt m r) = None" using u by (auto simp: untouched_def aside_def)
  have "cont w0 (src m r) \<noteq> None" using st r by (simp add: merge_start_def)
  then obtain d where d: "cont w (src m r) = Some d" using u by (auto simp: untouched_def aside_def)
  let ?j = "\<lambda>moved. if \<not> moved then
         abandon fs config m ps out InstallRolledBack
           (''could not install '' @ r @ ''; the previous files were restored'')
       else State_Monad.return (Inr (out\<lparr>filesMerged := filesMerged out + 1\<rparr>))"
  let ?k = "\<lambda>ok. if \<not> ok then
       abandon fs config m ps out InstallRolledBack (''could not create a directory for '' @ r)
     else do { moved \<leftarrow> fs_rename fs (src m r) (tgt m r); ?j moved }"
  have "wp_io (if cfw_parentOf (tgt m r) \<noteq> [] then fs_makeDirectories fs (cfw_parentOf (tgt m r))
      else State_Monad.return True) (\<lambda>b. wp_io (?k b) Q) w"
  proof (rule make_parent [OF assms(1) st r g inv])
    show "tgt m r = tgt m r \<or> tgt m r = bak m r" by simp
    fix v b assume v: "later w v" "cont v = cont w" "merge_inv m ps (cont w0) (isdir w0) (cont v) (isdir v)"
      "b \<Longrightarrow> parent_dir (tgt m r) = [] \<or> isdir v (parent_dir (tgt m r))"
      "b \<or> dead v \<or> (\<exists>q. ancestor q (tgt m r) \<and> q \<noteq> [] \<and> cont w q \<noteq> None)"
    have gv: "good v" using later_good [OF v(1) g] .
    show "wp_io (?k b) Q v"
    proof (cases b)
      case False
      have "dead v" if co: "compatible m ps (cont w0) (isdir w0)"
      proof -
        have "cont w q = None" if "ancestor q (tgt m r)" for q
          using tgt_clear [OF assms(1) st r inv co that] .
        then show ?thesis using v(5) False by auto
      qed
      then show ?thesis using stop [OF v(1, 3)] False by simp
    next
      case True
      have "wp_io (fs_rename fs (src m r) (tgt m r)) (\<lambda>moved. wp_io (?j moved) Q) v"
      proof (rule rename_law [OF gv wf(2)])
        fix w' d' assume w': "later v w'" "isdir w' = isdir v" "cont v (src m r) = Some d'"
          "cont w' = (cont v)(src m r := None, tgt m r \<mapsto> d')"
        then have c: "cont w' = (cont w)(src m r := None, tgt m r \<mapsto> d)" using d v(2) by simp
        note md = merging_place [OF a r mg u d, folded c]
        have "merge_inv m ps (cont w0) (isdir w0) (cont w') (isdir w')"
          using v(3) md(1) w'(2) by (simp add: merge_inv_def)
        then show "wp_io (?j True) Q w'"
          using ok [OF later_trans [OF v(1) w'(1)]] md(2-4) by (simp add: wp)
      next
        fix w' assume w': "later v w'" "isdir w' = isdir v"
          "cont w' = cont v \<or> cont w' = (cont v)(tgt m r := None)"
          "cont v (src m r) = None \<or> src m r = tgt m r \<or> isdir v (tgt m r) \<or>
           parent_dir (tgt m r) \<noteq> [] \<and> \<not> isdir v (parent_dir (tgt m r)) \<or> dead w'"
        have "dead w'" if co: "compatible m ps (cont w0) (isdir w0)"
        proof -
          have "\<not> isdir w0 (tgt m r)" using co r by (simp add: compatible_def)
          from tgt_not_dir [OF assms(1) st r v(3) this] show ?thesis
            using w'(4) d v(2, 4) True apart_places [OF a r] by auto
        qed
        moreover have "cont w' = cont v" using w'(3) gone v(2) by (auto simp: fun_upd_idem)
        ultimately show "wp_io (?j False) Q w'"
          using stop [OF later_trans [OF v(1) w'(1)]] v(3) w'(2) by simp
      qed
      then show ?thesis using True by (simp add: wp)
    qed
  qed
  then show ?thesis by (simp add: place_file_def Let_def wp_bind)
qed

text \<open>The loop: it ends with every file in place, or gives up in a state from which the rollback starts.\<close>

lemma merge_loop_wp:
  assumes "good w0" and st: "merge_start config m ps (cont w0) (isdir w0)"
    and "good w" and "merge_inv m ps (cont w0) (isdir w0) (cont w) (isdir w)"
    and "set rest \<subseteq> set ps" and "distinct rest" and "\<forall>r\<in>set rest. untouched m (cont w0) (cont w) r"
    and "\<forall>r\<in>set ps - set rest. placed m (cont w0) (cont w) r"
    and ok: "\<And>w' out'. later w w' \<Longrightarrow> merge_inv m ps (cont w0) (isdir w0) (cont w') (isdir w') \<Longrightarrow>
      \<forall>r\<in>set ps. placed m (cont w0) (cont w') r \<Longrightarrow> Q (Inr out') w'"
    and stop: "\<And>w' out' res detail. later w w' \<Longrightarrow> merge_inv m ps (cont w0) (isdir w0) (cont w') (isdir w') \<Longrightarrow>
      cb = None \<and> compatible m ps (cont w0) (isdir w0) \<longrightarrow> dead w' \<Longrightarrow> res = Cancelled \<or> res = InstallRolledBack \<Longrightarrow>
      wp_io (abandon fs config m ps out' res detail) Q w'"
  shows "wp_io (merge_loop fs config m ps cb n out rest) Q w"
  using assms(3-10)
proof (induction rest arbitrary: w n out)
  case Nil
  then show ?case using Nil.prems(7) [OF later_refl] by (simp add: wp)
next
  case (Cons r rest)
  have r: "r \<in> set ps" using Cons.prems(3) by simp
  let ?place = "\<lambda>out. do {
           placed \<leftarrow> place_file fs config m ps out r;
           case placed of
             Inl stopped \<Rightarrow> State_Monad.return (Inl stopped)
           | Inr out \<Rightarrow> merge_loop fs config m ps cb (n + 1) out rest }"
  have placing: "wp_io (?place out') Q v"
    if v: "later w v" "merge_inv m ps (cont w0) (isdir w0) (cont v) (isdir v)"
      "untouched m (cont w0) (cont v) r \<and> cont w0 (tgt m r) = None \<or> aside m (cont w0) (cont v) r"
      "\<forall>x\<in>set rest. untouched m (cont w0) (cont v) x" "\<forall>x\<in>set ps - set (r # rest). placed m (cont w0) (cont v) x"
    for v out'
    unfolding wp_bind
  proof (rule place_file_wp [OF assms(1) st r later_good [OF v(1) Cons.prems(1)] v(2, 3)])
    fix w' out'' assume w': "later v w'" "merge_inv m ps (cont w0) (isdir w0) (cont w') (isdir w')"
      "placed m (cont w0) (cont w') r"
      "\<And>x. x \<in> set ps \<Longrightarrow> x \<noteq> r \<Longrightarrow> untouched m (cont w0) (cont v) x \<Longrightarrow> untouched m (cont w0) (cont w') x"
      "\<And>x. x \<in> set ps \<Longrightarrow> x \<noteq> r \<Longrightarrow> placed m (cont w0) (cont v) x \<Longrightarrow> placed m (cont w0) (cont w') x"
    note l = later_trans [OF v(1) w'(1)]
    have "wp_io (merge_loop fs config m ps cb (n + 1) out'' rest) Q w'"
    proof (rule Cons.IH [OF later_good [OF l Cons.prems(1)] w'(2)])
      show "set rest \<subseteq> set ps" "distinct rest" using Cons.prems(3, 4) by auto
      show "\<forall>x\<in>set rest. untouched m (cont w0) (cont w') x" using w'(4) v(4) Cons.prems(3, 4) by auto
      show "\<forall>x\<in>set ps - set rest. placed m (cont w0) (cont w') x"
        using w'(3, 5) v(5) by (metis DiffD1 DiffD2 DiffI set_ConsD)
    qed (use Cons.prems(7, 8) later_trans [OF l] in blast)+
    then show "wp_io (case Inr out'' of Inl stopped \<Rightarrow> State_Monad.return (Inl stopped)
           | Inr out \<Rightarrow> merge_loop fs config m ps cb (n + 1) out rest) Q w'" by simp
  next
    fix w' detail assume w': "later v w'" "merge_inv m ps (cont w0) (isdir w0) (cont w') (isdir w')"
      "compatible m ps (cont w0) (isdir w0) \<longrightarrow> dead w'"
    have "wp_io (abandon fs config m ps out' InstallRolledBack detail) Q w'"
      using Cons.prems(8) [OF later_trans [OF v(1) w'(1)] w'(2)] w'(3) by simp
    then show "wp_io (abandon fs config m ps out' InstallRolledBack detail) (\<lambda>a. wp_io
        (case a of Inl stopped \<Rightarrow> State_Monad.return (Inl stopped)
           | Inr out \<Rightarrow> merge_loop fs config m ps cb (n + 1) out rest) Q) w'"
      by (simp add: abandon_def wp)
  qed
  have "wp_io (set_aside fs config m ps out r)
      (\<lambda>a. wp_io (case a of Inl stopped \<Rightarrow> State_Monad.return (Inl stopped) | Inr out \<Rightarrow> ?place out) Q) w"
  proof (rule set_aside_wp [OF assms(1) st r Cons.prems(1, 2)])
    show "untouched m (cont w0) (cont w) r" using Cons.prems(5) by simp
    fix w' out' assume w': "later w w'" "merge_inv m ps (cont w0) (isdir w0) (cont w') (isdir w')"
      "untouched m (cont w0) (cont w') r \<and> cont w0 (tgt m r) = None \<or> aside m (cont w0) (cont w') r"
      "\<And>x. x \<in> set ps \<Longrightarrow> x \<noteq> r \<Longrightarrow> untouched m (cont w0) (cont w) x \<Longrightarrow> untouched m (cont w0) (cont w') x"
      "\<And>x. x \<in> set ps \<Longrightarrow> x \<noteq> r \<Longrightarrow> placed m (cont w0) (cont w) x \<Longrightarrow> placed m (cont w0) (cont w') x"
    have "\<forall>x\<in>set rest. untouched m (cont w0) (cont w') x"
    proof
      fix x assume x: "x \<in> set rest"
      then have "x \<in> set ps" "x \<noteq> r" using Cons.prems(3, 4) by auto
      then show "untouched m (cont w0) (cont w') x" using w'(4) Cons.prems(5) x by simp
    qed
    moreover have "\<forall>x\<in>set ps - set (r # rest). placed m (cont w0) (cont w') x"
      using w'(5) Cons.prems(6) by simp
    ultimately have "wp_io (?place out') Q w'" by (rule placing [OF w'(1-3)])
    then show "wp_io (case Inr out' of Inl stopped \<Rightarrow> State_Monad.return (Inl stopped) | Inr out \<Rightarrow> ?place out) Q w'"
      by (simp only: sum.case)
  next
    fix w' detail assume w': "later w w'" "merge_inv m ps (cont w0) (isdir w0) (cont w') (isdir w')" "dead w'"
    have "wp_io (abandon fs config m ps out InstallRolledBack detail) Q w'"
      using Cons.prems(8) [OF w'(1, 2)] w'(3) by simp
    then show "wp_io (abandon fs config m ps out InstallRolledBack detail)
      (\<lambda>a. wp_io (case a of Inl stopped \<Rightarrow> State_Monad.return (Inl stopped) | Inr out \<Rightarrow> ?place out) Q) w'"
      by (simp add: abandon_def wp)
  qed
  moreover have "wp_io (abandon fs config m ps out Cancelled ''cancelled; the previous files were restored'') Q w"
    if "cb \<noteq> None"
    using Cons.prems(8) [OF later_refl Cons.prems(2)] that by simp
  ultimately show ?case
    unfolding merge_loop.simps Let_def wp_if wp_bind [of "set_aside fs config m ps out r"]
    by (cases cb) (simp_all add: report_progress_def)
qed

subsection \<open>Rolling back\<close>

text \<open>The backed-up files go back, each to its place.\<close>

lemma restore_all_wp:
  assumes "good w0" and st: "merge_start config m ps (cont w0) (isdir w0)"
    and "good w" and "steady w" and "merge_inv m ps (cont w0) (isdir w0) c (isdir w)"
    and "distinct xs" and "set xs \<subseteq> set ps" and "\<forall>r\<in>set xs. cont w (bak m r) \<noteq> None \<and> cont w0 (tgt m r) \<noteq> None"
    and "\<And>w'. later w w' \<Longrightarrow> \<forall>r\<in>set xs. cont w' (tgt m r) = cont w (bak m r) \<and> cont w' (bak m r) = None \<Longrightarrow>
      \<forall>q. (\<forall>r\<in>set xs. q \<noteq> tgt m r \<and> q \<noteq> bak m r) \<longrightarrow> cont w' q = cont w q \<Longrightarrow> Q True w'"
  shows "wp_io (restore_all fs m xs True) Q w"
  using assms(3-9)
proof (induction xs arbitrary: w)
  case Nil
  then show ?case using later_refl by (simp add: wp)
next
  case (Cons r xs)
  have r: "r \<in> set ps" using Cons.prems(5) by simp
  note wf = start_wf [OF assms(1) st r]
  have a: "apart config m ps" using st by (simp add: merge_start_def)
  have was: "cont w0 (tgt m r) \<noteq> None" and b: "cont w (bak m r) \<noteq> None" using Cons.prems(6) by auto
  have par: "parent_dir (tgt m r) = [] \<or> isdir w0 (parent_dir (tgt m r))"
    using tree [OF assms(1)] was parent_ancestor [OF wf(2)] by blast
  have mv: "wp_io (fs_rename fs (bak m r) (tgt m r)) (\<lambda>ok. wp_io (restore_all fs m xs (if \<not> ok then False else True)) Q) v"
    if v: "later w v" "cont v = cont w" "merge_inv m ps (cont w0) (isdir w0) c (isdir v)" for v
  proof (rule rename_law [OF later_good [OF v(1) Cons.prems(1)] wf(2)])
    fix w' d assume w': "later v w'" "isdir w' = isdir v" "cont v (bak m r) = Some d"
      "cont w' = (cont v)(bak m r := None, tgt m r \<mapsto> d)"
    note l = later_trans [OF v(1) w'(1)]
    have other: "cont w' (bak m x) = cont w (bak m x)" if "x \<noteq> r" for x
      using that w'(4) v(2) apart_places [OF a r] apart_inject [OF a] by simp
    have nr: "x \<noteq> r" if "x \<in> set xs" for x using that Cons.prems(4) by auto
    have here: "cont w' (tgt m r) = cont w (bak m r)" "cont w' (bak m r) = None"
      using w'(3, 4) v(2) apart_places [OF a r] by simp_all
    have "wp_io (restore_all fs m xs True) Q w'"
    proof (rule Cons.IH [OF later_good [OF l Cons.prems(1)] later_steady [OF l Cons.prems(2)]])
      show "merge_inv m ps (cont w0) (isdir w0) c (isdir w')" using v(3) w'(2) by simp
      show "distinct xs" "set xs \<subseteq> set ps" using Cons.prems(4, 5) by auto
      show "\<forall>x\<in>set xs. cont w' (bak m x) \<noteq> None \<and> cont w0 (tgt m x) \<noteq> None"
        using Cons.prems(6) other [OF nr] by simp
      fix u assume u: "later w' u"
        "\<forall>x\<in>set xs. cont u (tgt m x) = cont w' (bak m x) \<and> cont u (bak m x) = None"
        "\<forall>q. (\<forall>x\<in>set xs. q \<noteq> tgt m x \<and> q \<noteq> bak m x) \<longrightarrow> cont u q = cont w' q"
      have "cont u (tgt m r) = cont w' (tgt m r)" "cont u (bak m r) = cont w' (bak m r)"
        using u(3) nr apart_places [OF a r] apart_inject [OF a] Cons.prems(5)
          apart_places(2) [OF a] by (metis list.set_intros(2) subsetD)+
      then have "\<forall>x\<in>set (r # xs). cont u (tgt m x) = cont w (bak m x) \<and> cont u (bak m x) = None"
        using here u(2) other nr by simp
      moreover have "\<forall>q. (\<forall>x\<in>set (r # xs). q \<noteq> tgt m x \<and> q \<noteq> bak m x) \<longrightarrow> cont u q = cont w q"
        using u(3) w'(4) v(2) by simp
      ultimately show "Q True u" using Cons.prems(7) [OF later_trans [OF l u(1)]] by blast
    qed
    then show "wp_io (restore_all fs m xs (if \<not> True then False else True)) Q w'" by simp
  next
    fix w' assume w': "later v w'" "cont v (bak m r) = None \<or> bak m r = tgt m r \<or> isdir v (tgt m r) \<or>
      parent_dir (tgt m r) \<noteq> [] \<and> \<not> isdir v (parent_dir (tgt m r)) \<or> dead w'"
    have "\<not> isdir w0 (tgt m r)" using was file_not_dir [OF assms(1)] by auto
    then have "\<not> isdir v (tgt m r)" using tgt_not_dir [OF assms(1) st r v(3)] by simp
    moreover have "parent_dir (tgt m r) = [] \<or> isdir v (parent_dir (tgt m r))"
      using par v(3) by (auto simp: merge_inv_def)
    moreover have "\<not> dead w'"
      using later_steady [OF later_trans [OF v(1) w'(1)] Cons.prems(2)] steady_alive by blast
    ultimately show "wp_io (restore_all fs m xs (if \<not> False then False else True)) Q w'"
      using w'(2) v(2) b apart_places [OF a r] by auto
  qed
  have "wp_io (if cfw_parentOf (tgt m r) \<noteq> [] then fs_makeDirectories fs (cfw_parentOf (tgt m r))
      else State_Monad.return True)
    (\<lambda>_. wp_io (fs_rename fs (bak m r) (tgt m r))
      (\<lambda>ok. wp_io (restore_all fs m xs (if \<not> ok then False else True)) Q)) w"
  proof (cases "parent_dir (tgt m r) = []")
    case True
    then show ?thesis using mv [OF later_refl refl Cons.prems(3)] by (simp add: parentOf_wf [OF wf(2)] wp)
  next
    case False
    then have "wf_path (parent_dir (tgt m r))" using wf_path_parts(3) [OF wf(2)] by blast
    then have "wp_io (fs_makeDirectories fs (parent_dir (tgt m r)))
      (\<lambda>_. wp_io (fs_rename fs (bak m r) (tgt m r))
        (\<lambda>ok. wp_io (restore_all fs m xs (if \<not> ok then False else True)) Q)) w"
    proof (rule mkdirs_law [OF Cons.prems(1)])
      fix v b assume v: "later w v" "cont v = cont w" "\<forall>q. isdir w q \<longrightarrow> isdir v q"
        "\<forall>q. isdir v q \<longrightarrow> isdir w q \<or> q = parent_dir (tgt m r) \<or> ancestor q (parent_dir (tgt m r))"
      have up: "ancestor q (tgt m r)" if "q = parent_dir (tgt m r) \<or> ancestor q (parent_dir (tgt m r))" for q
        using that parent_ancestor [OF wf(2)] ancestor_trans by blast
      have "merge_inv m ps (cont w0) (isdir w0) c (isdir v)"
        using Cons.prems(3) v(3, 4) up r unfolding merge_inv_def by (metis (no_types, lifting))
      then show "wp_io (fs_rename fs (bak m r) (tgt m r))
        (\<lambda>ok. wp_io (restore_all fs m xs (if \<not> ok then False else True)) Q) v" by (rule mv [OF v(1, 2)])
    qed
    then show ?thesis using False by (simp add: parentOf_wf [OF wf(2)])
  qed
  then show ?case by (simp add: Let_def wp_bind)
qed

text \<open>Without power loss the files the merge created are removed.\<close>

lemma remove_created_wp:
  assumes a: "apart config m ps" and "set planned \<subseteq> set ps" and "good w" and "steady w"
    and "\<And>w'. later w w' \<Longrightarrow>
      \<forall>q. (\<forall>r\<in>set planned. q = tgt m r \<longrightarrow> r \<in> set xs \<or> cont w (src m r) \<noteq> None) \<longrightarrow> cont w' q = cont w q \<Longrightarrow>
      \<forall>r\<in>set planned. r \<notin> set xs \<longrightarrow> cont w (src m r) = None \<longrightarrow> cont w' (tgt m r) = None \<Longrightarrow> Q () w'"
  shows "wp_io (forM planned (remove_created fs m xs)) Q w"
  using assms(2-5)
proof (induction planned arbitrary: w)
  case Nil
  then show ?case using later_refl by (simp add: wp)
next
  case (Cons r planned)
  have r: "r \<in> set ps" using Cons.prems(1) by simp
  have step: "wp_io (forM planned (remove_created fs m xs)) Q v"
    if v: "later w v" "cont v = cont w \<and> (r \<in> set xs \<or> cont w (src m r) \<noteq> None) \<or>
      cont v = (cont w)(tgt m r := None) \<and> r \<notin> set xs \<and> cont w (src m r) = None" for v
  proof (rule Cons.IH)
    show "set planned \<subseteq> set ps" "good v" "steady v"
      using Cons.prems(1) later_good [OF v(1) Cons.prems(2)] later_steady [OF v(1) Cons.prems(3)] by auto
    have s: "cont v (src m x) = cont w (src m x)" for x using v(2) apart_places [OF a r] by auto
    fix w' assume w': "later v w'"
      "\<forall>q. (\<forall>x\<in>set planned. q = tgt m x \<longrightarrow> x \<in> set xs \<or> cont v (src m x) \<noteq> None) \<longrightarrow> cont w' q = cont v q"
      "\<forall>x\<in>set planned. x \<notin> set xs \<longrightarrow> cont v (src m x) = None \<longrightarrow> cont w' (tgt m x) = None"
    show "Q () w'"
    proof (rule Cons.prems(4) [OF later_trans [OF v(1) w'(1)]])
      show "\<forall>q. (\<forall>x\<in>set (r # planned). q = tgt m x \<longrightarrow> x \<in> set xs \<or> cont w (src m x) \<noteq> None) \<longrightarrow>
          cont w' q = cont w q"
      proof (intro allI impI)
        fix q assume q: "\<forall>x\<in>set (r # planned). q = tgt m x \<longrightarrow> x \<in> set xs \<or> cont w (src m x) \<noteq> None"
        then have "cont w' q = cont v q" using w'(2) s by simp
        moreover have "cont v q = cont w q" using v(2) q by auto
        ultimately show "cont w' q = cont w q" by simp
      qed
      show "\<forall>x\<in>set (r # planned). x \<notin> set xs \<longrightarrow> cont w (src m x) = None \<longrightarrow> cont w' (tgt m x) = None"
      proof (intro ballI impI)
        fix x assume x: "x \<in> set (r # planned)" "x \<notin> set xs" "cont w (src m x) = None"
        show "cont w' (tgt m x) = None"
        proof (cases "x \<in> set planned")
          case True
          then show ?thesis using w'(3) x s by simp
        next
          case False
          then have "x = r" using x(1) by simp
          moreover have "cont w' (tgt m r) = cont v (tgt m r)"
            using w'(2) False \<open>x = r\<close> apart_inject(1) [OF a] by metis
          ultimately show ?thesis using v(2) x(2, 3) by auto
        qed
      qed
    qed
  qed
  have "wp_io (remove_created fs m xs r) (\<lambda>_. wp_io (forM planned (remove_created fs m xs)) Q) w"
  proof (cases "r \<in> set xs \<or> cont w (src m r) \<noteq> None")
    case True
    then show ?thesis using step [OF later_refl] by (auto simp: remove_created_def wp exists_law)
  next
    case False
    have "wp_io (fs_remove fs (tgt m r)) (\<lambda>_. wp_io (forM planned (remove_created fs m xs)) Q) w"
    proof (rule remove_law [OF Cons.prems(2)])
      fix v b assume v: "later w v" "cont v = (cont w)(tgt m r := None) \<or> dead v \<and> cont v = cont w"
      then have "cont v = (cont w)(tgt m r := None)"
        using later_steady [OF v(1) Cons.prems(3)] steady_alive by blast
      then show "wp_io (forM planned (remove_created fs m xs)) Q v" using step [OF v(1)] False by blast
    qed
    then show ?thesis using False by (simp add: remove_created_def wp exists_law)
  qed
  then show ?case by (simp add: wp)
qed

text \<open>Operations below the staging root leave the rest of the card alone.\<close>

definition inside :: "CfwInstallConfig \<Rightarrow> 'w \<Rightarrow> 'w \<Rightarrow> bool" where
  "inside config w w' =
     (later w w' \<and> (\<forall>q. \<not> area config q \<longrightarrow> cont w' q = cont w q) \<and>
      (\<forall>q. cont w' q = cont w q \<or> cont w' q = None))"

lemma inside_trans: "inside config u v \<Longrightarrow> inside config v w \<Longrightarrow> inside config u w"
  unfolding inside_def by (metis later_trans)

lemma inside_ops:
  assumes "good w"
  shows "area config p \<Longrightarrow> wp_io (fs_remove fs p) (\<lambda>_. inside config w) w"
    and "wf_path dir \<Longrightarrow> area config dir \<Longrightarrow> wp_io (fs_removeTree fs dir) (\<lambda>_. inside config w) w"
proof -
  show "wp_io (fs_remove fs p) (\<lambda>_. inside config w) w" if "area config p"
    by (rule remove_law [OF assms]) (use that in \<open>auto simp: inside_def split: if_splits\<close>)
  show "wp_io (fs_removeTree fs dir) (\<lambda>_. inside config w) w" if "wf_path dir" "area config dir"
    by (rule rmtree_law [OF assms that(1)]) (use that(2) area_below in \<open>auto simp: inside_def\<close>)
qed

lemma inside_seq:
  assumes "wp_io p (\<lambda>_. inside config w) w" and "good w"
    and "\<And>a w'. good w' \<Longrightarrow> wp_io (k a) (\<lambda>_. inside config w') w'"
  shows "wp_io (State_Monad.bind p k) (\<lambda>_. inside config w) w"
  unfolding wp using assms(1)
proof (rule wp_mono)
  fix a w' assume l: "inside config w w'"
  then have "wp_io (k a) (\<lambda>_. inside config w') w'" using assms(2, 3) later_good by (auto simp: inside_def)
  then show "wp_io (k a) (\<lambda>_. inside config w) w'"
    by (rule wp_mono) (rule inside_trans [OF l])
qed

lemma inside_return: "wp_io (State_Monad.return a) (\<lambda>_. inside config w) w"
  by (simp add: wp inside_def later_refl)

lemma inside_discardStaging:
  assumes "layout_ok config m" and "good w"
  shows "wp_io (discardStaging fs config (itemId m)) (\<lambda>_. inside config w) w"
proof -
  have "wf_path (stagingFor config (itemId m))"
    using layout_dirs(1) [OF assms(1)] assms(1) by (simp add: layout_ok_def)
  then show ?thesis unfolding discardStaging_def
    by (intro inside_seq inside_ops inside_return admin_area assms)
qed

lemma inside_commit:
  assumes "layout_ok config m" and "good w"
  shows "wp_io (cfw_commit fs config m) (\<lambda>_. inside config w) w"
  unfolding cfw_commit_def using layout_dirs(1, 2) [OF assms(1)]
  by (intro inside_seq inside_ops inside_return admin_area place_area [OF assms(1)] assms)

text \<open>What is in the backup directory, and what that says about a file.\<close>

lemma backed_up:
  assumes "good w0" and st: "merge_start config m ps (cont w0) (isdir w0)" and mg: "merging m ps (cont w0) c"
  shows "{r. r \<noteq> [] \<and> c (backupDir m @ CHR ''/'' # r) \<noteq> None} = {r \<in> set ps. c (bak m r) \<noteq> None}"
    and "r \<in> set ps \<Longrightarrow> c (bak m r) \<noteq> None \<Longrightarrow> c (bak m r) = cont w0 (tgt m r)"
    and "r \<in> set ps \<Longrightarrow> c (bak m r) = None \<Longrightarrow>
      c (tgt m r) = cont w0 (tgt m r) \<and> c (src m r) \<noteq> None \<or> c (src m r) = None \<and> cont w0 (tgt m r) = None"
proof -
  have a: "apart config m ps" and l: "layout_ok config m" using st by (auto simp: merge_start_def apart_def)
  have "r \<in> set ps" if "c (bak m r) \<noteq> None" for r
  proof (rule ccontr)
    assume "r \<notin> set ps"
    then have "\<forall>x\<in>set ps. bak m r \<noteq> tgt m x \<and> bak m r \<noteq> src m x \<and> bak m r \<noteq> bak m x"
      using apart_places [OF a] apart_inject [OF a] by metis
    then have "c (bak m r) = cont w0 (bak m r)" using mg by (simp add: merging_def)
    moreover have "cont w0 (bak m r) = None" using st bak_eq [OF l] by (auto simp: merge_start_def)
    ultimately show False using that by simp
  qed
  moreover have "r \<noteq> []" if "r \<in> set ps" for r
    using start_wf(1, 4) [OF assms(1) st that] by (auto simp: src_eq wf_path_append name_ok_def)
  ultimately show "{r. r \<noteq> [] \<and> c (backupDir m @ CHR ''/'' # r) \<noteq> None} = {r \<in> set ps. c (bak m r) \<noteq> None}"
    unfolding bak_eq [OF l] by auto
  have "cont w0 (src m r) \<noteq> None" if "r \<in> set ps" for r using st that by (simp add: merge_start_def)
  then show "r \<in> set ps \<Longrightarrow> c (bak m r) \<noteq> None \<Longrightarrow> c (bak m r) = cont w0 (tgt m r)"
    "r \<in> set ps \<Longrightarrow> c (bak m r) = None \<Longrightarrow>
      c (tgt m r) = cont w0 (tgt m r) \<and> c (src m r) \<noteq> None \<or> c (src m r) = None \<and> cont w0 (tgt m r) = None"
    using mg by (auto simp: merging_def untouched_def aside_def placed_def)
qed

lemma rollBack_wp:
  assumes "good w0" and st: "merge_start config m ps (cont w0) (isdir w0)"
    and g: "good w" and s: "steady w" and inv: "merge_inv m ps (cont w0) (isdir w0) (cont w) (isdir w)"
    and planned: "set planned = set ps"
    and Q: "\<And>w'. later w w' \<Longrightarrow> \<forall>q. \<not> area config q \<longrightarrow> cont w' q = cont w0 q \<Longrightarrow>
      cont w' (markerPath config) = None \<Longrightarrow> Q True w'"
  shows "wp_io (cfw_rollBack fs config m planned) Q w"
proof -
  have a: "apart config m ps" and l: "layout_ok config m" using st by (auto simp: merge_start_def apart_def)
  have mg: "merging m ps (cont w0) (cont w)" using inv by (simp add: merge_inv_def)
  note bk = backed_up [OF assms(1) st mg]
  let ?tail = "\<lambda>c. do {
     _ \<leftarrow> fs_removeTree fs (backupDir m);
     _ \<leftarrow> fs_removeTree fs (stagingDir m);
     _ \<leftarrow> fs_remove fs (archiveFor config (itemId m));
     _ \<leftarrow> fs_remove fs (mergeFileListPath config);
     _ \<leftarrow> fs_remove fs (markerPath config);
     State_Monad.return c }"
  have tail: "wp_io (?tail True) Q v" if v: "later w v" "\<forall>q. \<not> area config q \<longrightarrow> cont v q = cont w0 q" for v
  proof -
    let ?pre = "do {
     _ \<leftarrow> fs_removeTree fs (backupDir m);
     _ \<leftarrow> fs_removeTree fs (stagingDir m);
     _ \<leftarrow> fs_remove fs (archiveFor config (itemId m));
     fs_remove fs (mergeFileListPath config) }"
    have gv: "good v" using later_good [OF v(1) g] .
    have "wp_io ?pre (\<lambda>_. inside config v) v"
      using layout_dirs(1, 2) [OF l]
      by (intro inside_seq inside_ops inside_return admin_area place_area [OF l] gv)
    then have "wp_io ?pre (\<lambda>_ u. wp_io (fs_remove fs (markerPath config)) (\<lambda>_. Q True) u) v"
    proof (rule wp_mono)
      fix u assume u: "inside config v u"
      then have lu: "later w u" using v(1) later_trans by (auto simp: inside_def)
      show "wp_io (fs_remove fs (markerPath config)) (\<lambda>_. Q True) u"
      proof (rule remove_law [OF later_good [OF lu g]])
        fix w' b assume w': "later u w'" "cont w' = (cont u)(markerPath config := None) \<or> dead w' \<and> cont w' = cont u"
        have lw: "later w w'" using later_trans [OF lu w'(1)] .
        then have c: "cont w' = (cont u)(markerPath config := None)"
          using w'(2) later_steady [OF lw s] steady_alive by blast
        show "Q True w'"
          by (rule Q [OF lw]) (use c u v(2) admin_area(1) in \<open>auto simp: inside_def\<close>)
      qed
    qed
    then show ?thesis by (simp add: wp)
  qed
  show ?thesis
    unfolding cfw_rollBack_def wp_bind [of "fs_listFilesRecursive fs (backupDir m)"]
  proof (rule list_law [OF g wf_path_last(3) [OF layout_dirs(2) [OF l]]])
    fix xs assume "distinct xs" and "set xs = {r. r \<noteq> [] \<and> cont w (backupDir m @ CHR ''/'' # r) \<noteq> None}"
    then have xs: "set xs = {r \<in> set ps. cont w (bak m r) \<noteq> None}" using bk(1) by simp
    have "wp_io (restore_all fs m xs True) (\<lambda>complete. wp_io (do {
        _ \<leftarrow> forM planned (remove_created fs m xs); ?tail complete }) Q) w"
    proof (rule restore_all_wp [OF assms(1) st g s inv \<open>distinct xs\<close>])
      show "set xs \<subseteq> set ps" using xs by blast
      show "\<forall>r\<in>set xs. cont w (bak m r) \<noteq> None \<and> cont w0 (tgt m r) \<noteq> None" using xs bk(2) by force
      fix v assume v: "later w v"
        "\<forall>r\<in>set xs. cont v (tgt m r) = cont w (bak m r) \<and> cont v (bak m r) = None"
        "\<forall>q. (\<forall>r\<in>set xs. q \<noteq> tgt m r \<and> q \<noteq> bak m r) \<longrightarrow> cont v q = cont w q"
      have src_same: "cont v (src m r) = cont w (src m r)" for r
        using v(3) xs apart_places [OF a] by (metis (no_types, lifting) mem_Collect_eq)
      show "wp_io (do { _ \<leftarrow> forM planned (remove_created fs m xs); ?tail True }) Q v"
        unfolding wp_bind [of "forM planned (remove_created fs m xs)"]
      proof (rule remove_created_wp [OF a])
        show "set planned \<subseteq> set ps" "good v" "steady v"
          using planned later_good [OF v(1) g] later_steady [OF v(1) s] by auto
        fix u assume u: "later v u"
          "\<forall>q. (\<forall>r\<in>set planned. q = tgt m r \<longrightarrow> r \<in> set xs \<or> cont v (src m r) \<noteq> None) \<longrightarrow> cont u q = cont v q"
          "\<forall>r\<in>set planned. r \<notin> set xs \<longrightarrow> cont v (src m r) = None \<longrightarrow> cont u (tgt m r) = None"
        have "cont u q = cont w0 q" if q: "\<not> area config q" for q
        proof (cases "\<exists>r\<in>set ps. q = tgt m r")
          case True
          then obtain r where r: "r \<in> set ps" "q = tgt m r" by blast
          have only: "x = r" if "q = tgt m x" for x using that r apart_inject(1) [OF a] by simp
          show ?thesis
          proof (cases "r \<in> set xs")
            case True
            then have "cont u q = cont v q" using u(2) only by blast
            also have "\<dots> = cont w0 q" using v(2) True r bk(2) xs by simp
            finally show ?thesis .
          next
            case False
            then have "cont w (bak m r) = None" using xs r by simp
            then have "cont w (tgt m r) = cont w0 (tgt m r) \<and> cont w (src m r) \<noteq> None \<or>
                cont w (src m r) = None \<and> cont w0 (tgt m r) = None" using bk(3) r(1) by simp
            moreover have "cont v q = cont w q"
              using v(3) r False only apart_places(2) [OF a r(1)] by (metis apart_inject(1) [OF a])
            ultimately show ?thesis
              using u(2, 3) r False only src_same planned by metis
          qed
        next
          case False
          moreover have "q \<noteq> src m x \<and> q \<noteq> bak m x" for x using q place_area(1, 2) [OF l] by blast
          ultimately have "cont w q = cont w0 q" "cont v q = cont w q" "cont u q = cont v q"
            using mg v(3) u(2) xs planned by (auto simp: merging_def)
          then show ?thesis by simp
        qed
        then show "wp_io (?tail True) Q u" using tail later_trans [OF v(1) u(1)] by blast
      qed
    qed
    then show "wp_io (do { complete \<leftarrow> restore_all fs m xs True;
        _ \<leftarrow> forM planned (remove_created fs m xs); ?tail complete }) Q w"
      unfolding wp_bind [of "restore_all fs m xs True"] .
  qed
qed

end

end
