(* ===== verification/Cfw_Recovery.thy ===== *)
theory Cfw_Recovery
  imports Cfw_Merge
begin

text \<open>
  The merge as a whole, and the recovery after a power cut.  The facts are proved over the contract of the
  file store and then read off for the SD card.
\<close>

section \<open>Starting a merge\<close>

definition marker_for :: "CfwInstallConfig \<Rightarrow> CatalogItem \<Rightarrow> int \<Rightarrow> string \<Rightarrow> MergeMarker" where
  "marker_for config item nowUnix dest =
     \<lparr>mm_schemaVersion = kSupportedMergeMarkerSchema, mm_createdAtUnix = nowUnix, itemId = item_id item,
      itemName = item_name item, stagingDir = stagingFor config (item_id item), destinationRoot = dest,
      backupDir = backupFor config (item_id item)\<rparr>"

definition to_write :: "PreserveRules \<Rightarrow> MergeMarker \<Rightarrow> contents \<Rightarrow> string list \<Rightarrow> string list" where
  "to_write preserve m c staged = filter (\<lambda>r. \<not> (preserves preserve r \<and> c (tgt m r) \<noteq> None)) staged"

text \<open>The files in which the installer records what it is doing.\<close>

definition admin :: "CfwInstallConfig \<Rightarrow> string list" where
  "admin config =
     [markerPath config, markerPath config @ ''.tmp'', mergeFileListPath config, mergeFileListPath config @ ''.tmp'']"

text \<open>What must hold when the merge begins: no other merge is in flight, the backup directory is gone, and no
  file of the package goes into the installer's own directory.\<close>

definition merge_ready :: "CfwInstallConfig \<Rightarrow> MergeMarker \<Rightarrow> contents \<Rightarrow> (string \<Rightarrow> bool) \<Rightarrow> bool" where
  "merge_ready config m c d =
     (layout_ok config m \<and> c (markerPath config) = None \<and>
      (\<forall>q. q = backupDir m \<or> ancestor (backupDir m) q \<longrightarrow> c q = None \<and> \<not> d q) \<and>
      (\<forall>r. c (src m r) \<noteq> None \<longrightarrow> \<not> area config (tgt m r)))"

definition recorded :: "CfwInstallConfig \<Rightarrow> string list \<Rightarrow> string \<Rightarrow> contents \<Rightarrow> contents" where
  "recorded config ps doc c =
     c(mergeFileListPath config @ ''.tmp'' := None, mergeFileListPath config \<mapsto> planned_text ps,
       markerPath config @ ''.tmp'' := None, markerPath config \<mapsto> doc)"

lemma admin_names:
  assumes "p \<in> set (admin config)"
  obtains n where "p = stagingRoot config @ CHR ''/'' # n" "name_ok n" "\<forall>i. n \<noteq> i @ ''.backup''"
proof -
  have "n \<noteq> i @ ''.backup''" if "rev n = x # y # rest" "x \<noteq> CHR ''p'' \<or> y \<noteq> CHR ''u''" for n i x y rest
    using that by auto
  then have "''merge.json'' \<noteq> i @ ''.backup''" "''merge.json.tmp'' \<noteq> i @ ''.backup''"
    "''merge.files'' \<noteq> i @ ''.backup''" "''merge.files.tmp'' \<noteq> i @ ''.backup''" for i
    by simp_all
  moreover have "name_ok ''merge.json''" "name_ok ''merge.json.tmp''" "name_ok ''merge.files''"
    "name_ok ''merge.files.tmp''"
    by (simp_all add: name_ok_def)
  ultimately show ?thesis
    using assms that unfolding admin_def markerPath_def mergeFileListPath_def by fastforce
qed

lemma admin_apart:
  assumes l: "layout_ok config m" and p: "p \<in> set (admin config)"
  shows "area config p" "p \<noteq> src m r" "p \<noteq> bak m r" "p \<noteq> backupDir m" "\<not> ancestor (backupDir m) p" "wf_path p"
    "parent_dir p = stagingRoot config"
proof -
  from p obtain n where n: "p = stagingRoot config @ CHR ''/'' # n" "name_ok n" "\<forall>i. n \<noteq> i @ ''.backup''"
    by (rule admin_names)
  have free: "CHR ''/'' \<notin> set n" using name_ok_free [OF n(2)] .
  have slash: "stagingRoot config @ CHR ''/'' # i @ CHR ''/'' # s \<noteq> p" for i s using free n(1) by auto
  show "area config p" using n(1) by (auto simp: area_def)
  show "wf_path p" using l n free by (simp add: layout_ok_def wf_path_snoc)
  show "parent_dir p = stagingRoot config" using n(1) free by simp
  have "src m r = stagingRoot config @ CHR ''/'' # itemId m @ CHR ''/'' # r"
    using src_eq [OF l, of r] layout_dirs(4) [OF l] by simp
  then show "p \<noteq> src m r" using slash by metis
  have "bak m r = stagingRoot config @ CHR ''/'' # (itemId m @ ''.backup'') @ CHR ''/'' # r"
    using bak_eq [OF l, of r] layout_dirs(5) [OF l] by simp
  then show "p \<noteq> bak m r" using slash by metis
  show "p \<noteq> backupDir m" using n(1, 3) layout_dirs(5) [OF l] by auto
  show "\<not> ancestor (backupDir m) p"
  proof
    assume "ancestor (backupDir m) p"
    then obtain s where "p = backupDir m @ CHR ''/'' # s" by (auto simp: ancestor_def)
    then have "p = stagingRoot config @ CHR ''/'' # (itemId m @ ''.backup'') @ CHR ''/'' # s"
      unfolding layout_dirs(5) [OF l] by simp
    then show False using slash by metis
  qed
qed

lemma recorded_elsewhere: "q \<notin> set (admin config) \<Longrightarrow> recorded config ps doc c q = c q"
  by (simp add: recorded_def admin_def)

lemma recorded_admin:
  "recorded config ps doc c (markerPath config) = Some doc"
  "recorded config ps doc c (mergeFileListPath config) = Some (planned_text ps)"
  by (simp_all add: recorded_def markerPath_def mergeFileListPath_def)

lemma recorded_outside: "layout_ok config m \<Longrightarrow> \<not> area config q \<Longrightarrow> recorded config ps doc c q = c q"
  using admin_apart(1) [of config m q] by (auto intro: recorded_elsewhere)

lemma recorded_places:
  assumes "layout_ok config m"
  shows "recorded config ps doc c (src m r) = c (src m r)" "recorded config ps doc c (bak m r) = c (bak m r)"
    and "q = backupDir m \<or> ancestor (backupDir m) q \<Longrightarrow> recorded config ps doc c q = c q"
  using admin_apart [OF assms] by (metis recorded_elsewhere)+

lemma merge_start_recorded:
  assumes "merge_ready config m c d" and "distinct ps" and "\<forall>r\<in>set ps. c (src m r) \<noteq> None"
  shows "merge_start config m ps (recorded config qs doc c) d"
proof -
  have l: "layout_ok config m" using assms(1) by (simp add: merge_ready_def)
  show ?thesis
    using assms recorded_places [OF l] by (auto simp: merge_start_def merge_ready_def apart_def)
qed

text \<open>The list of planned files is read back as it was written.\<close>

lemma plan_lines_text:
  assumes "\<forall>r\<in>set ps. r \<noteq> [] \<and> CHR 0x0A \<notin> set r"
  shows "plan_lines (planned_text ps) = ps"
  using assms
proof (induction ps)
  case Nil
  then show ?case by (simp add: plan_lines_def planned_text_def)
next
  case (Cons r ps)
  have "planned_text (r # ps) = r @ CHR 0x0A # planned_text ps" by (simp add: planned_text_def)
  then show ?case
    using Cons by (simp add: plan_lines_def split_on_append_sep)
qed

lemma set_join_with: "set (join_with sep ps) \<subseteq> insert sep (\<Union> (set ` set ps))"
  by (induction sep ps rule: join_with.induct) auto

lemma name_ok_split:
  assumes "list_all name_ok (split_on CHR ''/'' r)"
  shows "r \<noteq> [] \<and> CHR 0x0A \<notin> set r"
proof -
  have "CHR 0x0A \<notin> set p" if "p \<in> set (split_on CHR ''/'' r)" for p
    using assms that by (auto simp: list_all_iff name_ok_def)
  moreover have "set r \<subseteq> insert CHR ''/'' (\<Union> (set ` set (split_on CHR ''/'' r)))"
    using set_join_with [of "CHR ''/''" "split_on CHR ''/'' r"] by simp
  ultimately show ?thesis using assms by (auto simp: name_ok_def)
qed

text \<open>What a merge should achieve outside the installer's directory.\<close>

definition unchanged_outside :: "CfwInstallConfig \<Rightarrow> contents \<Rightarrow> contents \<Rightarrow> bool" where
  "unchanged_outside config c c' = (\<forall>q. \<not> area config q \<longrightarrow> c' q = c q)"

definition merged_outside :: "CfwInstallConfig \<Rightarrow> MergeMarker \<Rightarrow> PreserveRules \<Rightarrow> contents \<Rightarrow> contents \<Rightarrow> bool" where
  "merged_outside config m preserve c c' =
     ((\<forall>r. c (src m r) \<noteq> None \<longrightarrow>
        c' (tgt m r) = (if preserves preserve r \<and> c (tgt m r) \<noteq> None then c (tgt m r) else c (src m r))) \<and>
      (\<forall>q. \<not> area config q \<and> (\<forall>r. c (src m r) \<noteq> None \<longrightarrow> q \<noteq> tgt m r) \<longrightarrow> c' q = c q))"

definition unobstructed :: "MergeMarker \<Rightarrow> contents \<Rightarrow> (string \<Rightarrow> bool) \<Rightarrow> bool" where
  "unobstructed m c d =
     (\<forall>r. c (src m r) \<noteq> None \<longrightarrow> \<not> d (tgt m r) \<and> (\<forall>q. ancestor q (tgt m r) \<longrightarrow> c q = None))"

lemma unobstructed_compatible:
  assumes "merge_ready config m c d" and "unobstructed m c d" and "\<forall>r\<in>set ps. c (src m r) \<noteq> None"
  shows "compatible m ps (recorded config qs doc c) d"
proof -
  have l: "layout_ok config m" using assms(1) by (simp add: merge_ready_def)
  have "recorded config qs doc c q = None" if r: "r \<in> set ps" and q: "ancestor q (tgt m r)" for q r
  proof -
    have "\<not> area config (tgt m r)" using assms(1, 3) r by (auto simp: merge_ready_def)
    then have "\<not> area config q" using area_below [OF _ q] by blast
    moreover have "c q = None" using assms(2, 3) r q unfolding unobstructed_def by blast
    ultimately show ?thesis using recorded_outside [OF l] by simp
  qed
  then show ?thesis using assms(2, 3) by (auto simp: compatible_def unobstructed_def)
qed

text \<open>What recovery achieves: every file that was there is there again; where nothing was, nothing is, or a
  file of the package remains.\<close>

definition originals_back :: "CfwInstallConfig \<Rightarrow> MergeMarker \<Rightarrow> contents \<Rightarrow> contents \<Rightarrow> bool" where
  "originals_back config m c c' =
     (\<forall>q. \<not> area config q \<longrightarrow>
        c' q = c q \<or> c q = None \<and> (\<exists>r. q = tgt m r \<and> c (src m r) \<noteq> None \<and> c' q = c (src m r)))"

definition plan_size :: "PreserveRules \<Rightarrow> MergeMarker \<Rightarrow> contents \<Rightarrow> nat" where
  "plan_size preserve m c =
     (\<Sum>r\<in>{r. c (src m r) \<noteq> None \<and> \<not> (preserves preserve r \<and> c (tgt m r) \<noteq> None)}. length r + 1)"

lemma planned_text_length: "distinct ps \<Longrightarrow> length (planned_text ps) = (\<Sum>r\<in>set ps. length r + 1)"
  by (simp add: planned_text_def length_concat comp_def sum.distinct_set_conv_list)

section \<open>The whole merge over the contract\<close>

context file_store
begin

lemma plan_merge_wp:
  assumes "\<And>k. Q (acc @ filter (\<lambda>r. \<not> (preserves preserve r \<and> cont w (cfw_join dest r) \<noteq> None)) staged, k) w"
  shows "wp_io (plan_merge fs preserve dest acc kept staged) Q w"
  using assms
proof (induction staged arbitrary: acc kept)
  case (Cons r staged)
  then show ?case by (auto simp: wp exists_law)
qed (simp add: wp)

lemma record_wp:
  assumes good: "good w" and l: "layout_ok config m" and p: "p \<in> set (admin config)" and "p @ ''.tmp'' \<in> set (admin config)"
    and ok: "\<And>w'. later w w' \<Longrightarrow> isdir w' = isdir w \<Longrightarrow> cont w' = (cont w)(p @ ''.tmp'' := None, p \<mapsto> data) \<Longrightarrow> Q True w'"
    and no: "\<And>w'. later w w' \<Longrightarrow> \<forall>q. q \<noteq> p \<longrightarrow> q \<noteq> p @ ''.tmp'' \<longrightarrow> cont w' q = cont w q \<Longrightarrow>
      cont w' p = cont w p \<or> cont w' p = None \<Longrightarrow>
      (\<exists>a\<in>set (admin config). isdir w a) \<or> \<not> isdir w (stagingRoot config) \<or> dead w' \<Longrightarrow> Q False w'"
  shows "wp_io (fs_writeAtomic fs p data) Q w"
proof (rule write_law [OF good admin_apart(6) [OF l p]])
  fix w' assume w': "later w w'" "\<forall>q. q \<noteq> p \<longrightarrow> q \<noteq> p @ ''.tmp'' \<longrightarrow> cont w' q = cont w q"
    "cont w' p = cont w p \<or> cont w' p = None"
    "isdir w p \<or> isdir w (p @ ''.tmp'') \<or> parent_dir p \<noteq> [] \<and> \<not> isdir w (parent_dir p) \<or> dead w'"
  show "Q False w'"
    using no [OF w'(1-3)] w'(4) p assms(4) admin_apart(7) [OF l p] by auto
qed (rule ok)

text \<open>Once the marker is on the card, either everything ends in place and committed, or the merge is
  abandoned in the middle.\<close>

lemma run_merge_wp:
  assumes good0: "good w0" and st: "merge_start config m ps (cont w0) (isdir w0)"
    and late: "\<And>w'. later w0 w' \<Longrightarrow> merge_inv m ps (cont w0) (isdir w0) (cont w') (isdir w') \<Longrightarrow>
      cb = None \<and> compatible m ps (cont w0) (isdir w0) \<longrightarrow> dead w' \<Longrightarrow>
      wp_io (cfw_rollBack fs config m ps) (\<lambda>restored u. \<forall>out.
        io_result out \<noteq> InstallInstalled \<and> (restored \<longrightarrow> io_result out \<noteq> MergeFailed) \<longrightarrow> Q out u) w'"
    and ok: "\<And>w' w'' out. later w0 w'' \<Longrightarrow> merging m ps (cont w0) (cont w') \<Longrightarrow>
      \<forall>r\<in>set ps. placed m (cont w0) (cont w') r \<Longrightarrow> inside config w' w'' \<Longrightarrow>
      io_result out = InstallInstalled \<Longrightarrow> Q out w''"
  shows "wp_io (run_merge fs config item m ps out cb) Q w0"
proof -
  have l: "layout_ok config m" using st by (simp add: merge_start_def apart_def)
  have no_backup: "\<forall>r\<in>set ps. cont w0 (bak m r) = None"
    using st bak_eq [OF l] by (auto simp: merge_start_def)
  have inv0: "merge_inv m ps (cont w0) (isdir w0) (cont w0) (isdir w0)"
    using merging_start [OF no_backup] by (simp add: merge_inv_def)
  let ?k = "\<lambda>merged. case merged of
       Inl stopped \<Rightarrow> State_Monad.return stopped
     | Inr out \<Rightarrow> do {
         cfw_commit fs config m;
         State_Monad.return (finish_with out InstallInstalled
           (''installed '' @ item_name item @
            (if item_versionText item = [] then [] else '' '' @ item_versionText item))) }"
  have "wp_io (merge_loop fs config m ps cb 0 out ps) (\<lambda>merged. wp_io (?k merged) Q) w0"
  proof (rule merge_loop_wp [OF good0 st good0 inv0])
    show "set ps \<subseteq> set ps" "distinct ps" "\<forall>r\<in>set ps. untouched m (cont w0) (cont w0) r"
      "\<forall>r\<in>set ps - set ps. placed m (cont w0) (cont w0) r"
      using st no_backup by (auto simp: merge_start_def untouched_def)
    fix w' out' assume w': "later w0 w'" "merge_inv m ps (cont w0) (isdir w0) (cont w') (isdir w')"
      "\<forall>r\<in>set ps. placed m (cont w0) (cont w') r"
    have "wp_io (cfw_commit fs config m) (\<lambda>_ w''. \<forall>out. io_result out = InstallInstalled \<longrightarrow> Q out w'') w'"
      by (rule wp_mono [OF inside_commit [OF l later_good [OF w'(1) good0]]])
        (use ok w' later_trans [OF w'(1)] in \<open>auto simp: inside_def merge_inv_def\<close>)
    then show "wp_io (?k (Inr out')) Q w'"
      unfolding sum.case wp by (rule wp_mono) (simp add: finish_with_def)
  next
    fix w' out' res detail assume w': "later w0 w'" "merge_inv m ps (cont w0) (isdir w0) (cont w') (isdir w')"
      "cb = None \<and> compatible m ps (cont w0) (isdir w0) \<longrightarrow> dead w'" "res = Cancelled \<or> res = InstallRolledBack"
    show "wp_io (abandon fs config m ps out' res detail) (\<lambda>merged. wp_io (?k merged) Q) w'"
      unfolding abandon_def wp sum.case
      by (rule wp_mono [OF late [OF w'(1-3)]]) (use w'(4) in \<open>auto simp: finish_with_def\<close>)
  qed
  then show ?thesis by (simp add: run_merge_def wp_bind)
qed

text \<open>Before the first file is moved nothing has happened outside the installer's directory.\<close>

lemma give_up_wp:
  assumes l: "layout_ok config m" and ident: "itemId m = item_id item" and good: "good w"
    and v: "later w v" "\<forall>q. \<not> area config q \<longrightarrow> cont v q = cont w q" "cont v (markerPath config) = None"
    and Q: "\<And>u. later v u \<Longrightarrow> \<forall>q. \<not> area config q \<longrightarrow> cont u q = cont w q \<Longrightarrow> cont u (markerPath config) = None \<Longrightarrow> Q out u"
  shows "wp_io (do { discardStaging fs config (item_id item); State_Monad.return out }) Q v"
  unfolding wp using inside_discardStaging [OF l later_good [OF v(1) good]] unfolding ident
proof (rule wp_mono)
  fix u assume u: "inside config v u"
  then have "cont u (markerPath config) = None" using v(3) unfolding inside_def by metis
  then show "Q out u" using Q u v(2) by (simp add: inside_def)
qed

lemma record_and_merge_wp:
  assumes good: "good w" and l: "layout_ok config m" and ident: "itemId m = item_id item"
    and absent: "cont w (markerPath config) = None"
    and early: "\<And>out w'. later w w' \<Longrightarrow> \<forall>q. \<not> area config q \<longrightarrow> cont w' q = cont w q \<Longrightarrow>
      cont w' (markerPath config) = None \<Longrightarrow> io_result out \<noteq> InstallInstalled \<Longrightarrow>
      (\<exists>a\<in>set (admin config). isdir w a) \<or> \<not> isdir w (stagingRoot config) \<or> dead w' \<Longrightarrow> Q out w'"
    and late: "\<And>w0 out. good w0 \<Longrightarrow> later w w0 \<Longrightarrow> cont w0 = recorded config ps doc (cont w) \<Longrightarrow> isdir w0 = isdir w \<Longrightarrow>
      wp_io (run_merge fs config item m ps out cb) Q w0"
  shows "wp_io (record_and_merge fs config item m doc ps out cb) Q w"
proof -
  have adm: "markerPath config \<in> set (admin config)" "markerPath config @ ''.tmp'' \<in> set (admin config)"
    "mergeFileListPath config \<in> set (admin config)" "mergeFileListPath config @ ''.tmp'' \<in> set (admin config)"
    by (simp_all add: admin_def)
  have ne: "markerPath config \<noteq> mergeFileListPath config" "markerPath config \<noteq> mergeFileListPath config @ ''.tmp''"
    by (simp_all add: markerPath_def mergeFileListPath_def)
  have out_adm: "q \<noteq> p" if "\<not> area config q" "p \<in> set (admin config)" for p q
    using that admin_apart(1) [OF l] by blast
  let ?marked = "\<lambda>marked. if \<not> marked then do {
         _ \<leftarrow> fs_remove fs (mergeFileListPath config);
         discardStaging fs config (item_id item);
         State_Monad.return (finish_with out MergeFailed ''could not record the installation'') }
       else run_merge fs config item m ps out cb"
  show ?thesis
    unfolding record_and_merge_def wp_bind [of "fs_writeAtomic fs (mergeFileListPath config) (planned_text ps)"]
  proof (rule record_wp [OF good l adm(3, 4)])
    fix v assume v: "later w v" "isdir v = isdir w"
      "cont v = (cont w)(mergeFileListPath config @ ''.tmp'' := None, mergeFileListPath config \<mapsto> planned_text ps)"
    have v_out: "\<forall>q. \<not> area config q \<longrightarrow> cont v q = cont w q" using v(3) out_adm adm by auto
    have v_mark: "cont v (markerPath config) = None" using v(3) absent ne by simp
    have "wp_io (fs_writeAtomic fs (markerPath config) doc) (\<lambda>b. wp_io (?marked b) Q) v"
    proof (rule record_wp [OF later_good [OF v(1) good] l adm(1, 2)])
      fix w0 assume w0: "later v w0" "isdir w0 = isdir v"
        "cont w0 = (cont v)(markerPath config @ ''.tmp'' := None, markerPath config \<mapsto> doc)"
      then have "cont w0 = recorded config ps doc (cont w)" using v(3) by (simp add: recorded_def)
      then show "wp_io (?marked True) Q w0"
        using late [OF later_good [OF _ good]] later_trans [OF v(1) w0(1)] w0(2) v(2) by simp
    next
      fix u assume u: "later v u"
        "\<forall>q. q \<noteq> markerPath config \<longrightarrow> q \<noteq> markerPath config @ ''.tmp'' \<longrightarrow> cont u q = cont v q"
        "cont u (markerPath config) = cont v (markerPath config) \<or> cont u (markerPath config) = None"
        "(\<exists>a\<in>set (admin config). isdir v a) \<or> \<not> isdir v (stagingRoot config) \<or> dead u"
      have lu: "later w u" using later_trans [OF v(1) u(1)] .
      have u_out: "\<forall>q. \<not> area config q \<longrightarrow> cont u q = cont w q" using u(2) v_out out_adm adm by metis
      have u_mark: "cont u (markerPath config) = None" using u(3) v_mark by simp
      show "wp_io (?marked False) Q u"
        unfolding if_True not_False_eq_True wp_bind [of "fs_remove fs (mergeFileListPath config)"]
        using inside_ops(1) [OF later_good [OF lu good] admin_area(2)]
      proof (rule wp_mono)
        fix x assume x: "inside config u x"
        have lx: "later w x" using x later_trans [OF lu] by (simp add: inside_def)
        have x_out: "\<forall>q. \<not> area config q \<longrightarrow> cont x q = cont w q" using x u_out by (simp add: inside_def)
        have x_mark: "cont x (markerPath config) = None" using x u_mark unfolding inside_def by metis
        have why: "(\<exists>a\<in>set (admin config). isdir w a) \<or> \<not> isdir w (stagingRoot config) \<or> dead x"
          using u(4) v(2) x later_dead by (auto simp: inside_def)
        show "wp_io (do { discardStaging fs config (item_id item);
            State_Monad.return (finish_with out MergeFailed ''could not record the installation'') }) Q x"
        proof (rule give_up_wp [OF l ident good lx x_out x_mark])
          fix y assume y: "later x y" "\<forall>q. \<not> area config q \<longrightarrow> cont y q = cont w q" "cont y (markerPath config) = None"
          show "Q (finish_with out MergeFailed ''could not record the installation'') y"
            by (rule early [OF later_trans [OF lx y(1)] y(2, 3)])
              (use why later_dead [OF y(1)] in \<open>auto simp: finish_with_def\<close>)
        qed
      qed
    qed
    then show "wp_io (if \<not> True then do { discardStaging fs config (item_id item);
        State_Monad.return (finish_with out MergeFailed ''could not record what the installation would write'') }
      else do { marked \<leftarrow> fs_writeAtomic fs (markerPath config) doc; ?marked marked }) Q v"
      by (simp add: wp_bind)
  next
    fix v assume v: "later w v"
      "\<forall>q. q \<noteq> mergeFileListPath config \<longrightarrow> q \<noteq> mergeFileListPath config @ ''.tmp'' \<longrightarrow> cont v q = cont w q"
      "(\<exists>a\<in>set (admin config). isdir w a) \<or> \<not> isdir w (stagingRoot config) \<or> dead v"
    have v_out: "\<forall>q. \<not> area config q \<longrightarrow> cont v q = cont w q" using v(2) out_adm adm by metis
    have v_mark: "cont v (markerPath config) = None" using v(2) absent ne by metis
    have "wp_io (do { discardStaging fs config (item_id item);
        State_Monad.return (finish_with out MergeFailed ''could not record what the installation would write'') }) Q v"
    proof (rule give_up_wp [OF l ident good v(1) v_out v_mark])
      fix y assume y: "later v y" "\<forall>q. \<not> area config q \<longrightarrow> cont y q = cont w q" "cont y (markerPath config) = None"
      show "Q (finish_with out MergeFailed ''could not record what the installation would write'') y"
        by (rule early [OF later_trans [OF v(1) y(1)] y(2, 3)])
          (use v(3) later_dead [OF y(1)] in \<open>auto simp: finish_with_def\<close>)
    qed
    then show "wp_io (if \<not> False then do { discardStaging fs config (item_id item);
        State_Monad.return (finish_with out MergeFailed ''could not record what the installation would write'') }
      else do { marked \<leftarrow> fs_writeAtomic fs (markerPath config) doc; ?marked marked }) Q v"
      by simp
  qed
qed

lemma mergeStagedTree_wp:
  assumes good: "good w" and m: "m = marker_for config item nowUnix dest"
    and ready: "merge_ready config m (cont w) (isdir w)"
    and early: "\<And>out w'. later w w' \<Longrightarrow> \<forall>q. \<not> area config q \<longrightarrow> cont w' q = cont w q \<Longrightarrow>
      cont w' (markerPath config) = None \<Longrightarrow> io_result out \<noteq> InstallInstalled \<Longrightarrow>
      (\<forall>r. cont w (src m r) = None) \<or> \<not> has_value (parseMergeMarker jparse (serializeMergeMarker jdump m)) \<or>
      (\<exists>a\<in>set (admin config). isdir w a) \<or> dead w' \<Longrightarrow> Q out w'"
    and late: "\<And>w0 ps out. good w0 \<Longrightarrow> later w w0 \<Longrightarrow>
      cont w0 = recorded config ps (serializeMergeMarker jdump m) (cont w) \<Longrightarrow> isdir w0 = isdir w \<Longrightarrow>
      set ps = {r. cont w (src m r) \<noteq> None \<and> \<not> (preserves preserve r \<and> cont w (tgt m r) \<noteq> None)} \<Longrightarrow>
      merge_start config m ps (cont w0) (isdir w0) \<Longrightarrow>
      wp_io (run_merge fs config item m ps out cb) Q w0"
  shows "wp_io (mergeStagedTree fs jparse jdump nowUnix config item preserve (stagingFor config (item_id item)) dest cb) Q w"
proof -
  have l: "layout_ok config m" and absent: "cont w (markerPath config) = None"
    using ready by (simp_all add: merge_ready_def)
  have sel: "stagingDir m = stagingFor config (item_id item)" "destinationRoot m = dest" "itemId m = item_id item"
    by (simp_all add: m marker_for_def)
  have r_ok: "r \<noteq> []" if "cont w (src m r) \<noteq> None" for r
    using file_path [OF good that] by (auto simp: src_eq [OF l] wf_path_append name_ok_def)
  have quit: "wp_io (do { discardStaging fs config (item_id item); State_Monad.return out }) Q w"
    if "io_result out \<noteq> InstallInstalled"
      "(\<forall>r. cont w (src m r) = None) \<or> \<not> has_value (parseMergeMarker jparse (serializeMergeMarker jdump m))" for out
    by (rule give_up_wp [OF l sel(3) good later_refl _ absent]) (use that early in auto)
  have main: "wp_io (record_and_merge fs config item m (serializeMergeMarker jdump m) (to_write preserve m (cont w) xs) out cb) Q w"
    if xs: "distinct xs" "set xs = {r. cont w (src m r) \<noteq> None}" "xs \<noteq> []" for xs out
  proof (rule record_and_merge_wp [OF good l sel(3) absent])
    let ?ps = "to_write preserve m (cont w) xs"
    have ps: "set ?ps = {r. cont w (src m r) \<noteq> None \<and> \<not> (preserves preserve r \<and> cont w (tgt m r) \<noteq> None)}"
      using xs(2) by (auto simp: to_write_def)
    fix w0 out assume w0: "good w0" "later w w0"
      "cont w0 = recorded config ?ps (serializeMergeMarker jdump m) (cont w)" "isdir w0 = isdir w"
    have "merge_start config m ?ps (cont w0) (isdir w0)"
      unfolding w0(3, 4) by (rule merge_start_recorded [OF ready]) (use xs(1) ps in \<open>auto simp: to_write_def\<close>)
    then show "wp_io (run_merge fs config item m ?ps out cb) Q w0" by (rule late [OF w0 ps])
  next
    obtain r where "cont w (src m r) \<noteq> None" using xs(2) hd_in_set [OF xs(3)] by blast
    moreover have "ancestor (stagingRoot config) (src m r)" using place_area(1) [OF l] by (simp add: area_def)
    ultimately have root: "isdir w (stagingRoot config)" using tree [OF good] layout_dirs(3) [OF l] by blast
    fix out :: InstallOutcome and w' assume "later w w'" "\<forall>q. \<not> area config q \<longrightarrow> cont w' q = cont w q"
      "cont w' (markerPath config) = None" "io_result out \<noteq> InstallInstalled"
      "(\<exists>a\<in>set (admin config). isdir w a) \<or> \<not> isdir w (stagingRoot config) \<or> dead w'"
    then show "Q out w'" using early root by blast
  qed
  show ?thesis
    unfolding mergeStagedTree_def wp_bind [of "fs_listFilesRecursive fs (stagingFor config (item_id item))"]
  proof (rule list_law [OF good])
    show "stagingFor config (item_id item) \<noteq> []" by (simp add: stagingFor_def)
    fix xs assume xs: "distinct xs"
      "set xs = {r. r \<noteq> [] \<and> cont w (stagingFor config (item_id item) @ CHR ''/'' # r) \<noteq> None}"
    have xs_src: "set xs = {r. cont w (src m r) \<noteq> None}"
      using xs(2) r_ok unfolding sel(1) [symmetric] src_eq [OF l, symmetric] by auto
    have plan: "wp_io (plan_merge fs preserve dest [] 0 xs)
        (\<lambda>(toWrite, kept). wp_io (record_and_merge fs config item m (serializeMergeMarker jdump m) toWrite
          (empty_InstallOutcome\<lparr>filesPreserved := kept\<rparr>) cb) Q) w" if "xs \<noteq> []"
      by (rule plan_merge_wp) (use main [OF xs(1) xs_src that] in \<open>simp add: to_write_def sel(2)\<close>)
    have none: "\<forall>r. cont w (src m r) = None" if "xs = []" using xs_src that by auto
    show "wp_io (if xs = [] then do { discardStaging fs config (item_id item);
          State_Monad.return (finish_with empty_InstallOutcome ExtractFailed ''the package expanded to nothing'') }
        else do {
          let marker = \<lparr>mm_schemaVersion = kSupportedMergeMarkerSchema, mm_createdAtUnix = nowUnix,
            itemId = item_id item, itemName = item_name item, stagingDir = stagingFor config (item_id item),
            destinationRoot = dest, backupDir = backupFor config (item_id item)\<rparr>;
          let doc = serializeMergeMarker jdump marker;
          if \<not> has_value (parseMergeMarker jparse doc) then do { discardStaging fs config (item_id item);
            State_Monad.return (finish_with empty_InstallOutcome MergeFailed
              ''refusing to start a merge this build could not undo'') }
          else do {
            (toWrite, kept) \<leftarrow> plan_merge fs preserve dest [] 0 xs;
            record_and_merge fs config item marker doc toWrite (empty_InstallOutcome\<lparr>filesPreserved := kept\<rparr>) cb } }) Q w"
      unfolding marker_for_def [symmetric] m [symmetric] Let_def
    proof (split if_split, intro conjI impI)
      assume "xs = []"
      then show "wp_io (do { discardStaging fs config (item_id item);
          State_Monad.return (finish_with empty_InstallOutcome ExtractFailed ''the package expanded to nothing'') }) Q w"
        using none by (intro quit) (auto simp: finish_with_def)
    next
      assume ne: "xs \<noteq> []"
      show "wp_io (if \<not> has_value (parseMergeMarker jparse (serializeMergeMarker jdump m)) then do {
            discardStaging fs config (item_id item);
            State_Monad.return (finish_with empty_InstallOutcome MergeFailed
              ''refusing to start a merge this build could not undo'') }
          else do {
            (toWrite, kept) \<leftarrow> plan_merge fs preserve dest [] 0 xs;
            record_and_merge fs config item m (serializeMergeMarker jdump m) toWrite
              (empty_InstallOutcome\<lparr>filesPreserved := kept\<rparr>) cb }) Q w"
      proof (split if_split, intro conjI impI)
        assume "\<not> has_value (parseMergeMarker jparse (serializeMergeMarker jdump m))"
        then show "wp_io (do { discardStaging fs config (item_id item);
            State_Monad.return (finish_with empty_InstallOutcome MergeFailed
              ''refusing to start a merge this build could not undo'') }) Q w"
          by (intro quit) (auto simp: finish_with_def)
      next
        show "wp_io (do { (toWrite, kept) \<leftarrow> plan_merge fs preserve dest [] 0 xs;
            record_and_merge fs config item m (serializeMergeMarker jdump m) toWrite
              (empty_InstallOutcome\<lparr>filesPreserved := kept\<rparr>) cb }) Q w"
          using plan [OF ne] unfolding wp_bind by (simp add: case_prod_unfold)
      qed
    qed
  qed
qed

text \<open>Without power loss: all or nothing, whatever the callback decides.\<close>

lemma merge_steady_wp:
  assumes good: "good w" and steady: "steady w" and m: "m = marker_for config item nowUnix dest"
    and ready: "merge_ready config m (cont w) (isdir w)"
  shows "wp_io (mergeStagedTree fs jparse jdump nowUnix config item preserve (stagingFor config (item_id item)) dest cb)
    (\<lambda>out w'.
      (io_result out \<noteq> InstallInstalled \<longrightarrow> unchanged_outside config (cont w) (cont w')) \<and>
      (io_result out = InstallInstalled \<longrightarrow> merged_outside config m preserve (cont w) (cont w')) \<and>
      (cb = None \<and> (\<exists>r. cont w (src m r) \<noteq> None) \<and>
       has_value (parseMergeMarker jparse (serializeMergeMarker jdump m)) \<and>
       (\<forall>a\<in>set (admin config). \<not> isdir w a) \<and> unobstructed m (cont w) (isdir w) \<longrightarrow>
         io_result out = InstallInstalled)) w" (is "wp_io _ ?Q w")
proof (rule mergeStagedTree_wp [OF good m ready])
  have l: "layout_ok config m" using ready by (simp add: merge_ready_def)
  fix out :: InstallOutcome and w' assume w': "later w w'" "\<forall>q. \<not> area config q \<longrightarrow> cont w' q = cont w q" "io_result out \<noteq> InstallInstalled"
    "(\<forall>r. cont w (src m r) = None) \<or> \<not> has_value (parseMergeMarker jparse (serializeMergeMarker jdump m)) \<or>
      (\<exists>a\<in>set (admin config). isdir w a) \<or> dead w'"
  then show "?Q out w'"
    using steady_alive [OF later_steady [OF w'(1) steady]] by (auto simp: unchanged_outside_def)
next
  have l: "layout_ok config m" using ready by (simp add: merge_ready_def)
  fix w0 ps out assume w0: "good w0" "later w w0"
    "cont w0 = recorded config ps (serializeMergeMarker jdump m) (cont w)" "isdir w0 = isdir w"
    "set ps = {r. cont w (src m r) \<noteq> None \<and> \<not> (preserves preserve r \<and> cont w (tgt m r) \<noteq> None)}"
    and st: "merge_start config m ps (cont w0) (isdir w0)"
  have a: "apart config m ps" using st by (simp add: merge_start_def)
  have same: "cont w0 q = cont w q" if "\<not> area config q" for q using that recorded_outside [OF l] w0(3) by simp
  have src_same: "cont w0 (src m r) = cont w (src m r)" for r using recorded_places(1) [OF l] w0(3) by simp
  show "wp_io (run_merge fs config item m ps out cb) ?Q w0"
  proof (rule run_merge_wp [OF w0(1) st])
    fix w' assume w': "later w0 w'" "merge_inv m ps (cont w0) (isdir w0) (cont w') (isdir w')"
      "cb = None \<and> compatible m ps (cont w0) (isdir w0) \<longrightarrow> dead w'"
    have lw: "later w w'" using later_trans [OF w0(2) w'(1)] .
    have st': "steady w'" using later_steady [OF lw steady] .
    have free: "\<not> (cb = None \<and> unobstructed m (cont w) (isdir w))"
      using w'(3) unobstructed_compatible [OF ready, of ps] w0(3-5) steady_alive [OF st'] by auto
    show "wp_io (cfw_rollBack fs config m ps) (\<lambda>restored u. \<forall>out.
        io_result out \<noteq> InstallInstalled \<and> (restored \<longrightarrow> io_result out \<noteq> MergeFailed) \<longrightarrow> ?Q out u) w'"
      by (rule rollBack_wp [OF w0(1) st later_good [OF lw good] st' w'(2) refl])
        (use free same in \<open>auto simp: unchanged_outside_def\<close>)
  next
    fix w' w'' and out :: InstallOutcome assume mg: "merging m ps (cont w0) (cont w')" "\<forall>r\<in>set ps. placed m (cont w0) (cont w') r"
      and ins: "inside config w' w''" and "io_result out = InstallInstalled"
    have keep: "cont w'' q = cont w' q" if "\<not> area config q" for q using ins that by (simp add: inside_def)
    have other: "cont w' q = cont w q" if "\<not> area config q" "\<forall>r\<in>set ps. q \<noteq> tgt m r" for q
    proof -
      have "\<forall>r. q \<noteq> src m r \<and> q \<noteq> bak m r" using that(1) place_area(1, 2) [OF l] by blast
      then have "cont w' q = cont w0 q" using mg(1) that(2) by (simp add: merging_def)
      then show ?thesis using same [OF that(1)] by simp
    qed
    have "cont w'' (tgt m r) = (if preserves preserve r \<and> cont w (tgt m r) \<noteq> None then cont w (tgt m r) else cont w (src m r))"
      if r: "cont w (src m r) \<noteq> None" for r
    proof -
      have na: "\<not> area config (tgt m r)" using ready r by (auto simp: merge_ready_def)
      show ?thesis
      proof (cases "r \<in> set ps")
        case True
        then have "cont w'' (tgt m r) = cont w (src m r)"
          using mg(2) keep [OF na] src_same by (simp add: placed_def)
        then show ?thesis using True w0(5) by auto
      next
        case False
        then have "cont w' (tgt m r) = cont w (tgt m r)" using other [OF na] apart_inject(1) [OF a] by metis
        then show ?thesis using keep [OF na] False w0(5) r by auto
      qed
    qed
    moreover have "cont w'' q = cont w q" if "\<not> area config q \<and> (\<forall>r. cont w (src m r) \<noteq> None \<longrightarrow> q \<noteq> tgt m r)" for q
      using that keep other w0(5) by auto
    ultimately show "?Q out w''" using \<open>io_result out = InstallInstalled\<close> by (simp add: merged_outside_def)
  qed
qed

subsection \<open>After a power cut\<close>

lemma look_around_wp:
  assumes "good v" and l: "layout_ok config m"
    and "cont v (markerPath config) = Some doc" and "length doc \<le> 65536" and "parseMergeMarker jparse doc = Inr m"
    and Q: "\<And>s. Q (Some m, \<lparr>mp_marker = True, mp_staging = s,
      mp_backup = (\<exists>r. r \<noteq> [] \<and> cont v (backupDir m @ CHR ''/'' # r) \<noteq> None), mp_destination = True\<rparr>) v"
  shows "wp_io (look_around fs jparse config) Q v"
proof -
  have "wp_io (fs_listFilesRecursive fs (stagingDir m)) (\<lambda>staged. wp_io (fs_listFilesRecursive fs (backupDir m))
      (\<lambda>backedUp. Q (Some m, \<lparr>mp_marker = True, mp_staging = staged \<noteq> [], mp_backup = backedUp \<noteq> [],
        mp_destination = True\<rparr>))) v"
  proof (rule list_law [OF assms(1) wf_path_last(3) [OF layout_dirs(1) [OF l]]],
      rule list_law [OF assms(1) wf_path_last(3) [OF layout_dirs(2) [OF l]]])
    fix xs ys assume ys: "set ys = {r. r \<noteq> [] \<and> cont v (backupDir m @ CHR ''/'' # r) \<noteq> None}"
    have "(ys \<noteq> []) = (set ys \<noteq> {})" by simp
    also have "\<dots> = (\<exists>r. r \<noteq> [] \<and> cont v (backupDir m @ CHR ''/'' # r) \<noteq> None)"
      unfolding ys Collect_empty_eq by simp
    finally have "(ys \<noteq> []) = (\<exists>r. r \<noteq> [] \<and> cont v (backupDir m @ CHR ''/'' # r) \<noteq> None)" .
    then show "Q (Some m, \<lparr>mp_marker = True, mp_staging = xs \<noteq> [], mp_backup = ys \<noteq> [], mp_destination = True\<rparr>) v"
      using Q by simp
  qed
  then have rd: "wp_io (fs_readText fs (markerPath config) (64 * 1024)) (\<lambda>raw. wp_io (case raw of
         None \<Rightarrow> State_Monad.return (None, \<lparr>mp_marker = False, mp_staging = False, mp_backup = False, mp_destination = False\<rparr>\<lparr>mp_marker := True\<rparr>)
       | Some txt \<Rightarrow>
           (case parseMergeMarker jparse txt of
              Inl e \<Rightarrow> State_Monad.return (None, \<lparr>mp_marker = False, mp_staging = False, mp_backup = False, mp_destination = False\<rparr>\<lparr>mp_marker := True\<rparr>)
            | Inr marker \<Rightarrow> do {
                staged \<leftarrow> fs_listFilesRecursive fs (stagingDir marker);
                backedUp \<leftarrow> fs_listFilesRecursive fs (backupDir marker);
                State_Monad.return (Some marker,
                  \<lparr>mp_marker = True, mp_staging = staged \<noteq> [], mp_backup = backedUp \<noteq> [], mp_destination = True\<rparr>) })) Q) v"
    by (intro read_law [OF assms(3)]) (use assms(4, 5) in \<open>simp_all add: wp\<close>)
  have there: "(\<not> (cont v (markerPath config) \<noteq> None)) = False" using assms(3) by simp
  show ?thesis
    using rd unfolding look_around_def Let_def wp_bind [of "fs_exists fs (markerPath config)"] exists_law there if_False
      wp_bind [of "fs_readText fs (markerPath config) (64 * 1024)"] .
qed

lemma readPlannedFiles_wp:
  assumes "cont v (mergeFileListPath config) = Some (planned_text ps)" and "length (planned_text ps) \<le> 8388608"
    and "\<forall>r\<in>set ps. r \<noteq> [] \<and> CHR 0x0A \<notin> set r" and "Q ps v"
  shows "wp_io (readPlannedFiles fs config) Q v"
  unfolding readPlannedFiles_def wp
  by (rule read_law [OF assms(1)]) (use assms in \<open>simp_all add: plan_lines_text\<close>)

lemma recover_wp:
  assumes good0: "good w0" and c0: "cont w0 = recorded config ps doc c" and st: "merge_start config m ps (cont w0) (isdir w0)"
    and ps: "\<forall>r\<in>set ps. c (src m r) \<noteq> None"
    and v: "good v" "steady v" "merge_inv m ps (cont w0) (isdir w0) (cont v) (isdir v)"
    and doc: "length doc \<le> 65536" "parseMergeMarker jparse doc = Inr m" "length (planned_text ps) \<le> 8388608"
  shows "wp_io (recoverInterruptedMerge fs jparse config) (\<lambda>_ w'.
    originals_back config m c (cont w') \<and>
    ((\<exists>r. cont v (bak m r) \<noteq> None) \<longrightarrow> unchanged_outside config c (cont w')) \<and>
    cont w' (markerPath config) = None) v" (is "wp_io _ ?Q v")
proof -
  have a: "apart config m ps" and l: "layout_ok config m" using st by (auto simp: merge_start_def apart_def)
  have mg: "merging m ps (cont w0) (cont v)" using v(3) by (simp add: merge_inv_def)
  have adm: "cont v p = cont w0 p" if "p \<in> set (admin config)" for p
  proof -
    have "\<forall>r\<in>set ps. p \<noteq> tgt m r \<and> p \<noteq> src m r \<and> p \<noteq> bak m r"
      using admin_apart(1-3) [OF l that] a by (auto simp: apart_def)
    then show ?thesis using mg by (simp add: merging_def)
  qed
  have marker: "cont v (markerPath config) = Some doc" and plan: "cont v (mergeFileListPath config) = Some (planned_text ps)"
    using adm [of "markerPath config"] adm [of "mergeFileListPath config"] c0 recorded_admin
    by (simp_all add: admin_def)
  have lines: "\<forall>r\<in>set ps. r \<noteq> [] \<and> CHR 0x0A \<notin> set r"
    using start_wf(1) [OF good0 st] name_ok_split by (auto simp: src_eq [OF l] wf_path_append)
  have same: "cont w0 q = c q" if "\<not> area config q" for q using that recorded_outside [OF l] c0 by simp
  note bk = backed_up [OF good0 st mg]
  have undo: "wp_io (undo_merge fs config m why) ?Q v" for why
    unfolding undo_merge_def wp_bind [of "fs_listFilesRecursive fs (backupDir m)"]
  proof (rule list_law [OF v(1) wf_path_last(3) [OF layout_dirs(2) [OF l]]])
    fix ys :: "string list"
    have "wp_io (cfw_rollBack fs config m ps) (\<lambda>_. ?Q undefined) v"
      by (rule rollBack_wp [OF good0 st v refl])
        (use same in \<open>auto simp: originals_back_def unchanged_outside_def\<close>)
    then have "wp_io (readPlannedFiles fs config) (\<lambda>planned. wp_io (cfw_rollBack fs config m planned) (\<lambda>_. ?Q undefined)) v"
      by (intro readPlannedFiles_wp [OF plan doc(3) lines])
    then show "wp_io (do {
       planned \<leftarrow> readPlannedFiles fs config;
       complete \<leftarrow> cfw_rollBack fs config m planned;
       let out = empty_InstallOutcome\<lparr>filesReplaced := length ys\<rparr>;
       State_Monad.return (finish_with out (if complete then InstallRolledBack else MergeFailed)
         (if \<not> complete then ''some files could not be restored; reinstall the pack to be sure''
          else if planned = [] then
            why @ '' - the list of installed files was lost, so some of the new '' @ ''package may remain''
          else why)) }) ?Q v"
      unfolding Let_def wp by simp
  qed
  have clean: "wp_io (clean_up_only fs config (Some m)) (\<lambda>_. ?Q undefined) v"
    if none: "\<forall>r\<in>set ps. cont v (bak m r) = None"
  proof -
    have no_back: "\<not> (\<exists>r. cont v (bak m r) \<noteq> None)"
    proof
      assume "\<exists>r. cont v (bak m r) \<noteq> None"
      then obtain r where r: "cont v (bak m r) \<noteq> None" by blast
      then have "r \<noteq> []" using file_path [OF v(1) r] by (auto simp: bak_eq [OF l] wf_path_append name_ok_def)
      then have "r \<in> set ps" using bk(1) r by (auto simp: bak_eq [OF l])
      then show False using none r by simp
    qed
    have outside: "cont v q = c q \<or> c q = None \<and> (\<exists>r. q = tgt m r \<and> c (src m r) \<noteq> None \<and> cont v q = c (src m r))"
      if q: "\<not> area config q" for q
    proof (cases "\<exists>r\<in>set ps. q = tgt m r")
      case True
      then obtain r where r: "r \<in> set ps" "q = tgt m r" by blast
      have "cont w0 (src m r) = c (src m r)" using recorded_places(1) [OF l] c0 by simp
      then have "cont v q = cont w0 q \<or> cont w0 q = None \<and> cont v q = c (src m r)"
        using mg r none by (auto simp: merging_def untouched_def aside_def placed_def)
      then show ?thesis using same [OF q] r ps by auto
    next
      case False
      then have "cont v q = cont w0 q"
        using mg q place_area(1, 2) [OF l] unfolding merging_def by metis
      then show ?thesis using same [OF q] by simp
    qed
    let ?pre = "do {
       _ \<leftarrow> (case Some m of None \<Rightarrow> State_Monad.return () | Some m \<Rightarrow> do {
          _ \<leftarrow> fs_removeTree fs (stagingDir m);
          _ \<leftarrow> fs_removeTree fs (backupDir m);
          _ \<leftarrow> fs_remove fs (archiveFor config (itemId m));
          State_Monad.return () });
       fs_remove fs (mergeFileListPath config) }"
    have "wp_io ?pre (\<lambda>_. inside config v) v"
      unfolding option.case using layout_dirs(1, 2) [OF l]
      by (intro inside_seq inside_ops inside_return admin_area place_area [OF l] v(1))
    then have "wp_io ?pre (\<lambda>_. wp_io (fs_remove fs (markerPath config)) (\<lambda>_. ?Q undefined)) v"
    proof (rule wp_mono)
      fix u assume u: "inside config v u"
      then have lu: "later v u" by (simp add: inside_def)
      show "wp_io (fs_remove fs (markerPath config)) (\<lambda>_. ?Q undefined) u"
      proof (rule remove_law [OF later_good [OF lu v(1)]])
        fix w' b assume w': "later u w'" "cont w' = (cont u)(markerPath config := None) \<or> dead w' \<and> cont w' = cont u"
        have "cont w' = (cont u)(markerPath config := None)"
          using w'(2) later_steady [OF later_trans [OF lu w'(1)] v(2)] steady_alive by blast
        moreover from this have "cont w' q = cont v q" if "\<not> area config q" for q
          using u that admin_area(1) by (auto simp: inside_def)
        ultimately show "?Q undefined w'" using outside no_back by (simp add: originals_back_def)
      qed
    qed
    then show ?thesis by (simp add: clean_up_only_def wp)
  qed
  have back_iff: "(\<exists>r. r \<noteq> [] \<and> cont v (backupDir m @ CHR ''/'' # r) \<noteq> None) = (\<exists>r\<in>set ps. cont v (bak m r) \<noteq> None)"
    using bk(1) by blast
  show ?thesis
    unfolding recoverInterruptedMerge_def wp_bind [of "look_around fs jparse config"]
  proof (rule look_around_wp [OF v(1) l marker doc(1, 2)])
    fix s
    show "wp_io (case (Some m, \<lparr>mp_marker = True, mp_staging = s,
        mp_backup = (\<exists>r. r \<noteq> [] \<and> cont v (backupDir m @ CHR ''/'' # r) \<noteq> None), mp_destination = True\<rparr>) of (marker, present) \<Rightarrow>
      do {
        let decision = decideMergeRecovery marker present;
        case merge_action decision of
          MergeNothing \<Rightarrow> State_Monad.return (finish_with empty_InstallOutcome InstallInstalled (merge_reason decision))
        | MergeRollBack \<Rightarrow> undo_merge fs config (the marker) (merge_reason decision)
        | CleanUpOnly \<Rightarrow> do { clean_up_only fs config marker;
            State_Monad.return (finish_with empty_InstallOutcome InstallRolledBack (merge_reason decision)) }
        | MergeUnrecoverable \<Rightarrow> State_Monad.return (finish_with empty_InstallOutcome MergeFailed (merge_reason decision)) }) ?Q v"
    proof (cases "\<exists>r\<in>set ps. cont v (bak m r) \<noteq> None")
      case True
      then show ?thesis unfolding back_iff using undo by (simp add: decideMergeRecovery_def)
    next
      case False
      then have "wp_io (clean_up_only fs config (Some m)) (\<lambda>_. ?Q undefined) v" by (intro clean) auto
      then show ?thesis unfolding back_iff using False by (simp add: decideMergeRecovery_def wp_bind wp_return)
    qed
  qed
qed

text \<open>A merge cut short at any point, then a restart and the recovery.\<close>

lemma crash_recovery_wp:
  assumes good: "good w" and m: "m = marker_for config item nowUnix dest"
    and ready: "merge_ready config m (cont w) (isdir w)" and free: "unobstructed m (cont w) (isdir w)"
    and doc: "parseMergeMarker jparse (serializeMergeMarker jdump m) = Inr m"
      "length (serializeMergeMarker jdump m) \<le> 65536" "plan_size preserve m (cont w) \<le> 8388608"
  shows "wp_io (mergeStagedTree fs jparse jdump nowUnix config item preserve (stagingFor config (item_id item)) dest None)
    (\<lambda>out w1. io_result out \<noteq> InstallInstalled \<longrightarrow>
      wp_io (recoverInterruptedMerge fs jparse config) (\<lambda>_ w3.
        originals_back config m (cont w) (cont w3) \<and>
        ((\<exists>r. cont w1 (bak m r) \<noteq> None) \<longrightarrow> unchanged_outside config (cont w) (cont w3)) \<and>
        cont w3 (markerPath config) = None) (restart w1)) w" (is "wp_io _ ?Q w")
proof (rule mergeStagedTree_wp [OF good m ready])
  fix out :: InstallOutcome and w' assume "later w w'"
    and w': "\<forall>q. \<not> area config q \<longrightarrow> cont w' q = cont w q" "cont w' (markerPath config) = None"
  have "wp_io (recoverInterruptedMerge fs jparse config) (\<lambda>_ u. u = restart w') (restart w')"
    using w'(2) restart_same [of w']
    by (simp add: recoverInterruptedMerge_def look_around_def Let_def wp exists_law decideMergeRecovery_def)
  then have "wp_io (recoverInterruptedMerge fs jparse config) (\<lambda>_ w3.
        originals_back config m (cont w) (cont w3) \<and>
        ((\<exists>r. cont w' (bak m r) \<noteq> None) \<longrightarrow> unchanged_outside config (cont w) (cont w3)) \<and>
        cont w3 (markerPath config) = None) (restart w')"
    by (rule wp_mono) (use w' restart_same in \<open>auto simp: originals_back_def unchanged_outside_def\<close>)
  then show "?Q out w'" by blast
next
  fix w0 ps out assume w0: "good w0" "later w w0"
    "cont w0 = recorded config ps (serializeMergeMarker jdump m) (cont w)" "isdir w0 = isdir w"
    "set ps = {r. cont w (src m r) \<noteq> None \<and> \<not> (preserves preserve r \<and> cont w (tgt m r) \<noteq> None)}"
    and st: "merge_start config m ps (cont w0) (isdir w0)"
  have l: "layout_ok config m" using ready by (simp add: merge_ready_def)
  have compat: "compatible m ps (cont w0) (isdir w0)"
    unfolding w0(3, 4) by (rule unobstructed_compatible [OF ready free]) (use w0(5) in blast)
  have "length (planned_text ps) = plan_size preserve m (cont w)"
    using planned_text_length [of ps] st w0(5) by (simp add: merge_start_def plan_size_def)
  then have len: "length (planned_text ps) \<le> 8388608" using doc(3) by simp
  show "wp_io (run_merge fs config item m ps out None) ?Q w0"
  proof (rule run_merge_wp [OF w0(1) st])
    fix w' assume w': "later w0 w'" "merge_inv m ps (cont w0) (isdir w0) (cont w') (isdir w')"
      "(None :: InstallCallback) = None \<and> compatible m ps (cont w0) (isdir w0) \<longrightarrow> dead w'"
    have g': "good w'" and d: "dead w'" using later_good [OF w'(1) w0(1)] w'(3) compat by auto
    show "wp_io (cfw_rollBack fs config m ps) (\<lambda>restored u. \<forall>out.
        io_result out \<noteq> InstallInstalled \<and> (restored \<longrightarrow> io_result out \<noteq> MergeFailed) \<longrightarrow> ?Q out u) w'"
      using dead_frozen [OF later_rollBack [OF l g'] d]
    proof (rule wp_mono)
      fix b u assume "later w' u \<and> dead u \<and> cont u = cont w' \<and> isdir u = isdir w'"
      then have u: "later w' u" "cont u = cont w'" "isdir u = isdir w'" by auto
      have r: "good (restart u)" "steady (restart u)" "cont (restart u) = cont u" "isdir (restart u) = isdir u"
        using restart_good [OF later_good [OF u(1) g']] restart_same by auto
      have "wp_io (recoverInterruptedMerge fs jparse config) (\<lambda>_ w3.
        originals_back config m (cont w) (cont w3) \<and>
        ((\<exists>r. cont (restart u) (bak m r) \<noteq> None) \<longrightarrow> unchanged_outside config (cont w) (cont w3)) \<and>
        cont w3 (markerPath config) = None) (restart u)"
        by (rule recover_wp [OF w0(1, 3) st _ r(1, 2) _ doc(2, 1) len]) (use w0(5) w'(2) u r in auto)
      then show "\<forall>out. io_result out \<noteq> InstallInstalled \<and> (b \<longrightarrow> io_result out \<noteq> MergeFailed) \<longrightarrow> ?Q out u"
        unfolding r(3) by blast
    qed
  qed simp
qed

end

section \<open>A small installation\<close>

text \<open>A package of two files, one of which replaces a file of the user; the power fails at the \<open>n\<close>-th call.\<close>

definition small_config :: CfwInstallConfig where
  "small_config = default_CfwInstallConfig\<lparr>stagingRoot := ''/s'', themes := ''/t''\<rparr>"

definition small_item :: CatalogItem where
  "small_item =
     \<lparr>item_id = ''p'', item_name = ''Pack'', item_summary = [], item_kind = Theme, item_target = Themes,
      item_versionText = [], item_version = None, item_url = ''https://x/p.zip'', item_size = 1,
      item_sha256 = [], honourPreserveRules = False, item_minAtmosphere = None, item_notesUrl = []\<rparr>"

definition small_card :: "(nat \<Rightarrow> outcome) \<Rightarrow> sd" where
  "small_card f =
     \<lparr>files = [(''/s/p/a'', ''new''), (''/s/p/b'', ''more''), (''/t/a'', ''old'')],
      dirs = [''/s'', ''/s/p'', ''/t''], fate = f, tick = 0\<rparr>"

definition cut_at :: "nat \<Rightarrow> nat \<Rightarrow> outcome" where
  "cut_at n k = (if k < n then Done else Fails)"

definition small_marker :: MergeMarker where
  "small_marker = marker_for small_config small_item 0 ''/t''"

definition small_merge :: "InstallOutcome io" where
  "small_merge = mergeStagedTree (sd_store (\<lambda>_. None)) (echo_parse (marker_document small_marker)) echo_dump 0
     small_config small_item (Preserve_Rules.parse []) (stagingFor small_config ''p'') ''/t'' None"

definition small_recover :: "InstallOutcome io" where
  "small_recover =
     recoverInterruptedMerge (sd_store (\<lambda>_. None)) (echo_parse (marker_document small_marker)) small_config"

lemma small_places [simp]:
  "src small_marker r = ''/s/p/'' @ r" "tgt small_marker r = ''/t/'' @ r" "backupDir small_marker = ''/s/p.backup''"
  "stagingRoot small_config = ''/s''" "markerPath small_config = ''/s/merge.json''"
  by (simp_all add: small_marker_def marker_for_def small_config_def small_item_def stagingFor_def backupFor_def
      cfw_join_def markerPath_def)

lemma small_files: "content (small_card f) q \<noteq> None \<longleftrightarrow> q \<in> {''/s/p/a'', ''/s/p/b'', ''/t/a''}"
  by (simp add: small_card_def content_def)

lemma small_staged: "content (small_card f) (''/s/p/'' @ r) \<noteq> None \<longleftrightarrow> r = ''a'' \<or> r = ''b''"
  unfolding small_files by auto

lemma small_outside: "\<not> area small_config (''/t/'' @ r)"
  by (simp add: area_def ancestor_def)

lemma small_dirs: "is_dir (small_card f) q \<longleftrightarrow> q \<in> {''/'', ''/s'', ''/s/p'', ''/t''}"
  by (auto simp: small_card_def is_dir_def)

lemma small_ready: "merge_ready small_config small_marker (content (small_card f)) (is_dir (small_card f))"
proof -
  have "layout_ok small_config small_marker" by code_simp
  moreover have "content (small_card f) q = None \<and> \<not> is_dir (small_card f) q"
    if "q = ''/s/p.backup'' \<or> ancestor ''/s/p.backup'' q" for q
    using that small_files [of f q] small_dirs [of f q] by (auto simp: ancestor_def)
  moreover have "content (small_card f) ''/s/merge.json'' = None" by (simp add: small_card_def content_def)
  ultimately show ?thesis
    unfolding merge_ready_def small_places using small_outside by blast
qed

lemma small_free: "unobstructed small_marker (content (small_card f)) (is_dir (small_card f))"
proof -
  have "content (small_card f) q = None" if "ancestor q (''/t/'' @ r)" "r = ''a'' \<or> r = ''b''" for q r
  proof (rule ccontr)
    assume "content (small_card f) q \<noteq> None"
    then show False using that small_files [of f q] by (auto simp: ancestor_def)
  qed
  moreover have "\<not> is_dir (small_card f) (''/t/'' @ r)" for r unfolding small_dirs by simp
  ultimately show ?thesis unfolding unobstructed_def small_places small_staged by blast
qed

lemma small_wf: "wf_card (small_card f)"
proof -
  have "wf_card (small_card (\<lambda>_. Done))" by code_simp
  then show ?thesis by (simp add: wf_card_def small_card_def paths_def content_def dir_exists_def)
qed

section \<open>Properties\<close>

text \<open>C5: Installing without a power cut is all or nothing.  Whatever the progress callback decides and whatever
  stands in the way, the card outside the installer's directory ends either exactly as it was, or with
  every file of the package in place (except the files the user's rules preserve) and everything else as it
  was; the second exactly when the outcome is \<^verbatim>\<open>Installed\<close>.  And if nothing stands in the way and nobody
  cancels, it is.\<close>

theorem merge_all_or_nothing:
  assumes "wf_card w" and "calm w" and "m = marker_for config item nowUnix dest"
    and "merge_ready config m (content w) (is_dir w)"
  shows "case run_state (mergeStagedTree (sd_store vfs) jparse jdump nowUnix config item preserve
      (stagingFor config (item_id item)) dest cb) w of (out, w') \<Rightarrow>
    (io_result out \<noteq> InstallInstalled \<longrightarrow> unchanged_outside config (content w) (content w')) \<and>
    (io_result out = InstallInstalled \<longrightarrow> merged_outside config m preserve (content w) (content w')) \<and>
    (cb = None \<and> (\<exists>r. content w (src m r) \<noteq> None) \<and>
     has_value (parseMergeMarker jparse (serializeMergeMarker jdump m)) \<and>
     (\<forall>a\<in>set (admin config). \<not> is_dir w a) \<and> unobstructed m (content w) (is_dir w) \<longrightarrow>
       io_result out = InstallInstalled)"
proof -
  have "good_card w" using assms(1, 2) by (simp add: good_card_def)
  from card.merge_steady_wp [OF this assms(2-4)] show ?thesis by (simp add: wp_io_def)
qed

theorem merge_all_or_nothing_witness:
  "case run_state small_merge (small_card (\<lambda>_. Done)) of (out, w') \<Rightarrow>
     io_result out = InstallInstalled \<and> content w' ''/t/a'' = Some ''new''"
proof -
  let ?w = "small_card (\<lambda>_. Done)"
  have c: "calm ?w" by (simp add: calm_def small_card_def)
  have p: "has_value (parseMergeMarker (echo_parse (marker_document small_marker)) (serializeMergeMarker echo_dump small_marker))"
    "\<forall>a\<in>set (admin small_config). \<not> is_dir ?w a"
    by code_simp+
  have e: "content ?w (''/s/p/'' @ ''a'') = Some ''new''" by (simp add: small_card_def content_def)
  have k: "preserves (Preserve_Rules.parse []) ''a'' = False" by code_simp
  show ?thesis
    using merge_all_or_nothing [OF small_wf c small_marker_def small_ready, where vfs = "\<lambda>_. None"
        and jparse = "echo_parse (marker_document small_marker)" and jdump = echo_dump
        and preserve = "Preserve_Rules.parse []" and cb = None] p small_free e
    unfolding small_merge_def merged_outside_def
    by (fastforce simp: small_item_def k split: prod.splits)
qed



end
