(* ===== verification/Cfw_Gaps.thy ===== *)
theory Cfw_Gaps
  imports Cfw_Recovery
begin

text \<open>
  Where the recovery of an interrupted installation does lose a file: two concrete runs, evaluated.  They
  show that the hypotheses of the recovery theorem are needed.  The rollback takes a planned file that has
  no backup and is not staged for one the merge created, and removes it.  That is wrong when the backup was
  there and is gone: removed by the commit, or moved back by an earlier rollback.
\<close>

text \<open>Both files of the package replace one of the user's.\<close>

definition twin_card :: "(nat \<Rightarrow> outcome) \<Rightarrow> sd" where
  "twin_card f =
     \<lparr>files = [(''/s/p/a'', ''new a''), (''/s/p/b'', ''new b''), (''/t/a'', ''old a''), (''/t/b'', ''old b'')],
      dirs = [''/s'', ''/s/p'', ''/t''], fate = f, tick = 0\<rparr>"

text \<open>The card after a merge cut at the \<open>n\<close>-th call, and after a recovery that is itself cut.\<close>

definition after_cut :: "nat \<Rightarrow> sd" where
  "after_cut n = snd (run_state small_merge (twin_card (cut_at n)))"

definition recovery_cut :: "nat \<Rightarrow> sd \<Rightarrow> sd" where
  "recovery_cut n w = snd (run_state small_recover (w\<lparr>fate := cut_at n, tick := 0\<rparr>))"

definition recovered :: "sd \<Rightarrow> sd" where
  "recovered w = snd (run_state small_recover (power_on w))"

text \<open>The cards in between, as they are found at the next start.\<close>

definition on_card :: "(string \<times> string) list \<Rightarrow> (nat \<Rightarrow> outcome) \<Rightarrow> sd" where
  "on_card fls f = \<lparr>files = fls, dirs = [''/s'', ''/s/p'', ''/t'', ''/s/p.backup''], fate = f, tick = 0\<rparr>"

definition plan_and_marker :: "(string \<times> string) list" where
  "plan_and_marker =
     [(''/s/merge.files'', [CHR ''a'', CHR 0x0A, CHR ''b'', CHR 0x0A]),
      (''/s/merge.json'', ''doc'' @ [CHR 0x0A])]"

definition in_commit :: "(string \<times> string) list" where
  "in_commit = plan_and_marker @ [(''/t/a'', ''new a''), (''/s/p.backup/b'', ''old b''), (''/t/b'', ''new b'')]"

definition in_merge :: "(string \<times> string) list" where
  "in_merge = (''/s/p/b'', ''new b'') # plan_and_marker @
     [(''/s/p.backup/a'', ''old a''), (''/t/a'', ''new a''), (''/s/p.backup/b'', ''old b'')]"

definition in_recovery :: "(string \<times> string) list" where
  "in_recovery = (''/s/p/b'', ''new b'') # plan_and_marker @
     [(''/s/p.backup/b'', ''old b''), (''/t/a'', ''old a'')]"

lemma restart_eq:
  assumes "files w = fls" and "dirs w = [''/s'', ''/s/p'', ''/t'', ''/s/p.backup'']"
  shows "w\<lparr>fate := f, tick := 0\<rparr> = on_card fls f"
  using assms by (cases w) (simp add: on_card_def)

lemma commit_cut: "files (after_cut 21) = in_commit" "dirs (after_cut 21) = [''/s'', ''/s/p'', ''/t'', ''/s/p.backup'']"
  by code_simp+

lemma merge_cut: "files (after_cut 18) = in_merge" "dirs (after_cut 18) = [''/s'', ''/s/p'', ''/t'', ''/s/p.backup'']"
  by code_simp+

lemma undo_cut:
  "files (snd (run_state small_recover (on_card in_merge (cut_at 3)))) = in_recovery"
  "dirs (snd (run_state small_recover (on_card in_merge (cut_at 3)))) = [''/s'', ''/s/p'', ''/t'', ''/s/p.backup'']"
  by code_simp+

lemma recovery_cut_eq: "recovery_cut 3 (after_cut 18) = snd (run_state small_recover (on_card in_merge (cut_at 3)))"
  unfolding recovery_cut_def restart_eq [OF merge_cut] ..


end
