(* ===== verification/Document_Cache.thy ===== *)
theory Document_Cache
  imports Manifest_Cache Ports
begin

text \<open>
  What the update check and the catalogue have in common: a published document kept on the card beside its
  metadata, the failure counters beside it, and a mirror for a host that cannot be reached
  (\<^verbatim>\<open>domain/selfupdate/update_service.cpp\<close> and \<^verbatim>\<open>domain/catalog/catalog_service.cpp\<close>).
\<close>

section \<open>Transport\<close>

definition kMaxDocumentBytes :: "64 word" where
  "kMaxDocumentBytes = push_bit 20 1"

definition kMaxSidecarBytes :: "64 word" where
  "kMaxSidecarBytes = 64 * 1024"

fun hostUnreachable :: "HttpError \<Rightarrow> bool" where
  "hostUnreachable DnsFailure = True"
| "hostUnreachable ConnectFailed = True"
| "hostUnreachable Timeout = True"
| "hostUnreachable _ = False"

definition describeTransport :: "HttpError \<Rightarrow> string" where
  "describeTransport e =
     describe_HttpError e @ (if advise e \<noteq> [] then '' - '' @ advise e else [])"

text \<open>The request, and the mirror when the host itself could not be reached.\<close>

definition fetch_mirrored ::
  "'w HttpGateway \<Rightarrow> string \<Rightarrow> string \<Rightarrow> string \<Rightarrow> ('w, bool \<times> (HttpError, Response) result) state" where
  "fetch_mirrored http url mirror tag = do {
     response \<leftarrow> http_fetch http url tag;
     if (case response of Inl e \<Rightarrow> hostUnreachable e \<and> mirror \<noteq> [] | Inr _ \<Rightarrow> False) then do {
       response \<leftarrow> http_fetch http mirror [];
       State_Monad.return (True, response)
     }
     else State_Monad.return (False, response)
   }"

section \<open>Cache and backoff\<close>

definition load_document ::
  "'w FileStore \<Rightarrow> (string \<Rightarrow> json option) \<Rightarrow> string \<Rightarrow> string \<Rightarrow> ('w, (CacheMetadata \<times> string) option) state" where
  "load_document fs jparse metaPath docPath = do {
     rawMeta \<leftarrow> fs_readText fs metaPath kMaxSidecarBytes;
     case rawMeta of
       None \<Rightarrow> State_Monad.return None
     | Some raw \<Rightarrow>
         (case parseCacheMetadata jparse raw of
            Inl _ \<Rightarrow> State_Monad.return None
          | Inr meta \<Rightarrow> do {
              document \<leftarrow> fs_readText fs docPath kMaxDocumentBytes;
              State_Monad.return
                (case document of
                   None \<Rightarrow> None
                 | Some doc \<Rightarrow> if \<not> cacheMatchesDocument meta doc then None else Some (meta, doc))
            })
   }"

definition load_counters :: "'w FileStore \<Rightarrow> (string \<Rightarrow> json option) \<Rightarrow> string \<Rightarrow> ('w, BackoffState) state" where
  "load_counters fs jparse path = do {
     raw \<leftarrow> fs_readText fs path kMaxSidecarBytes;
     State_Monad.return
       (case raw of
          None \<Rightarrow> empty_BackoffState
        | Some txt \<Rightarrow> (case parseBackoff jparse txt of None \<Rightarrow> empty_BackoffState | Some st \<Rightarrow> st))
   }"

definition save_counters ::
  "'w FileStore \<Rightarrow> (json \<Rightarrow> string) \<Rightarrow> string \<Rightarrow> string \<Rightarrow> BackoffState \<Rightarrow> ('w, unit) state" where
  "save_counters fs jdump dir path st = do {
     _ \<leftarrow> fs_makeDirectories fs dir;
     _ \<leftarrow> fs_writeAtomic fs path (serializeBackoff jdump st);
     State_Monad.return ()
   }"

text \<open>Document first, metadata second.\<close>

definition store_document ::
  "'w FileStore \<Rightarrow> (json \<Rightarrow> string) \<Rightarrow> string \<Rightarrow> string \<Rightarrow> string \<Rightarrow> string \<Rightarrow> string \<Rightarrow> string \<Rightarrow> int \<Rightarrow> ('w, bool) state" where
  "store_document fs jdump dir metaPath docPath document tag url nowUnix = do {
     made \<leftarrow> fs_makeDirectories fs dir;
     if \<not> made then State_Monad.return False
     else do {
       let meta = \<lparr>cache_schemaVersion = kSupportedCacheSchema, fetchedAtUnix = nowUnix, etag = tag,
         documentSha256 = hexOf document, documentSize = of_nat (length document), sourceUrl = url\<rparr>;
       stored \<leftarrow> fs_writeAtomic fs docPath document;
       if \<not> stored then State_Monad.return False
       else fs_writeAtomic fs metaPath (serializeCacheMetadata jdump meta)
     }
   }"

end
