(* ===== verification/Update_Service.thy ===== *)
theory Update_Service
  imports Update_Policy Document_Cache Handoff
begin

text \<open>
  Checking for an update and staging it: \<^verbatim>\<open>domain/selfupdate/update_service.hpp\<close> and
  \<^verbatim>\<open>update_service.cpp\<close>.  The service is written against the ports, so its model takes the gateways as
  records of operations over an arbitrary world; the JSON library and the clock are arguments.
\<close>

section \<open>Configuration\<close>

record SelfUpdateConfig =
  manifestUrl :: string
  mirrorUrl :: string
  cacheDir :: string
  su_stagingDir :: string
  su_targetNro :: string
  su_forwarderNro :: string
  forwarderSource :: string
  repairEntryNro :: string
  su_installed :: SemVer
  su_channel :: Channel
  cacheTtlSeconds :: int
  su_backoff :: BackoffPolicy
  su_headroomPercent :: int
  maxSwapAttempts :: int

definition default_SelfUpdateConfig :: SelfUpdateConfig where
  "default_SelfUpdateConfig =
     \<lparr>manifestUrl = ''https://github.com/mateussantoos/nsx-manager/releases/latest/download/update.json'',
      mirrorUrl = ''https://raw.githubusercontent.com/mateussantoos/nsx-manager/'' @
        ''release-metadata/update.json'',
      cacheDir = ''/config/nsx-manager/cache'', su_stagingDir = ''/config/nsx-manager/staging'',
      su_targetNro = ''/switch/nsx-manager/nsx-manager.nro'',
      su_forwarderNro = ''/config/nsx-manager/forwarder/nsx-forwarder.nro'',
      forwarderSource = ''romfs:/nsx-forwarder.nro'',
      repairEntryNro = ''/switch/nsx-manager/nsx-forwarder.nro'',
      su_installed = \<lparr>major = 0, minor = 0, patch = 0, prerelease = [], build = []\<rparr>, su_channel = Stable,
      cacheTtlSeconds = kManifestCacheTtlSeconds, su_backoff = default_BackoffPolicy,
      su_headroomPercent = 20, maxSwapAttempts = 3\<rparr>"

definition cachedManifestPath :: "SelfUpdateConfig \<Rightarrow> string" where
  "cachedManifestPath config = cacheDir config @ ''/update.json''"

definition cacheMetadataPath :: "SelfUpdateConfig \<Rightarrow> string" where
  "cacheMetadataPath config = cacheDir config @ ''/update.meta.json''"

definition backoffPath :: "SelfUpdateConfig \<Rightarrow> string" where
  "backoffPath config = cacheDir config @ ''/backoff.json''"

definition stagedNroPath :: "SelfUpdateConfig \<Rightarrow> string" where
  "stagedNroPath config = su_stagingDir config @ ''/nsx-manager.nro''"

definition backupNroPath :: "SelfUpdateConfig \<Rightarrow> string" where
  "backupNroPath config = su_stagingDir config @ ''/nsx-manager.nro.bak''"

definition handoffPath :: "SelfUpdateConfig \<Rightarrow> string" where
  "handoffPath config = su_stagingDir config @ ''/handoff.json''"

definition setChannel :: "Channel \<Rightarrow> SelfUpdateConfig \<Rightarrow> SelfUpdateConfig" where
  "setChannel channel config = config\<lparr>su_channel := channel\<rparr>"

definition setPreferMirror :: "bool \<Rightarrow> SelfUpdateConfig \<Rightarrow> SelfUpdateConfig" where
  "setPreferMirror prefer config =
     (if prefer \<and> mirrorUrl config \<noteq> [] \<and> manifestUrl config \<noteq> mirrorUrl config
      then config\<lparr>manifestUrl := mirrorUrl config, mirrorUrl := manifestUrl config\<rparr>
      else config)"

section \<open>Outcomes\<close>

record CheckOutcome =
  co_decision :: UpdateDecision
  co_manifest :: "UpdateManifest option"
  co_plan :: FetchPlan
  servedFromCache :: bool
  usedMirror :: bool
  manifestAgeSeconds :: int
  co_transport :: HttpError
  co_detail :: string

text \<open>A default decision is \<^verbatim>\<open>ManifestUnreadable\<close> without a reason.\<close>

definition empty_CheckOutcome :: CheckOutcome where
  "empty_CheckOutcome =
     \<lparr>co_decision = unreadableManifest [], co_manifest = None, co_plan = Fetch, servedFromCache = False,
      usedMirror = False, manifestAgeSeconds = 0, co_transport = NoError, co_detail = []\<rparr>"

definition co_offersUpdate :: "CheckOutcome \<Rightarrow> bool" where
  "co_offersUpdate out = offersUpdate (co_decision out)"

datatype StageResult =
    Staged | NoAppAsset | InsufficientSpace | DownloadFailed | VerifyFailed | ForwarderUnavailable
  | StageWriteFailed

record StageOutcome =
  so_result :: StageResult
  so_handoff :: "Handoff option"
  forwarderPath :: string
  forwarderArgs :: string
  so_transport :: HttpError
  so_detail :: string

definition empty_StageOutcome :: StageOutcome where
  "empty_StageOutcome =
     \<lparr>so_result = DownloadFailed, so_handoff = None, forwarderPath = [], forwarderArgs = [],
      so_transport = NoError, so_detail = []\<rparr>"

definition readyToChainload :: "StageOutcome \<Rightarrow> bool" where
  "readyToChainload out = (so_result out = Staged)"

fun describe_StageResult :: "StageResult \<Rightarrow> string" where
  "describe_StageResult Staged = ''update staged''"
| "describe_StageResult NoAppAsset = ''the release contains no application binary''"
| "describe_StageResult InsufficientSpace = ''not enough free space''"
| "describe_StageResult DownloadFailed = ''the download failed''"
| "describe_StageResult VerifyFailed = ''the download did not verify''"
| "describe_StageResult ForwarderUnavailable = ''the repair binary is missing''"
| "describe_StageResult StageWriteFailed = ''the update could not be recorded''"

definition stage_stop :: "StageResult \<Rightarrow> string \<Rightarrow> StageOutcome" where
  "stage_stop r detail = empty_StageOutcome\<lparr>so_result := r, so_detail := detail\<rparr>"

section \<open>Helpers\<close>

fun isTransient :: "HttpError \<Rightarrow> bool" where
  "isTransient Timeout = True"
| "isTransient ConnectFailed = True"
| "isTransient DnsFailure = True"
| "isTransient SizeMismatch = True"
| "isTransient _ = False"

text \<open>The directory of a path, created when it has one below the root.\<close>

definition make_parent :: "'w FileStore \<Rightarrow> string \<Rightarrow> ('w, unit) state" where
  "make_parent fs path =
     (if CHR ''/'' \<in> set path \<and> parent_dir path \<noteq> []
      then do { _ \<leftarrow> fs_makeDirectories fs (parent_dir path); State_Monad.return () }
      else State_Monad.return ())"

section \<open>Cache and backoff\<close>

definition loadCache ::
  "'w FileStore \<Rightarrow> (string \<Rightarrow> json option) \<Rightarrow> SelfUpdateConfig \<Rightarrow> ('w, (CacheMetadata \<times> string) option) state" where
  "loadCache fs jparse config = load_document fs jparse (cacheMetadataPath config) (cachedManifestPath config)"

definition loadBackoff ::
  "'w FileStore \<Rightarrow> (string \<Rightarrow> json option) \<Rightarrow> SelfUpdateConfig \<Rightarrow> ('w, BackoffState) state" where
  "loadBackoff fs jparse config = load_counters fs jparse (backoffPath config)"

definition saveBackoff ::
  "'w FileStore \<Rightarrow> (json \<Rightarrow> string) \<Rightarrow> SelfUpdateConfig \<Rightarrow> BackoffState \<Rightarrow> ('w, unit) state" where
  "saveBackoff fs jdump config st = save_counters fs jdump (cacheDir config) (backoffPath config) st"

definition storeCache ::
  "'w FileStore \<Rightarrow> (json \<Rightarrow> string) \<Rightarrow> SelfUpdateConfig \<Rightarrow> string \<Rightarrow> string \<Rightarrow> string \<Rightarrow> int \<Rightarrow> ('w, bool) state" where
  "storeCache fs jdump config document tag url nowUnix =
     store_document fs jdump (cacheDir config) (cacheMetadataPath config) (cachedManifestPath config) document tag url nowUnix"

section \<open>Checking\<close>

definition fromDocument ::
  "(string \<Rightarrow> json option) \<Rightarrow> SelfUpdateConfig \<Rightarrow> string \<Rightarrow> bool \<Rightarrow> int \<Rightarrow> FetchPlan \<Rightarrow> string \<Rightarrow> CheckOutcome" where
  "fromDocument jparse config document cached age plan detail =
     (let out = empty_CheckOutcome\<lparr>co_plan := plan, servedFromCache := cached, manifestAgeSeconds := age,
            co_detail := detail\<rparr> in
      case parseManifest jparse document of
        Inl e \<Rightarrow>
          (let why = describe_ManifestError e in
           out\<lparr>co_decision := unreadableManifest why, co_detail := why\<rparr>)
      | Inr manifest \<Rightarrow>
          out\<lparr>co_manifest := Some manifest,
              co_decision := decideUpdate (su_installed config) manifest (su_channel config)\<rparr>)"

definition fetch_manifest ::
  "'w HttpGateway \<Rightarrow> SelfUpdateConfig \<Rightarrow> string \<Rightarrow> ('w, bool \<times> (HttpError, Response) result) state" where
  "fetch_manifest http config tag = fetch_mirrored http (manifestUrl config) (mirrorUrl config) tag"

text \<open>No answer: remember the failure, and show what is cached if anything is.\<close>

definition check_failed ::
  "'w FileStore \<Rightarrow> (string \<Rightarrow> json option) \<Rightarrow> (json \<Rightarrow> string) \<Rightarrow> int \<Rightarrow> SelfUpdateConfig \<Rightarrow>
   (CacheMetadata \<times> string) option \<Rightarrow> BackoffState \<Rightarrow> FetchDecision \<Rightarrow> bool \<Rightarrow> HttpError \<Rightarrow> ('w, CheckOutcome) state" where
  "check_failed fs jparse jdump now config cached backoff plan mirror e = do {
     saveBackoff fs jdump config (afterFailure backoff now (su_backoff config) (of_int now));
     State_Monad.return
       (case cached of
          Some (_, document) \<Rightarrow>
            (fromDocument jparse config document True (cacheAge plan) (fetch_plan plan)
               (''update check failed ('' @ describeTransport e @ ''); showing the last known release''))
              \<lparr>co_transport := e, usedMirror := mirror\<rparr>
        | None \<Rightarrow>
            empty_CheckOutcome\<lparr>co_plan := fetch_plan plan, co_transport := e, usedMirror := mirror,
              co_detail := describeTransport e, co_decision := unreadableManifest (describeTransport e)\<rparr>)
   }"

text \<open>An answer: re-stamp the cache on 304, and never cache a document this build cannot read.\<close>

definition check_answered ::
  "'w FileStore \<Rightarrow> (string \<Rightarrow> json option) \<Rightarrow> (json \<Rightarrow> string) \<Rightarrow> int \<Rightarrow> SelfUpdateConfig \<Rightarrow>
   (CacheMetadata \<times> string) option \<Rightarrow> BackoffState \<Rightarrow> FetchDecision \<Rightarrow> bool \<Rightarrow> Response \<Rightarrow> ('w, CheckOutcome) state" where
  "check_answered fs jparse jdump now config cached backoff plan mirror response =
     (let source = (if mirror then mirrorUrl config else manifestUrl config) in
      if resp_status response = 304 \<and> cached \<noteq> None then do {
        let meta = fst (the cached);
        let document = snd (the cached);
        _ \<leftarrow> storeCache fs jdump config document (if etag meta = [] then ifNoneMatch plan else etag meta)
          (if sourceUrl meta = [] then source else sourceUrl meta) now;
        saveBackoff fs jdump config (afterSuccess backoff now);
        State_Monad.return
          ((fromDocument jparse config document True 0 (fetch_plan plan) ''not modified since last check'')
             \<lparr>usedMirror := mirror\<rparr>)
      }
      else do {
        let out = (fromDocument jparse config (resp_body response) False 0 (fetch_plan plan)
          ''fetched a fresh manifest'')\<lparr>usedMirror := mirror\<rparr>;
        if upd_action (co_decision out) = ManifestUnreadable then do {
          saveBackoff fs jdump config (afterFailure backoff now (su_backoff config) (of_int now));
          State_Monad.return
            (case cached of
               Some (_, document) \<Rightarrow>
                 (fromDocument jparse config document True (cacheAge plan) (fetch_plan plan)
                    (''the published manifest could not be read ('' @ co_detail out @
                     ''); showing the last known release''))\<lparr>usedMirror := mirror\<rparr>
             | None \<Rightarrow> out)
        }
        else do {
          _ \<leftarrow> storeCache fs jdump config (resp_body response) (resp_etag response) source now;
          saveBackoff fs jdump config (afterSuccess backoff now);
          State_Monad.return out
        }
      })"

definition check ::
  "'w HttpGateway \<Rightarrow> 'w FileStore \<Rightarrow> (string \<Rightarrow> json option) \<Rightarrow> (json \<Rightarrow> string) \<Rightarrow> int \<Rightarrow> SelfUpdateConfig \<Rightarrow>
   ('w, CheckOutcome) state" where
  "check http fs jparse jdump now config = do {
     cached \<leftarrow> loadCache fs jparse config;
     backoff \<leftarrow> loadBackoff fs jparse config;
     let plan = planManifestFetch (map_option fst cached) backoff now (cacheTtlSeconds config) (su_backoff config);
     if fetch_plan plan = ServeCache \<or> fetch_plan plan = DeferToCache then
       State_Monad.return
         (fromDocument jparse config (snd (the cached)) True (cacheAge plan) (fetch_plan plan) (fetch_reason plan))
     else if fetch_plan plan = DeferNoCache then
       State_Monad.return
         (empty_CheckOutcome\<lparr>co_plan := fetch_plan plan, co_decision := unreadableManifest (fetch_reason plan),
            co_detail := fetch_reason plan\<rparr>)
     else do {
       r \<leftarrow> fetch_manifest http config (ifNoneMatch plan);
       case snd r of
         Inl e \<Rightarrow> check_failed fs jparse jdump now config cached backoff plan (fst r) e
       | Inr response \<Rightarrow> check_answered fs jparse jdump now config cached backoff plan (fst r) response
     }
   }"

section \<open>Staging\<close>

definition discardStaged :: "'w FileStore \<Rightarrow> SelfUpdateConfig \<Rightarrow> ('w, unit) state" where
  "discardStaged fs config = do {
     _ \<leftarrow> fs_remove fs (handoffPath config);
     _ \<leftarrow> fs_remove fs (stagedNroPath config @ ''.part'');
     _ \<leftarrow> fs_remove fs (stagedNroPath config);
     _ \<leftarrow> fs_remove fs (backupNroPath config);
     State_Monad.return ()
   }"

definition discardStalePartials :: "'w FileStore \<Rightarrow> SelfUpdateConfig \<Rightarrow> ('w, unit) state" where
  "discardStalePartials fs config = do {
     _ \<leftarrow> fs_remove fs (stagedNroPath config @ ''.part'');
     State_Monad.return ()
   }"

definition ensureForwarder :: "'w FileStore \<Rightarrow> SelfUpdateConfig \<Rightarrow> ('w, bool) state" where
  "ensureForwarder fs config = do {
     there \<leftarrow> fs_exists fs (su_forwarderNro config);
     if there then State_Monad.return True
     else do {
       make_parent fs (su_forwarderNro config);
       copied \<leftarrow> fs_copyFile fs (forwarderSource config) (su_forwarderNro config);
       if \<not> copied then State_Monad.return False
       else fs_exists fs (su_forwarderNro config)
     }
   }"

definition installForwarder :: "'w FileStore \<Rightarrow> SelfUpdateConfig \<Rightarrow> ('w, bool) state" where
  "installForwarder fs config = do {
     chainloadable \<leftarrow> ensureForwarder fs config;
     there \<leftarrow> fs_exists fs (repairEntryNro config);
     if \<not> there then do {
       make_parent fs (repairEntryNro config);
       _ \<leftarrow> fs_copyFile fs (forwarderSource config) (repairEntryNro config);
       State_Monad.return chainloadable
     }
     else State_Monad.return chainloadable
   }"

definition kTransientAttempts :: int where
  "kTransientAttempts = 3"

definition kDigestAttempts :: int where
  "kDigestAttempts = 2"

text \<open>The download loop with its two counters; the result is the last error.\<close>

function download_loop ::
  "'w HttpGateway \<Rightarrow> string \<Rightarrow> string \<Rightarrow> ExpectedArtifact \<Rightarrow> ProgressCallback \<Rightarrow> int \<Rightarrow> int \<Rightarrow> ('w, HttpError) state" where
  "download_loop http url dest expected onProgress transientTries digestTries = do {
     downloaded \<leftarrow> http_download http url dest expected onProgress;
     case downloaded of
       Inr _ \<Rightarrow> State_Monad.return NoError
     | Inl lastError \<Rightarrow>
         if lastError = DigestMismatch \<and> digestTries + 1 < kDigestAttempts then
           download_loop http url dest expected onProgress transientTries (digestTries + 1)
         else if isTransient lastError \<and> transientTries + 1 < kTransientAttempts then
           download_loop http url dest expected onProgress (transientTries + 1) digestTries
         else State_Monad.return lastError
   }"
  by pat_completeness auto
termination
  by (relation "measure (\<lambda>(http, url, dest, expected, onProgress, t, d).
        nat (kTransientAttempts - t) + nat (kDigestAttempts - d))")
    (auto simp: kTransientAttempts_def kDigestAttempts_def)

declare download_loop.simps [simp del]

definition stage_headroom :: "SelfUpdateConfig \<Rightarrow> 64 word \<Rightarrow> 64 word" where
  "stage_headroom config sz = sz * of_int (su_headroomPercent config) div 100"

definition stage_needed :: "SelfUpdateConfig \<Rightarrow> 64 word \<Rightarrow> 64 word" where
  "stage_needed config sz = sz + stage_headroom config sz"

definition megabytes :: "64 word \<Rightarrow> string" where
  "megabytes n = show_nat (unat (n div 1024 div 1024))"

definition handoff_for :: "SelfUpdateConfig \<Rightarrow> int \<Rightarrow> UpdateManifest \<Rightarrow> ManifestAsset \<Rightarrow> Handoff" where
  "handoff_for config nowUnix manifest asset =
     \<lparr>schemaVersion = kSupportedHandoffSchema, createdAtUnix = nowUnix,
      fromVersion = toString (su_installed config), toVersion = toString (man_version manifest),
      stagedNro = stagedNroPath config, stagedSha256 = asset_sha256 asset, targetNro = su_targetNro config,
      backupNro = backupNroPath config, forwarderNro = su_forwarderNro config, attempts = 0,
      maxAttempts = maxSwapAttempts config\<rparr>"

text \<open>Withdrawing a staged binary that cannot be handed off.\<close>

definition withdraw :: "'w FileStore \<Rightarrow> SelfUpdateConfig \<Rightarrow> StageResult \<Rightarrow> string \<Rightarrow> ('w, StageOutcome) state" where
  "withdraw fs config r detail = do {
     _ \<leftarrow> fs_remove fs (stagedNroPath config);
     State_Monad.return (stage_stop r detail)
   }"

text \<open>The forwarder is confirmed before the handoff is written, and the handoff is read back first.\<close>

definition hand_off ::
  "'w FileStore \<Rightarrow> (string \<Rightarrow> json option) \<Rightarrow> (json \<Rightarrow> string) \<Rightarrow> int \<Rightarrow> SelfUpdateConfig \<Rightarrow> UpdateManifest \<Rightarrow>
   ManifestAsset \<Rightarrow> ('w, StageOutcome) state" where
  "hand_off fs jparse jdump nowUnix config manifest asset = do {
     ready \<leftarrow> ensureForwarder fs config;
     if \<not> ready then
       withdraw fs config ForwarderUnavailable
         (''could not restore '' @ su_forwarderNro config @ '' from '' @ forwarderSource config)
     else do {
       let handoff = handoff_for config nowUnix manifest asset;
       let document = serializeHandoff jdump handoff;
       case parseHandoff jparse document of
         Inl e \<Rightarrow>
           withdraw fs config StageWriteFailed
             (''refusing to write a handoff this build would reject: '' @ describe_HandoffError e)
       | Inr _ \<Rightarrow> do {
           recorded \<leftarrow> fs_writeAtomic fs (handoffPath config) document;
           if \<not> recorded then withdraw fs config StageWriteFailed (''could not write '' @ handoffPath config)
           else State_Monad.return
             \<lparr>so_result = Staged, so_handoff = Some handoff, forwarderPath = su_forwarderNro config,
              forwarderArgs = [CHR 0x22] @ su_forwarderNro config @ [CHR 0x22] @ '' --handoff='' @ handoffPath config,
              so_transport = NoError,
              so_detail = ''staged '' @ toVersion handoff @ ''; restart to install''\<rparr>
         }
     }
   }"

definition download_failure :: "HttpError \<Rightarrow> StageOutcome" where
  "download_failure e =
     (let r = (if e = DigestMismatch \<or> e = SizeMismatch then VerifyFailed else DownloadFailed) in
      empty_StageOutcome\<lparr>so_transport := e, so_result := r,
        so_detail := describeTransport e @
          (if r = VerifyFailed then '' - the update was discarded and your current version is untouched'' else [])\<rparr>)"

definition stage_asset ::
  "'w HttpGateway \<Rightarrow> 'w FileStore \<Rightarrow> (string \<Rightarrow> json option) \<Rightarrow> (json \<Rightarrow> string) \<Rightarrow> int \<Rightarrow> SelfUpdateConfig \<Rightarrow>
   UpdateManifest \<Rightarrow> ManifestAsset \<Rightarrow> ProgressCallback \<Rightarrow> ('w, StageOutcome) state" where
  "stage_asset http fs jparse jdump nowUnix config manifest asset onProgress = do {
     _ \<leftarrow> fs_remove fs (stagedNroPath config @ ''.part'');
     lastError \<leftarrow> download_loop http (asset_url asset) (stagedNroPath config)
       \<lparr>expected_size = asset_size asset, expected_sha256 = asset_sha256 asset\<rparr> onProgress 0 0;
     if lastError \<noteq> NoError then State_Monad.return (download_failure lastError)
     else do {
       onDisk \<leftarrow> fs_digestOf fs (stagedNroPath config);
       if (case onDisk of None \<Rightarrow> True | Some d \<Rightarrow> \<not> digestsEqual d (asset_sha256 asset)) then
         withdraw fs config VerifyFailed ''the staged binary did not verify after it was written''
       else hand_off fs jparse jdump nowUnix config manifest asset
     }
   }"

definition stage ::
  "'w HttpGateway \<Rightarrow> 'w FileStore \<Rightarrow> (string \<Rightarrow> json option) \<Rightarrow> (json \<Rightarrow> string) \<Rightarrow> int \<Rightarrow> SelfUpdateConfig \<Rightarrow>
   UpdateManifest \<Rightarrow> ProgressCallback \<Rightarrow> ('w, StageOutcome) state" where
  "stage http fs jparse jdump nowUnix config manifest onProgress =
     (case findAsset manifest AppNro of
        None \<Rightarrow> State_Monad.return (stage_stop NoAppAsset ''the manifest describes no app-nro asset'')
      | Some asset \<Rightarrow> do {
          made \<leftarrow> fs_makeDirectories fs (su_stagingDir config);
          if \<not> made then
            State_Monad.return (stage_stop StageWriteFailed (''could not create '' @ su_stagingDir config))
          else do {
            free \<leftarrow> fs_freeSpaceBytes fs (su_stagingDir config);
            let needed = stage_needed config (asset_size asset);
            if free \<noteq> None \<and> the free < needed then
              State_Monad.return (stage_stop InsufficientSpace
                (''need '' @ megabytes needed @ '' MB free, have '' @ megabytes (the free) @ '' MB''))
            else stage_asset http fs jparse jdump nowUnix config manifest asset onProgress
          }
        })"

end
