(* ===== verification/Gateways.thy ===== *)
theory Gateways
  imports Curl_Client Zip_Extractor Sd_File_Store
begin

text \<open>
  The adapters that connect the ports to the transfers, the archives and the clock:
  \<^verbatim>\<open>domain/selfupdate/curl_gateway.cpp\<close>, \<^verbatim>\<open>domain/cfw/zip_archive_gateway.cpp\<close> and
  \<^verbatim>\<open>domain/selfupdate/system_clock.cpp\<close>.  The network may behave differently from one request to the
  next, so its behaviour is given for each point in time.
\<close>

definition gateway_fetch :: "(nat \<Rightarrow> network) \<Rightarrow> string \<Rightarrow> string \<Rightarrow> (HttpError, Response) result io" where
  "gateway_fetch net url ifNoneMatch = State (\<lambda>w. (curl_get (net (tick w)) url (push_bit 20 1) ifNoneMatch, w))"

definition gateway_download ::
  "(nat \<Rightarrow> network) \<Rightarrow> string \<Rightarrow> string \<Rightarrow> ExpectedArtifact \<Rightarrow> ProgressCallback \<Rightarrow> (HttpError, unit) result io" where
  "gateway_download net url destPath expected onProgress =
     State (\<lambda>w. run_state (curl_download (net (tick w)) url destPath expected onProgress) w)"

definition curl_gateway :: "(nat \<Rightarrow> network) \<Rightarrow> sd HttpGateway" where
  "curl_gateway net = \<lparr>http_fetch = gateway_fetch net, http_download = gateway_download net\<rparr>"

definition zip_gateway :: "zip_library \<Rightarrow> sd ArchiveGateway" where
  "zip_gateway lib = \<lparr>arch_extract = extractZip lib\<rparr>"

text \<open>What \<^verbatim>\<open>time\<close> returns, with no clock read as the epoch.\<close>

definition nowUnix :: "int \<Rightarrow> int" where
  "nowUnix now = (if now = -1 then 0 else now)"

section \<open>What the gateways do to the card\<close>

lemma wp_gateway_fetch:
  assumes "\<And>r. Q r w"
  shows "wp_io (gateway_fetch net url tag) Q w"
  using assms by (simp add: gateway_fetch_def wp_io_def)

lemma wp_gateway_download:
  assumes "length (expected_sha256 ex) = kDigestSize" and "\<And>r w'. fetched dest ex w r w' \<Longrightarrow> Q r w'"
  shows "wp_io (gateway_download net url dest ex cb) Q w"
  using assms(2) wp_curl_download [OF assms(1), of "net (tick w)" url dest cb w]
  by (auto simp: gateway_download_def wp_io_def split: prod.splits)

end
