(* ===== verification/Update_Staging.thy ===== *)
theory Update_Staging
  imports Update_Service Gateways Store_Laws Swap
begin

text \<open>
  What the update service promises.  The ports it uses are a contract, kept by the transfers and the SD card
  whatever faults occur; the facts about checking and staging are proved from the contract.  The last part
  composes staging with the forwarder: an update reported as staged is installed by the next boot.
\<close>

section \<open>The contract of the ports\<close>

locale update_ports =
  fixes http :: "'w HttpGateway" and fs :: "'w FileStore" and cont :: "'w \<Rightarrow> string \<Rightarrow> string option"
    and answer :: "string \<Rightarrow> (HttpError, Response) result \<Rightarrow> bool"
  assumes exists_law: "wp_io (fs_exists fs p) Q w = Q (cont w p \<noteq> None) w"
    and digest_law: "wp_io (fs_digestOf fs p) D w = D (map_option (\<lambda>d. sha256_spec (bytes_of d)) (cont w p)) w"
    and space_law: "(\<And>r. S r w) \<Longrightarrow> wp_io (fs_freeSpaceBytes fs p) S w"
    and read_law: "(\<And>r. r = None \<or> r = cont w p \<Longrightarrow> R r w) \<Longrightarrow> wp_io (fs_readText fs p limit) R w"
    and mkdirs_law: "(\<And>w' b. cont w' = cont w \<Longrightarrow> Q b w') \<Longrightarrow> wp_io (fs_makeDirectories fs p) Q w"
    and remove_law: "(\<And>w' b. cont w' = cont w \<or> cont w' = (cont w)(p := None) \<Longrightarrow> Q b w') \<Longrightarrow>
      wp_io (fs_remove fs p) Q w"
    and copy_law: "from \<noteq> to \<Longrightarrow>
      (\<And>w' d. \<forall>q. q \<noteq> to \<longrightarrow> cont w' q = cont w q \<Longrightarrow> cont w from = Some d \<Longrightarrow> cont w' to = Some d \<Longrightarrow> Q True w') \<Longrightarrow>
      (\<And>w'. \<forall>q. q \<noteq> to \<longrightarrow> cont w' q = cont w q \<Longrightarrow> Q False w') \<Longrightarrow>
      wp_io (fs_copyFile fs from to) Q w"
    and write_law:
      "(\<And>w'. \<forall>q. q \<noteq> p \<longrightarrow> q \<noteq> p @ ''.tmp'' \<longrightarrow> cont w' q = cont w q \<Longrightarrow> cont w' p = Some data \<Longrightarrow> Q True w') \<Longrightarrow>
      (\<And>w'. \<forall>q. q \<noteq> p \<longrightarrow> q \<noteq> p @ ''.tmp'' \<longrightarrow> cont w' q = cont w q \<Longrightarrow>
        cont w' p = cont w p \<or> cont w' p = None \<Longrightarrow> Q False w') \<Longrightarrow>
      wp_io (fs_writeAtomic fs p data) Q w"
    and fetch_law: "(\<And>r. answer url r \<Longrightarrow> F r w) \<Longrightarrow> wp_io (http_fetch http url tag) F w"
    and download_law: "length (expected_sha256 ex) = kDigestSize \<Longrightarrow>
      (\<And>r w'. \<forall>q. q \<noteq> dest \<longrightarrow> q \<noteq> dest @ ''.part'' \<longrightarrow> cont w' q = cont w q \<Longrightarrow>
        (case r of Inr _ \<Rightarrow> \<exists>d. cont w' dest = Some d \<and> verified ex d
         | Inl _ \<Rightarrow> cont w' dest = cont w dest \<or> cont w' dest = None) \<Longrightarrow> G r w') \<Longrightarrow>
      wp_io (http_download http url dest ex cb) G w"

text \<open>The transfers over the network and the file store on the card keep it, with any faults.\<close>

lemma mkdirs_content: "wp_io (forM ds c_mkdir) (\<lambda>_ w'. content w' = content w) w"
  by (rule wp_forM) (auto simp: c_mkdir_def wp_io_def Let_def content_def [abs_def] split: outcome.splits)

lemma store_digestOf_spec:
  "wp_io (store_digestOf p) Q w = Q (map_option (\<lambda>d. sha256_spec (bytes_of d)) (content w p)) w"
proof -
  have "fst (finish (foldl update reset (map bytes_of (store_chunks d)))) = sha256_spec (bytes_of d)" for d
  proof -
    have "concat (map bytes_of xs) = bytes_of (concat xs)" for xs
      by (induction xs) (simp_all add: bytes_of_def)
    then show ?thesis using store_chunks_concat [of d] by (simp add: sha.chunked)
  qed
  then show ?thesis by (simp add: store_digestOf_def wp)
qed

text \<open>The file store and the forwarder write and copy files in the same way.\<close>

lemma store_writeAtomic_eq: "store_writeAtomic = writeFileAtomic"
  by (intro ext) (simp add: store_writeAtomic_def writeFileAtomic_def)

lemma store_copyFile_eq: "store_copyFile = copyFile"
  by (intro ext) (simp add: store_copyFile_def copyFile_def)

lemma read_loop_Some: "read_loop maxBytes out bufs = Some r \<Longrightarrow> r = out @ concat bufs"
  by (induction maxBytes out bufs rule: read_loop.induct) (auto split: if_splits)

lemma store_readText_any:
  assumes "\<And>r. r = None \<or> r = content w p \<Longrightarrow> Q r w"
  shows "wp_io (store_readText p limit) Q w"
proof (cases "content w p")
  case (Some d)
  have "read_loop limit [] (store_chunks d) = None \<or> read_loop limit [] (store_chunks d) = Some d"
    using read_loop_Some [of limit "[]" "store_chunks d"] store_chunks_concat [of d]
    by (cases "read_loop limit [] (store_chunks d)") auto
  with Some show ?thesis using assms by (auto simp: store_readText_def wp)
qed (use assms in \<open>simp add: store_readText_def wp\<close>)

lemma store_makeDirectories_any:
  assumes "\<And>w' b. content w' = content w \<Longrightarrow> Q b w'"
  shows "wp_io (store_makeDirectories p) Q w"
proof -
  have "wp_io (forM (mkdir_list p) c_mkdir) (\<lambda>_. wp_io (c_is_dir p) Q) w"
    by (rule wp_mono [OF mkdirs_content]) (simp add: c_is_dir_def wp_io_def assms)
  then show ?thesis using assms by (simp add: store_makeDirectories_def wp)
qed

lemma store_remove_any:
  assumes "\<And>w' b. content w' = content w \<or> content w' = (content w)(p := None) \<Longrightarrow> Q b w'"
  shows "wp_io (store_remove p) Q w"
  unfolding store_remove_def wp_bind
  by (rule wp_remove) (simp_all add: store_exists_law wp assms)

text \<open>What the client can make of what the network sends for an address.\<close>

definition served :: "(nat \<Rightarrow> network) \<Rightarrow> string \<Rightarrow> (HttpError, Response) result \<Rightarrow> bool" where
  "served net url r = (\<exists>n tag. r = curl_get (net n) url (push_bit 20 1) tag)"

interpretation live: update_ports "curl_gateway net" "sd_store vfs" content "served net"
proof (unfold_locales, goal_cases)
  case (1 p Q w)
  show ?case by (simp add: sd_store_def store_exists_law)
next
  case (2 p D w)
  show ?case by (simp add: sd_store_def store_digestOf_spec)
next
  case (3 S w p)
  then show ?case by (simp add: sd_store_def store_freeSpaceBytes_def wp)
next
  case (4 w p R limit)
  then have "wp_io (store_readText p limit) R w" by (rule store_readText_any)
  then show ?case by (simp add: sd_store_def)
next
  case (5 w Q p)
  then have "wp_io (store_makeDirectories p) Q w" by (rule store_makeDirectories_any)
  then show ?case by (simp add: sd_store_def)
next
  case (6 w p Q)
  then have "wp_io (store_remove p) Q w" by (rule store_remove_any)
  then show ?case by (simp add: sd_store_def)
next
  case (7 "from" to w Q)
  have "wp_io (store_copyFile from to) Q w"
    unfolding store_copyFile_eq by (rule wp_copyFile [OF 7(1)]) (rule 7(3) 7(2); simp add: frame_def)+
  then show ?case by (simp add: sd_store_def)
next
  case (8 p w data Q)
  have "wp_io (store_writeAtomic p data) Q w"
    unfolding store_writeAtomic_eq by (rule wp_writeFileAtomic) (rule 8(1) 8(2); auto simp: frame_def)+
  then show ?case by (simp add: sd_store_def)
next
  case (9 url F w tag)
  have "F (curl_get (net (tick w)) url (push_bit 20 1) tag) w"
    by (rule 9) (auto simp: served_def)
  then show ?case by (simp add: curl_gateway_def gateway_fetch_def wp_io_def)
next
  case (10 ex dest w G url cb)
  have "wp_io (gateway_download net url dest ex cb) G w"
    by (rule wp_gateway_download [OF 10(1)], rule 10(2)) (simp_all add: fetched_def frame_def)
  then show ?case by (simp add: curl_gateway_def)
qed

section \<open>Staging\<close>

text \<open>The files staging may change, and the files of the update being different files.\<close>

definition stage_footprint :: "SelfUpdateConfig \<Rightarrow> string set" where
  "stage_footprint config =
     {handoffPath config, handoffPath config @ ''.tmp'', stagedNroPath config, stagedNroPath config @ ''.part'',
      su_forwarderNro config}"

definition separate :: "SelfUpdateConfig \<Rightarrow> bool" where
  "separate config =
     distinct [handoffPath config, handoffPath config @ ''.tmp'', stagedNroPath config,
       stagedNroPath config @ ''.part'', backupNroPath config, su_forwarderNro config, forwarderSource config,
       su_targetNro config, su_targetNro config @ ''.new'']"

text \<open>Nothing else changes, and a forwarder that is there stays as it is.\<close>

definition stage_effect ::
  "SelfUpdateConfig \<Rightarrow> (string \<Rightarrow> string option) \<Rightarrow> (string \<Rightarrow> string option) \<Rightarrow> bool" where
  "stage_effect config f f' =
     ((\<forall>q. q \<notin> stage_footprint config \<longrightarrow> f' q = f q) \<and>
      (f (su_forwarderNro config) \<noteq> None \<longrightarrow> f' (su_forwarderNro config) = f (su_forwarderNro config)))"

text \<open>The card carries a complete update: the verified binary, the handoff and a forwarder.\<close>

definition update_ready ::
  "(string \<Rightarrow> json option) \<Rightarrow> (json \<Rightarrow> string) \<Rightarrow> SelfUpdateConfig \<Rightarrow> Handoff \<Rightarrow> (string \<Rightarrow> string option) \<Rightarrow> bool" where
  "update_ready jparse jdump config h f =
     ((\<exists>d. f (stagedNro h) = Some d \<and> sha256_spec (bytes_of d) = stagedSha256 h) \<and>
      f (handoffPath config) = Some (serializeHandoff jdump h) \<and>
      (\<exists>h'. parseHandoff jparse (serializeHandoff jdump h) = Inr h') \<and> f (su_forwarderNro config) \<noteq> None)"

text \<open>Either the update is ready, or no handoff was written.\<close>

definition stage_post ::
  "(string \<Rightarrow> json option) \<Rightarrow> (json \<Rightarrow> string) \<Rightarrow> SelfUpdateConfig \<Rightarrow> Handoff \<Rightarrow> (string \<Rightarrow> string option) \<Rightarrow>
   StageOutcome \<Rightarrow> (string \<Rightarrow> string option) \<Rightarrow> bool" where
  "stage_post jparse jdump config h f out f' =
     (stage_effect config f f' \<and>
      (if so_result out = Staged then so_handoff out = Some h \<and> update_ready jparse jdump config h f'
       else so_handoff out = None \<and>
         (f' (handoffPath config) = f (handoffPath config) \<or> f' (handoffPath config) = None)))"

lemma staging_paths [simp]:
  "handoffPath config \<noteq> stagedNroPath config" "stagedNroPath config \<noteq> handoffPath config"
  "handoffPath config \<noteq> stagedNroPath config @ ''.part''" "stagedNroPath config @ ''.part'' \<noteq> handoffPath config"
  "stagedNroPath config \<noteq> handoffPath config @ ''.tmp''" "handoffPath config @ ''.tmp'' \<noteq> stagedNroPath config"
  by (simp_all add: handoffPath_def stagedNroPath_def)

lemma stage_effect_trans:
  "stage_effect config f g \<Longrightarrow> stage_effect config g h \<Longrightarrow> stage_effect config f h"
  by (auto simp: stage_effect_def)

lemma stage_effect_staged:
  assumes "separate config"
    and "\<forall>q. q \<noteq> stagedNroPath config \<longrightarrow> q \<noteq> stagedNroPath config @ ''.part'' \<longrightarrow> f' q = f q"
  shows "stage_effect config f f'" and "f' (handoffPath config) = f (handoffPath config)"
proof -
  have "su_forwarderNro config \<noteq> stagedNroPath config" "su_forwarderNro config \<noteq> stagedNroPath config @ ''.part''"
    using assms(1) by (auto simp: separate_def)
  then show "stage_effect config f f'" using assms(2) by (simp add: stage_effect_def stage_footprint_def)
  show "f' (handoffPath config) = f (handoffPath config)" using assms(2) by simp
qed

lemma stage_stop_fields [simp]:
  "so_result (stage_stop r detail) = r" "so_handoff (stage_stop r detail) = None"
  by (simp_all add: stage_stop_def empty_StageOutcome_def)

lemma download_failure_fields [simp]:
  "so_result (download_failure e) \<noteq> Staged" "so_handoff (download_failure e) = None"
  by (simp_all add: download_failure_def empty_StageOutcome_def Let_def)

context update_ports
begin

lemma wp_download_loop:
  assumes "length (expected_sha256 ex) = kDigestSize"
    and "\<And>e w'. \<forall>q. q \<noteq> dest \<longrightarrow> q \<noteq> dest @ ''.part'' \<longrightarrow> cont w' q = cont w q \<Longrightarrow> Q e w'"
  shows "wp_io (download_loop http url dest ex cb t d) Q w"
  using assms(2)
proof (induction "nat (kTransientAttempts - t) + nat (kDigestAttempts - d)" arbitrary: t d w rule: less_induct)
  case less
  show ?case
  proof (subst download_loop.simps, unfold wp, rule download_law [OF assms(1)])
    fix r w1
    assume w1: "\<forall>q. q \<noteq> dest \<longrightarrow> q \<noteq> dest @ ''.part'' \<longrightarrow> cont w1 q = cont w q"
    have again: "wp_io (download_loop http url dest ex cb t' d') Q w1"
      if "nat (kTransientAttempts - t') + nat (kDigestAttempts - d') <
        nat (kTransientAttempts - t) + nat (kDigestAttempts - d)" for t' d'
      by (rule less(1) [OF that]) (rule less(2), use w1 in simp)
    have stop: "Q e w1" for e by (rule less(2) [OF w1])
    show "(case r of
        Inl lastError \<Rightarrow>
          if lastError = HttpError.DigestMismatch \<and> d + 1 < kDigestAttempts then
            wp_io (download_loop http url dest ex cb t (d + 1)) Q
          else if isTransient lastError \<and> t + 1 < kTransientAttempts then
            wp_io (download_loop http url dest ex cb (t + 1) d) Q
          else Q lastError
      | Inr _ \<Rightarrow> Q NoError) w1"
      using again [of t "d + 1"] again [of "t + 1" d] stop by (cases r) simp_all
  qed
qed

lemma wp_make_parent:
  assumes "\<And>w'. cont w' = cont w \<Longrightarrow> Q () w'"
  shows "wp_io (make_parent fs path) Q w"
proof -
  have "wp_io (fs_makeDirectories fs (parent_dir path)) (\<lambda>_. Q ()) w" by (rule mkdirs_law) (rule assms)
  then show ?thesis using assms [of w] by (simp add: make_parent_def wp)
qed

lemma wp_ensureForwarder:
  assumes "forwarderSource config \<noteq> su_forwarderNro config"
    and "\<And>w' b. \<forall>q. q \<noteq> su_forwarderNro config \<longrightarrow> cont w' q = cont w q \<Longrightarrow>
      (cont w (su_forwarderNro config) \<noteq> None \<Longrightarrow> cont w' (su_forwarderNro config) = cont w (su_forwarderNro config)) \<Longrightarrow>
      (b \<Longrightarrow> cont w' (su_forwarderNro config) \<noteq> None) \<Longrightarrow> Q b w'"
  shows "wp_io (ensureForwarder fs config) Q w"
proof (cases "cont w (su_forwarderNro config) = None")
  case True
  have "wp_io (make_parent fs (su_forwarderNro config))
      (\<lambda>_. wp_io (fs_copyFile fs (forwarderSource config) (su_forwarderNro config))
        (\<lambda>copied. if \<not> copied then Q False else wp_io (fs_exists fs (su_forwarderNro config)) Q)) w"
  proof (rule wp_make_parent, rule copy_law [OF assms(1)], goal_cases)
    case (1 w1 w2 d)
    then have "Q True w2" using True by (intro assms(2)) simp_all
    then show ?case using 1 by (simp add: exists_law)
  next
    case (2 w1 w2)
    then have "Q False w2" using True by (intro assms(2)) simp_all
    then show ?case by simp
  qed
  then show ?thesis using True unfolding ensureForwarder_def wp exists_law by simp
next
  case False
  have "Q True w" using False by (intro assms(2)) simp_all
  then show ?thesis using False unfolding ensureForwarder_def wp exists_law by simp
qed

lemma wp_withdraw:
  assumes "separate config" and "r \<noteq> Staged" and "stage_effect config f (cont w)"
    and "cont w (handoffPath config) = f (handoffPath config) \<or> cont w (handoffPath config) = None"
  shows "wp_io (withdraw fs config r detail) (\<lambda>out w'. stage_post jparse jdump config h f out (cont w')) w"
  unfolding withdraw_def wp
proof (rule remove_law)
  fix w' and b :: bool
  assume "cont w' = cont w \<or> cont w' = (cont w)(stagedNroPath config := None)"
  then have "\<forall>q. q \<noteq> stagedNroPath config \<longrightarrow> q \<noteq> stagedNroPath config @ ''.part'' \<longrightarrow> cont w' q = cont w q" by auto
  from stage_effect_staged [OF assms(1) this]
  show "stage_post jparse jdump config h f (stage_stop r detail) (cont w')"
    using assms(2-4) stage_effect_trans [of config f "cont w" "cont w'"] by (simp add: stage_post_def)
qed

lemma wp_hand_off:
  assumes h_def: "h = handoff_for config now manifest asset" and sep: "separate config" and eff: "stage_effect config f (cont w)"
    and hp: "cont w (handoffPath config) = f (handoffPath config) \<or> cont w (handoffPath config) = None"
    and d: "cont w (stagedNroPath config) = Some d" "sha256_spec (bytes_of d) = asset_sha256 asset"
  shows "wp_io (hand_off fs jparse jdump now config manifest asset)
    (\<lambda>out w'. stage_post jparse jdump config h f out (cont w')) w"
proof -
  let ?fwd = "su_forwarderNro config" and ?hp = "handoffPath config" and ?st = "stagedNroPath config"
  let ?Q = "\<lambda>out w'. stage_post jparse jdump config h f out (cont w')"
  have ne: "?fwd \<noteq> ?hp" "?fwd \<noteq> ?hp @ ''.tmp''" "?fwd \<noteq> ?st" "forwarderSource config \<noteq> ?fwd"
    using sep by (auto simp: separate_def)
  have h: "stagedNro h = ?st" "stagedSha256 h = asset_sha256 asset" by (simp_all add: h_def handoff_for_def)
  show ?thesis
    unfolding hand_off_def Let_def wp h_def [symmetric]
  proof (rule wp_ensureForwarder [OF ne(4)], goal_cases)
    case (1 w1 ready)
    have eff1: "stage_effect config f (cont w1)"
      by (rule stage_effect_trans [OF eff]) (use 1(1, 2) in \<open>simp add: stage_effect_def stage_footprint_def\<close>)
    note same1 = 1(1) and ready1 = 1(3)
    have hp1: "cont w1 ?hp = f ?hp \<or> cont w1 ?hp = None" using 1(1) ne(1) hp by simp
    note withdrawn = wp_withdraw [OF sep _ eff1 hp1, of _ _ jparse jdump h]
    have recording: "wp_io (fs_writeAtomic fs ?hp (serializeHandoff jdump h)) (\<lambda>recorded.
        if \<not> recorded then wp_io (withdraw fs config StageWriteFailed (''could not write '' @ ?hp)) ?Q
        else ?Q \<lparr>so_result = Staged, so_handoff = Some h, forwarderPath = ?fwd,
           forwarderArgs = [CHR 0x22] @ ?fwd @ [CHR 0x22] @ '' --handoff='' @ ?hp, so_transport = NoError,
           so_detail = ''staged '' @ toVersion h @ ''; restart to install''\<rparr>) w1"
      if ok: "ready" "parseHandoff jparse (serializeHandoff jdump h) = Inr h'" for h'
    proof (rule write_law, goal_cases)
      case (1 w2)
      have "cont w1 ?fwd \<noteq> None" using ready1 ok(1) .
      then have "update_ready jparse jdump config h (cont w2)"
        using 1 same1 ne d ok(2) h by (auto simp: update_ready_def)
      moreover have "stage_effect config f (cont w2)"
        by (rule stage_effect_trans [OF eff1]) (use 1 ne in \<open>simp add: stage_effect_def stage_footprint_def\<close>)
      ultimately show ?case by (simp add: stage_post_def)
    next
      case (2 w2)
      have "stage_effect config f (cont w2)"
        by (rule stage_effect_trans [OF eff1]) (use 2 ne in \<open>simp add: stage_effect_def stage_footprint_def\<close>)
      then show ?case using wp_withdraw [OF sep _ _ , of StageWriteFailed f w2] 2(2) hp1 by auto
    qed
    show ?case
      using withdrawn recording
      by (cases "parseHandoff jparse (serializeHandoff jdump h)") (simp_all cong del: if_weak_cong)
  qed
qed

lemma wp_stage_asset:
  assumes h: "h = handoff_for config now manifest asset" and sep: "separate config"
    and len: "length (asset_sha256 asset) = kDigestSize"
  shows "wp_io (stage_asset http fs jparse jdump now config manifest asset cb)
    (\<lambda>out w'. stage_post jparse jdump config h (cont w) out (cont w')) w"
  unfolding stage_asset_def wp_bind
proof (rule remove_law, rule wp_download_loop, goal_cases)
  case (2 w1 b e w2)
  let ?st = "stagedNroPath config"
  have same: "\<forall>q. q \<noteq> ?st \<longrightarrow> q \<noteq> ?st @ ''.part'' \<longrightarrow> cont w2 q = cont w q"
    using 2(1)
  proof
    assume "cont w1 = (cont w)(?st @ ''.part'' := None)"
    then show ?thesis using 2(2) by simp
  qed (use 2(2) in simp)
  note eff = stage_effect_staged [OF sep same]
  have failed: "stage_post jparse jdump config h (cont w) (download_failure e) (cont w2)"
    using eff by (simp add: stage_post_def)
  have lost: "wp_io (withdraw fs config VerifyFailed detail)
      (\<lambda>out w'. stage_post jparse jdump config h (cont w) out (cont w')) w2" for detail
    by (rule wp_withdraw [OF sep]) (use eff in simp_all)
  have ready: "wp_io (hand_off fs jparse jdump now config manifest asset)
      (\<lambda>out w'. stage_post jparse jdump config h (cont w) out (cont w')) w2"
    if "cont w2 ?st = Some d" "digestsEqual (sha256_spec (bytes_of d)) (asset_sha256 asset)" for d
  proof (rule wp_hand_off [OF h sep eff(1) _ that(1)])
    show "sha256_spec (bytes_of d) = asset_sha256 asset"
      using that(2) digestsEqual_iff [of "sha256_spec (bytes_of d)" "asset_sha256 asset"] len by (simp add: length_sha256_spec)
  qed (use eff(2) in simp)
  show ?case
    using failed lost ready unfolding wp digest_law
    by (cases "cont w2 ?st") (simp_all cong del: if_weak_cong)
qed (use len in simp)

lemma wp_stage:
  assumes h: "h = handoff_for config now manifest asset" and sep: "separate config"
    and found: "findAsset manifest AppNro = Some asset" and len: "length (asset_sha256 asset) = kDigestSize"
  shows "wp_io (stage http fs jparse jdump now config manifest cb)
    (\<lambda>out w'. stage_post jparse jdump config h (cont w) out (cont w')) w"
  unfolding stage_def found option.case wp_bind
proof (rule mkdirs_law, goal_cases)
  case (1 w1 made)
  have stop: "stage_post jparse jdump config h (cont w) (stage_stop r detail) (cont w1)" if "r \<noteq> Staged" for r detail
    using 1 that by (simp add: stage_post_def stage_effect_def)
  have "wp_io (stage_asset http fs jparse jdump now config manifest asset cb)
      (\<lambda>out w'. stage_post jparse jdump config h (cont w) out (cont w')) w1"
    using wp_stage_asset [OF h sep len, of jparse jdump cb w1] 1 by simp
  then have "wp_io (fs_freeSpaceBytes fs (su_stagingDir config)) (\<lambda>free.
      wp_io (let needed = stage_needed config (asset_size asset) in
        if free \<noteq> None \<and> the free < needed then
          State_Monad.return (stage_stop InsufficientSpace
            (''need '' @ megabytes needed @ '' MB free, have '' @ megabytes (the free) @ '' MB''))
        else stage_asset http fs jparse jdump now config manifest asset cb)
      (\<lambda>out w'. stage_post jparse jdump config h (cont w) out (cont w'))) w1"
    by (intro space_law) (simp add: Let_def wp stop cong del: if_weak_cong)
  then show ?case using stop by (simp add: wp cong del: if_weak_cong)
qed

end

section \<open>From staging to the forwarder\<close>

lemma findAsset_digest:
  assumes "wf_manifest manifest" and "findAsset manifest kind = Some asset"
  shows "length (asset_sha256 asset) = kDigestSize"
proof -
  have "asset \<in> set (man_assets manifest)"
    using assms(2) by (auto simp: findAsset_def find_Some_iff)
  then show ?thesis using assms(1) by (auto simp: wf_manifest_def wf_asset_def list_all_iff)
qed

text \<open>A handoff that is read back at all is read back as it was written.\<close>

lemma parseHandoff_own:
  assumes "reads_back jparse jdump (handoff_document h)" and "parseHandoff jparse (serializeHandoff jdump h) = Inr h'"
    and "schemaVersion h = kSupportedHandoffSchema" and "int64_range (createdAtUnix h)"
    and "length (stagedSha256 h) = kDigestSize" and "int32_range (attempts h)" and "int32_range (maxAttempts h)"
  shows "h' = h"
proof -
  from assms(1) obtain doc where doc: "jparse (serializeHandoff jdump h) = Some doc"
    and m: "\<And>key. member doc key = member (reread (handoff_document h)) key"
    by (auto simp: reads_back_def serializeHandoff_def)
  note mem = handoff_member [of h, folded m]
  have env: "parse_envelope (Some doc) = Inr doc' \<Longrightarrow> doc' = doc" for doc'
    by (simp add: parse_envelope_def split: if_splits option.splits)
  have path: "parse_path doc key = Inr p \<Longrightarrow> p = get_string (field doc key)" for key p
    by (simp add: parse_path_def Let_def split: if_splits)
  have words: "parse_text doc key = Inr p \<Longrightarrow> p = get_string (field doc key)" for key p
    by (simp add: parse_text_def split: if_splits)
  have att: "parse_attempts doc = Inr (a, n) \<Longrightarrow>
      a = get_int (field doc ''attempts'') \<and> n = get_int (field doc ''max_attempts'')" for a n
    by (simp add: parse_attempts_def Let_def split: if_splits)
  have "fromHex (toHex (stagedSha256 h)) = Some (stagedSha256 h)" using assms(5) by (simp add: fromHex_iff)
  then have "h' = \<lparr>schemaVersion = kSupportedHandoffSchema, createdAtUnix = get_int64 (field doc ''created_at_unix''),
      fromVersion = get_string (field doc ''from_version''), toVersion = get_string (field doc ''to_version''),
      stagedNro = get_string (field doc ''staged_nro''), stagedSha256 = stagedSha256 h,
      targetNro = get_string (field doc ''target_nro''), backupNro = get_string (field doc ''backup_nro''),
      forwarderNro = get_string (field doc ''forwarder_nro''), attempts = get_int (field doc ''attempts''),
      maxAttempts = get_int (field doc ''max_attempts'')\<rparr>"
    using assms(2) mem(6)
    by (auto simp: parseHandoff_def bindE_Inr_iff doc field_def [of doc "''staged_sha256''"]
        dest!: env path words att split: if_splits option.splits)
  then show ?thesis
    using assms(3, 4, 6, 7) by (simp add: field_def mem del: reread.simps)
qed

section \<open>Retries\<close>

text \<open>A gateway whose downloads have given outcomes, in order; its world counts them.\<close>

definition scripted :: "(nat \<Rightarrow> (HttpError, unit) result) \<Rightarrow> nat HttpGateway" where
  "scripted outcomes =
     \<lparr>http_fetch = (\<lambda>_ _. State_Monad.return (Inl NoNetwork)),
      http_download = (\<lambda>_ _ _ _. State (\<lambda>n. (outcomes n, n + 1)))\<rparr>"

definition error_of :: "(HttpError, unit) result \<Rightarrow> HttpError" where
  "error_of r = (case r of Inl e \<Rightarrow> e | Inr _ \<Rightarrow> NoError)"

definition retryable :: "(HttpError, unit) result \<Rightarrow> bool" where
  "retryable r = (case r of Inl e \<Rightarrow> e = HttpError.DigestMismatch \<or> isTransient e | Inr _ \<Rightarrow> False)"

lemma run_download_loop:
  "run_state (download_loop (scripted outcomes) url dest ex cb t d) n =
     (case outcomes n of
        Inr _ \<Rightarrow> (NoError, n + 1)
      | Inl e \<Rightarrow>
          if e = HttpError.DigestMismatch \<and> d + 1 < kDigestAttempts then
            run_state (download_loop (scripted outcomes) url dest ex cb t (d + 1)) (n + 1)
          else if isTransient e \<and> t + 1 < kTransientAttempts then
            run_state (download_loop (scripted outcomes) url dest ex cb (t + 1) d) (n + 1)
          else (e, n + 1))"
  by (subst download_loop.simps)
    (auto simp: scripted_def State_Monad.bind_def State_Monad.return_def split: sum.splits)

lemma download_loop_count:
  assumes "t < kTransientAttempts" and "d < kDigestAttempts"
    and "run_state (download_loop (scripted outcomes) url dest ex cb t d) n = (e, m)"
  shows "n < m \<and> int (m - n) < kTransientAttempts - t + (kDigestAttempts - d) \<and> e = error_of (outcomes (m - 1)) \<and>
    (\<forall>i. n \<le> i \<and> i < m - 1 \<longrightarrow> retryable (outcomes i))"
  using assms
proof (induction "nat (kTransientAttempts - t) + nat (kDigestAttempts - d)" arbitrary: t d n rule: less_induct)
  case less
  have step: "n < m \<and> int (m - n) < kTransientAttempts - t + (kDigestAttempts - d) \<and> e = error_of (outcomes (m - 1)) \<and>
      (\<forall>i. n \<le> i \<and> i < m - 1 \<longrightarrow> retryable (outcomes i))"
    if "Suc n < m" "int (m - Suc n) < k" "k < kTransientAttempts - t + (kDigestAttempts - d)"
      "e = error_of (outcomes (m - 1))" "\<forall>i. Suc n \<le> i \<and> i < m - 1 \<longrightarrow> retryable (outcomes i)" "retryable (outcomes n)"
    for k
  proof -
    have "retryable (outcomes i)" if "n \<le> i" "i < m - 1" for i
      using that \<open>\<forall>i. Suc n \<le> i \<and> i < m - 1 \<longrightarrow> retryable (outcomes i)\<close> \<open>retryable (outcomes n)\<close>
      by (cases "i = n") simp_all
    then show ?thesis using that(1-4) by auto
  qed
  show ?case
  proof (cases "outcomes n")
    case (Inr u)
    then show ?thesis using less(2-4) by (auto simp: run_download_loop [of _ _ _ _ _ _ _ n] error_of_def)
  next
    case (Inl x)
    show ?thesis
    proof (cases "x = HttpError.DigestMismatch \<and> d + 1 < kDigestAttempts")
      case True
      then have "run_state (download_loop (scripted outcomes) url dest ex cb t (d + 1)) (Suc n) = (e, m)"
        using less(4) Inl by (simp add: run_download_loop [of _ _ _ _ _ _ _ n])
      from less(1) [OF _ less(2) _ this] True Inl show ?thesis
        by (intro step [of "kTransientAttempts - t + (kDigestAttempts - (d + 1))"]) (auto simp: retryable_def)
    next
      case False
      show ?thesis
      proof (cases "isTransient x \<and> t + 1 < kTransientAttempts")
        case True
        then have "run_state (download_loop (scripted outcomes) url dest ex cb (t + 1) d) (Suc n) = (e, m)"
          using less(4) Inl False by (auto simp: run_download_loop [of _ _ _ _ _ _ _ n])
        from less(1) [OF _ _ less(3) this] True Inl show ?thesis
          by (intro step [of "kTransientAttempts - (t + 1) + (kDigestAttempts - d)"]) (auto simp: retryable_def)
      next
        case stop: False
        have "m = Suc n \<and> e = x"
          using less(4) Inl False stop by (auto simp: run_download_loop [of _ _ _ _ _ _ _ n])
        then show ?thesis using less(2, 3) Inl by (auto simp: error_of_def)
      qed
    qed
  qed
qed

end
