(* ===== verification/Document_Laws.thy ===== *)
theory Document_Laws
  imports Update_Staging
begin

text \<open>
  What the cached documents promise, from the contract of the ports: a document is only used when its metadata
  vouches for it, and storing and counting change only their own files.
\<close>

context update_ports
begin

lemma wp_load_document:
  assumes "\<And>r. (\<And>meta doc. r = Some (meta, doc) \<Longrightarrow> cont w docPath = Some doc \<and> cacheMatchesDocument meta doc \<and>
      (\<exists>raw. cont w metaPath = Some raw \<and> parseCacheMetadata jparse raw = Inr meta)) \<Longrightarrow> Q r w"
  shows "wp_io (load_document fs jparse metaPath docPath) Q w"
  unfolding load_document_def wp_bind
proof (rule read_law, goal_cases)
  case (1 rawMeta)
  have none: "Q None w" by (rule assms) simp
  show ?case
  proof (cases rawMeta)
    case None
    then show ?thesis using none by (simp add: wp)
  next
    case (Some raw)
    then have raw: "cont w metaPath = Some raw" using 1 by simp
    show ?thesis
    proof (cases "parseCacheMetadata jparse raw")
      case (Inl e)
      then show ?thesis using none Some by (simp add: wp)
    next
      case (Inr meta)
      have "wp_io (fs_readText fs docPath kMaxDocumentBytes) (\<lambda>document.
          Q (case document of None \<Rightarrow> None
             | Some doc \<Rightarrow> if \<not> cacheMatchesDocument meta doc then None else Some (meta, doc))) w"
      proof (rule read_law, goal_cases)
        case (1 document)
        show ?case
          by (rule assms) (use 1 raw Inr in \<open>auto split: option.splits if_splits\<close>)
      qed
      then show ?thesis using Some Inr by (simp add: wp)
    qed
  qed
qed

lemma wp_load_counters: "(\<And>st. Q st w) \<Longrightarrow> wp_io (load_counters fs jparse path) Q w"
  unfolding load_counters_def wp_bind by (rule read_law) (simp add: wp)

lemma wp_save_counters:
  assumes "\<And>w'. \<forall>q. q \<noteq> path \<longrightarrow> q \<noteq> path @ ''.tmp'' \<longrightarrow> cont w' q = cont w q \<Longrightarrow> Q () w'"
  shows "wp_io (save_counters fs jdump dir path st) Q w"
  unfolding save_counters_def wp
  by (rule mkdirs_law, rule write_law) (rule assms, simp)+

lemma wp_store_document:
  assumes "docPath \<noteq> metaPath" and "docPath \<noteq> metaPath @ ''.tmp''"
    and "\<And>w' b. \<forall>q. q \<notin> {docPath, docPath @ ''.tmp'', metaPath, metaPath @ ''.tmp''} \<longrightarrow> cont w' q = cont w q \<Longrightarrow>
      cont w' docPath \<in> {cont w docPath, None, Some document} \<Longrightarrow> Q b w'"
  shows "wp_io (store_document fs jdump dir metaPath docPath document tag url now) Q w"
  unfolding store_document_def wp_bind
proof (rule mkdirs_law, goal_cases)
  case (1 w1 made)
  have stop: "Q b w'" if "\<forall>q. q \<noteq> docPath \<longrightarrow> q \<noteq> docPath @ ''.tmp'' \<longrightarrow> cont w' q = cont w1 q"
    "cont w' docPath \<in> {cont w1 docPath, None, Some document}" for w' b
    by (rule assms(3)) (use that 1 in auto)
  have meta: "wp_io (fs_writeAtomic fs metaPath data) Q w2"
    if w2: "\<forall>q. q \<noteq> docPath \<longrightarrow> q \<noteq> docPath @ ''.tmp'' \<longrightarrow> cont w2 q = cont w1 q" "cont w2 docPath = Some document" for w2 data
    by (rule write_law; rule assms(3)) (use w2 1 assms(1, 2) in auto)
  have "wp_io (fs_writeAtomic fs docPath document) (\<lambda>stored. if \<not> stored then Q False
      else wp_io (fs_writeAtomic fs metaPath data) Q) w1" for data
    by (rule write_law) (use stop meta in auto)
  then show ?case using stop [of w1 False] by (simp add: wp Let_def cong del: if_weak_cong)
qed

lemma wp_fetch_mirrored:
  assumes "\<And>m source r. source = (if m then mirror else url) \<Longrightarrow> answer source r \<Longrightarrow> Q (m, r) w"
  shows "wp_io (fetch_mirrored http url mirror tag) Q w"
  unfolding fetch_mirrored_def wp_bind
proof (rule fetch_law)
  fix r assume r: "answer url r"
  have "Q (False, r) w" by (rule assms [OF _ r]) simp
  moreover have "wp_io (http_fetch http mirror []) (\<lambda>r. Q (True, r)) w"
    by (rule fetch_law) (rule assms; simp)
  ultimately show "wp_io (if (case r of Inl e \<Rightarrow> hostUnreachable e \<and> mirror \<noteq> [] | Inr _ \<Rightarrow> False)
      then http_fetch http mirror [] \<bind> (\<lambda>response. State_Monad.return (True, response))
      else State_Monad.return (False, r)) Q w"
    by (simp add: wp)
qed

end

end
