(* ===== verification/Update_Check.thy ===== *)
theory Update_Check
  imports Update_Staging Document_Laws
begin

text \<open>
  What an update check promises: the decision it reports rests on a manifest that was fetched or vouched for
  by the cache metadata, and the cache never holds a document that could not be read.
\<close>

section \<open>Specification\<close>

text \<open>The cached document is the one its metadata describes.\<close>

definition vouched ::
  "(string \<Rightarrow> json option) \<Rightarrow> SelfUpdateConfig \<Rightarrow> (string \<Rightarrow> string option) \<Rightarrow> CacheMetadata \<Rightarrow> string \<Rightarrow> bool" where
  "vouched jparse config f meta doc =
     (f (cachedManifestPath config) = Some doc \<and> cacheMatchesDocument meta doc \<and>
      (\<exists>raw. f (cacheMetadataPath config) = Some raw \<and> parseCacheMetadata jparse raw = Inr meta))"

text \<open>A decision without a manifest says so; with one, it is the policy's, and the manifest has a source.\<close>

definition check_sound ::
  "(string \<Rightarrow> (HttpError, Response) result \<Rightarrow> bool) \<Rightarrow> (string \<Rightarrow> json option) \<Rightarrow> SelfUpdateConfig \<Rightarrow>
   (string \<Rightarrow> string option) \<Rightarrow> CheckOutcome \<Rightarrow> bool" where
  "check_sound answer jparse config f out =
     (case co_manifest out of
        None \<Rightarrow> upd_action (co_decision out) = ManifestUnreadable
      | Some m \<Rightarrow>
          co_decision out = decideUpdate (su_installed config) m (su_channel config) \<and>
          (\<exists>doc. parseManifest jparse doc = Inr m \<and>
             (if servedFromCache out then \<exists>meta. vouched jparse config f meta doc
              else \<exists>url resp. url \<in> {manifestUrl config, mirrorUrl config} \<and> answer url (Inr resp) \<and>
                resp_body resp = doc)))"

definition check_footprint :: "SelfUpdateConfig \<Rightarrow> string set" where
  "check_footprint config =
     {cachedManifestPath config, cachedManifestPath config @ ''.tmp'', cacheMetadataPath config,
      cacheMetadataPath config @ ''.tmp'', backoffPath config, backoffPath config @ ''.tmp''}"

text \<open>Only the cache and the backoff counters change, and a new cached document is a readable manifest.\<close>

definition cache_kept ::
  "(string \<Rightarrow> json option) \<Rightarrow> SelfUpdateConfig \<Rightarrow> (string \<Rightarrow> string option) \<Rightarrow> (string \<Rightarrow> string option) \<Rightarrow> bool" where
  "cache_kept jparse config f f' =
     ((\<forall>q. q \<notin> check_footprint config \<longrightarrow> f' q = f q) \<and>
      (f' (cachedManifestPath config) = f (cachedManifestPath config) \<or> f' (cachedManifestPath config) = None \<or>
       (\<exists>doc m. f' (cachedManifestPath config) = Some doc \<and> parseManifest jparse doc = Inr m)))"

section \<open>Facts\<close>

lemma cache_paths [simp]:
  "cachedManifestPath config \<noteq> backoffPath config" "cachedManifestPath config \<noteq> backoffPath config @ ''.tmp''"
  "cachedManifestPath config \<noteq> cacheMetadataPath config"
  "cachedManifestPath config \<noteq> cacheMetadataPath config @ ''.tmp''"
  by (simp_all add: cachedManifestPath_def backoffPath_def cacheMetadataPath_def)

lemma fromDocument_sound:
  assumes "if cached then \<exists>meta. vouched jparse config f meta doc
    else \<exists>url resp. url \<in> {manifestUrl config, mirrorUrl config} \<and> answer url (Inr resp) \<and> resp_body resp = doc"
  shows "check_sound answer jparse config f (fromDocument jparse config doc cached age plan detail)"
  using assms
  by (cases "parseManifest jparse doc")
    (auto simp: check_sound_def fromDocument_def Let_def empty_CheckOutcome_def unreadableManifest_def)

lemma check_sound_update [simp]:
  "check_sound answer jparse config f (out\<lparr>usedMirror := m\<rparr>) = check_sound answer jparse config f out"
  "check_sound answer jparse config f (out\<lparr>co_transport := e\<rparr>) = check_sound answer jparse config f out"
  by (cases "co_manifest out"; simp add: check_sound_def)+

lemma check_sound_unreadable:
  "co_manifest out = None \<Longrightarrow> upd_action (co_decision out) = ManifestUnreadable \<Longrightarrow>
   check_sound answer jparse config f out"
  by (simp add: check_sound_def)

lemma readable_document:
  "upd_action (co_decision (fromDocument jparse config doc cached age plan detail)) \<noteq> ManifestUnreadable \<Longrightarrow>
   \<exists>m. parseManifest jparse doc = Inr m"
  by (cases "parseManifest jparse doc")
    (simp_all add: fromDocument_def Let_def empty_CheckOutcome_def unreadableManifest_def)

text \<open>The cached document is only read when there is one.\<close>

lemma plan_needs_cache:
  "fetch_plan (planManifestFetch meta backoff now ttl policy) \<in> {ServeCache, DeferToCache} \<Longrightarrow> meta \<noteq> None"
  by (auto simp: planManifestFetch_def Let_def split: option.splits if_splits)

context update_ports
begin

lemma wp_loadCache:
  assumes "\<And>r. (\<And>meta doc. r = Some (meta, doc) \<Longrightarrow> vouched jparse config (cont w) meta doc) \<Longrightarrow> Q r w"
  shows "wp_io (loadCache fs jparse config) Q w"
  unfolding loadCache_def by (rule wp_load_document) (rule assms, simp add: vouched_def)

lemma wp_saveBackoff:
  assumes "\<And>w'. \<forall>q. q \<noteq> backoffPath config \<longrightarrow> q \<noteq> backoffPath config @ ''.tmp'' \<longrightarrow> cont w' q = cont w q \<Longrightarrow> Q () w'"
  shows "wp_io (saveBackoff fs jdump config st) Q w"
  unfolding saveBackoff_def by (rule wp_save_counters) (rule assms)

lemma wp_storeCache:
  assumes "\<And>w' b. \<forall>q. q \<notin> check_footprint config \<longrightarrow> cont w' q = cont w q \<Longrightarrow>
    cont w' (cachedManifestPath config) \<in> {cont w (cachedManifestPath config), None, Some document} \<Longrightarrow> Q b w'"
  shows "wp_io (storeCache fs jdump config document tag url now) Q w"
  unfolding storeCache_def
  by (rule wp_store_document) (simp, simp, rule assms, simp_all add: check_footprint_def)

lemma wp_fetch_manifest:
  assumes "\<And>m url r. url = (if m then mirrorUrl config else manifestUrl config) \<Longrightarrow> answer url r \<Longrightarrow> Q (m, r) w"
  shows "wp_io (fetch_manifest http config tag) Q w"
  unfolding fetch_manifest_def by (rule wp_fetch_mirrored) (rule assms)

text \<open>Saving the counters never touches the cached document.\<close>

lemma wp_saveBackoff_kept:
  assumes "cache_kept jparse config f (cont w)" and "\<And>w'. cache_kept jparse config f (cont w') \<Longrightarrow> Q () w'"
  shows "wp_io (saveBackoff fs jdump config st) Q w"
proof (rule wp_saveBackoff, rule assms(2))
  fix w' assume same: "\<forall>q. q \<noteq> backoffPath config \<longrightarrow> q \<noteq> backoffPath config @ ''.tmp'' \<longrightarrow> cont w' q = cont w q"
  have "cont w' (cachedManifestPath config) = cont w (cachedManifestPath config)" using same by simp
  moreover have "\<forall>q. q \<notin> check_footprint config \<longrightarrow> cont w' q = cont w q" using same by (simp add: check_footprint_def)
  ultimately show "cache_kept jparse config f (cont w')" using assms(1) by (simp add: cache_kept_def)
qed

lemma wp_storeCache_kept:
  assumes "f = cont w" and "f (cachedManifestPath config) = Some document \<or> parseManifest jparse document = Inr m"
    and "\<And>w' b. cache_kept jparse config f (cont w') \<Longrightarrow> Q b w'"
  shows "wp_io (storeCache fs jdump config document tag url now) Q w"
proof (rule wp_storeCache, rule assms(3))
  fix w' and b :: bool
  assume "\<forall>q. q \<notin> check_footprint config \<longrightarrow> cont w' q = cont w q"
    and "cont w' (cachedManifestPath config) \<in> {cont w (cachedManifestPath config), None, Some document}"
  then show "cache_kept jparse config f (cont w')" using assms(1, 2) by (auto simp: cache_kept_def)
qed

lemma cache_kept_refl: "cache_kept jparse config f f"
  by (simp add: cache_kept_def)

lemma wp_check_failed:
  assumes "\<And>meta doc. cached = Some (meta, doc) \<Longrightarrow> vouched jparse config (cont w) meta doc"
  shows "wp_io (check_failed fs jparse jdump now config cached backoff plan mirror e)
    (\<lambda>out w'. check_sound answer jparse config (cont w) out \<and> cache_kept jparse config (cont w) (cont w')) w"
proof -
  let ?out = "case cached of
      Some (_, document) \<Rightarrow>
        (fromDocument jparse config document True (cacheAge plan) (fetch_plan plan)
           (''update check failed ('' @ describeTransport e @ ''); showing the last known release''))
          \<lparr>co_transport := e, usedMirror := mirror\<rparr>
    | None \<Rightarrow> empty_CheckOutcome\<lparr>co_plan := fetch_plan plan, co_transport := e, usedMirror := mirror,
          co_detail := describeTransport e, co_decision := unreadableManifest (describeTransport e)\<rparr>"
  have "check_sound answer jparse config (cont w) ?out"
  proof (cases cached)
    case None
    then show ?thesis
      by (simp add: check_sound_unreadable empty_CheckOutcome_def unreadableManifest_def)
  next
    case (Some c)
    then have "\<exists>meta. vouched jparse config (cont w) meta (snd c)" using assms by (cases c) auto
    then show ?thesis using Some by (cases c) (simp add: fromDocument_sound)
  qed
  then show ?thesis unfolding check_failed_def wp
    by (intro wp_saveBackoff_kept [OF cache_kept_refl]) simp
qed

lemma wp_check_answered:
  assumes cached: "\<And>meta doc. cached = Some (meta, doc) \<Longrightarrow> vouched jparse config (cont w) meta doc"
    and resp: "answer (if mirror then mirrorUrl config else manifestUrl config) (Inr response)"
  shows "wp_io (check_answered fs jparse jdump now config cached backoff plan mirror response)
    (\<lambda>out w'. check_sound answer jparse config (cont w) out \<and> cache_kept jparse config (cont w) (cont w')) w"
    (is "wp_io _ ?Q w")
proof -
  have old: "check_sound answer jparse config (cont w) (fromDocument jparse config doc True age fp detail)"
    if "cached = Some (meta, doc)" for meta doc age fp detail
    by (rule fromDocument_sound) (use cached [OF that] in auto)
  let ?out = "fromDocument jparse config (resp_body response) False 0 (fetch_plan plan) ''fetched a fresh manifest''"
  have new: "check_sound answer jparse config (cont w) ?out"
    by (rule fromDocument_sound) (use resp in \<open>cases mirror; auto\<close>)
  have kept: "wp_io (saveBackoff fs jdump config st) (\<lambda>_. ?Q out) v"
    if "cache_kept jparse config (cont w) (cont v)" "check_sound answer jparse config (cont w) out" for st out v
    by (rule wp_saveBackoff_kept [OF that(1)]) (simp add: that(2))
  show ?thesis
  proof (cases "resp_status response = 304 \<and> cached \<noteq> None")
    case True
    then obtain meta doc where c: "cached = Some (meta, doc)" by auto
    have "cont w (cachedManifestPath config) = Some doc" using cached [OF c] by (simp add: vouched_def)
    then have "wp_io (storeCache fs jdump config doc tag url now) (\<lambda>_. wp_io (saveBackoff fs jdump config st)
        (\<lambda>_. ?Q ((fromDocument jparse config doc True 0 (fetch_plan plan) ''not modified since last check'')
          \<lparr>usedMirror := mirror\<rparr>))) w" for tag url st
      by (intro wp_storeCache_kept [OF refl] kept disjI1) (simp_all add: old [OF c])
    then show ?thesis using True c by (simp add: check_answered_def wp Let_def)
  next
    case False
    show ?thesis
    proof (cases "upd_action (co_decision ?out) = ManifestUnreadable")
      case True
      have "check_sound answer jparse config (cont w) (case cached of
             Some (_, document) \<Rightarrow>
               (fromDocument jparse config document True (cacheAge plan) (fetch_plan plan)
                  (''the published manifest could not be read ('' @ co_detail (?out\<lparr>usedMirror := mirror\<rparr>) @
                   ''); showing the last known release''))\<lparr>usedMirror := mirror\<rparr>
           | None \<Rightarrow> ?out\<lparr>usedMirror := mirror\<rparr>)"
        using old new by (auto split: option.splits)
      from kept [OF cache_kept_refl this] show ?thesis
        using True unfolding check_answered_def Let_def if_not_P [OF False] by (simp add: wp)
    next
      case readable: False
      then obtain m where "parseManifest jparse (resp_body response) = Inr m" using readable_document by metis
      then have "wp_io (storeCache fs jdump config (resp_body response) tag url now)
          (\<lambda>_. wp_io (saveBackoff fs jdump config st) (\<lambda>_. ?Q (?out\<lparr>usedMirror := mirror\<rparr>))) w" for tag url st
        by (intro wp_storeCache_kept [OF refl] kept disjI2) (simp_all add: new)
      then show ?thesis using readable unfolding check_answered_def Let_def if_not_P [OF False] by (simp add: wp)
    qed
  qed
qed

lemma wp_check:
  "wp_io (check http fs jparse jdump now config)
    (\<lambda>out w'. check_sound answer jparse config (cont w) out \<and> cache_kept jparse config (cont w) (cont w')) w"
  (is "wp_io _ ?Q w")
  unfolding check_def wp_bind Let_def
proof (rule wp_loadCache, unfold loadBackoff_def, rule wp_load_counters, goal_cases)
  case (1 cached backoff)
  define plan where
    "plan = planManifestFetch (map_option fst cached) backoff now (cacheTtlSeconds config) (su_backoff config)"
  have serve: "?Q (fromDocument jparse config (snd (the cached)) True (cacheAge plan) (fetch_plan plan) (fetch_reason plan)) w"
    if fp: "fetch_plan plan = ServeCache \<or> fetch_plan plan = DeferToCache"
  proof -
    have "cached \<noteq> None" using plan_needs_cache fp unfolding plan_def by fastforce
    then obtain meta doc where c: "cached = Some (meta, doc)" by auto
    have "check_sound answer jparse config (cont w)
        (fromDocument jparse config doc True (cacheAge plan) (fetch_plan plan) (fetch_reason plan))"
      by (rule fromDocument_sound) (use 1 [OF c] in auto)
    then show ?thesis using c by (simp add: cache_kept_refl)
  qed
  have silent: "?Q (empty_CheckOutcome\<lparr>co_plan := fetch_plan plan,
      co_decision := unreadableManifest (fetch_reason plan), co_detail := fetch_reason plan\<rparr>) w"
    by (simp add: check_sound_unreadable empty_CheckOutcome_def unreadableManifest_def cache_kept_refl)
  have ask: "wp_io (fetch_manifest http config tag) (\<lambda>r. wp_io (case snd r of
         Inl e \<Rightarrow> check_failed fs jparse jdump now config cached backoff plan (fst r) e
       | Inr response \<Rightarrow> check_answered fs jparse jdump now config cached backoff plan (fst r) response) ?Q) w" for tag
  proof (rule wp_fetch_manifest, goal_cases)
    case (1 m url r)
    then show ?case
      using wp_check_failed [OF \<open>\<And>meta doc. cached = Some (meta, doc) \<Longrightarrow> vouched jparse config (cont w) meta doc\<close>]
        wp_check_answered [OF \<open>\<And>meta doc. cached = Some (meta, doc) \<Longrightarrow> vouched jparse config (cont w) meta doc\<close>]
      by (cases r) simp_all
  qed
  show ?case
    using serve silent ask unfolding plan_def [symmetric] by (simp add: wp cong del: if_weak_cong)
qed

end

section \<open>Properties\<close>

text \<open>C14: Whatever the network answers and whichever card operations fail, a check never guesses: a decision is
  the policy's decision on a manifest that was either served by one of the two configured addresses or is the
  cached document its metadata vouches for, and without a manifest the decision is \<^verbatim>\<open>ManifestUnreadable\<close>,
  never \<^verbatim>\<open>UpToDate\<close>.  Only the cache and the backoff counters change, and a document that could not be read
  is never cached.\<close>

theorem check_never_guesses:
  "case run_state (check (curl_gateway net) (sd_store vfs) jparse jdump now config) w of (out, w') \<Rightarrow>
     check_sound (served net) jparse config (content w) out \<and> cache_kept jparse config (content w) (content w')"
  using live.wp_check [of net vfs jparse jdump now config w] by (simp add: wp_io_def)

end
