(* ===== verification/Update_Flow.thy ===== *)
theory Update_Flow
  imports Update_Staging
begin

text \<open>
  The update from end to end: staging by the application over the network and the card, then the swap by the
  forwarder at the next boots.
\<close>

section \<open>A download without faults\<close>

lemma wp_open_calm:
  assumes "calm w" and "hosts w p" and "\<And>w'. same_env w w' \<Longrightarrow> content w' = (content w)(p \<mapsto> []) \<Longrightarrow> Q True w'"
  shows "wp_io (c_open p) Q w"
  using assms
  by (auto simp: wp_io_def c_open_def Let_def same_env_def content_def [abs_def] calm_def hosts_def)

lemma wp_append_calm:
  assumes "calm w" and "content w p = Some old"
    and "\<And>w'. same_env w w' \<Longrightarrow> content w' = (content w)(p \<mapsto> old @ data) \<Longrightarrow> Q True w'"
  shows "wp_io (c_append p data) Q w"
  using assms by (auto simp: wp_io_def c_append_def Let_def same_env_def content_def [abs_def] calm_def)

lemma wp_flush_calm:
  assumes "calm w" and "\<And>w'. same_env w w' \<Longrightarrow> content w' = content w \<Longrightarrow> Q True w'"
  shows "wp_io (c_flush p) Q w"
  using assms by (auto simp: wp_io_def c_flush_def Let_def same_env_def content_def [abs_def] calm_def)

text \<open>The body a transfer delivers, and a callback that never stops it.\<close>

fun body_of :: "callback list \<Rightarrow> string" where
  "body_of [] = []"
| "body_of (Chunk s # calls) = s @ body_of calls"
| "body_of (_ # calls) = body_of calls"

definition patient :: "ProgressCallback \<Rightarrow> bool" where
  "patient cb = (case cb of None \<Rightarrow> True | Some f \<Rightarrow> \<forall>p. f p)"

definition delivers :: "network \<Rightarrow> string \<Rightarrow> string \<Rightarrow> bool" where
  "delivers net url d =
     (let tr = net url [] in
      tr_handle tr \<and> tr_code tr = CURLE_OK \<and> classifyStatus (tr_status tr) = NoError \<and> body_of (tr_calls tr) = d)"

lemma not_over_limit:
  fixes limit :: "64 word"
  assumes "n + k \<le> unat limit"
  shows "\<not> limit < of_nat n + of_nat k"
proof -
  have "unat limit < 2 ^ 64" by (rule order.strict_trans2 [OF unsigned_less]) simp
  then have "n + k < 2 ^ 64" using assms by simp
  then have "unat (of_nat (n + k) :: 64 word) = n + k" by (simp add: unsigned_of_nat take_bit_nat_eq_self del: of_nat_add)
  then show ?thesis using assms unfolding of_nat_add [symmetric] word_less_nat_alt by simp
qed

lemma wp_deliver_calm:
  assumes "calm w" and "patient cb" and "content w part = Some old" and "\<not> sink_failed sink"
    and "represents (hasher sink) (bytes_of old)" and "sink_written sink = of_nat (length old)"
    and "length old + length (body_of calls) \<le> unat (file_limit sink)"
    and "\<And>w' sink'. same_env w w' \<Longrightarrow> content w' = (content w)(part \<mapsto> old @ body_of calls) \<Longrightarrow>
      \<not> sink_failed sink' \<Longrightarrow> represents (hasher sink') (bytes_of (old @ body_of calls)) \<Longrightarrow>
      sink_written sink' = of_nat (length (old @ body_of calls)) \<Longrightarrow> Q (None, sink') w'"
  shows "wp_io (deliver part cb calls sink) Q w"
  using assms
proof (induction part cb calls sink arbitrary: w old rule: deliver.induct)
  case (1 part cb sink)
  have "(content w)(part \<mapsto> old) = content w" using 1(3) by auto
  then show ?case using 1 by (simp add: wp)
next
  case (3 part cb tot recv calls sink)
  have "reportProgress cb tot recv = 0" using 3(3) by (auto simp: reportProgress_def patient_def split: option.splits)
  with 3 show ?case by simp
next
  case (4 part cb ptr calls sink)
  let ?sink = "sink\<lparr>hasher := update (hasher sink) (bytes_of ptr),
    sink_written := sink_written sink + of_nat (length ptr)\<rparr>"
  have room: "\<not> file_limit sink < sink_written sink + of_nat (length ptr)"
    using 4(8) not_over_limit [of "length old" "length ptr" "file_limit sink"] by (simp add: 4(7))
  have "wp_io (c_append part ptr) (\<lambda>ok w1. ok \<and> wp_io (deliver part cb calls ?sink) Q w1) w"
  proof (rule wp_append_calm [OF 4(2, 4)])
    fix w1 assume w1: "same_env w w1" "content w1 = (content w)(part \<mapsto> old @ ptr)"
    have "wp_io (deliver part cb calls (snd (length ptr, ?sink))) Q w1"
    proof (rule 4(1) [where old = "old @ ptr"])
      show "calm w1" using calm_env [OF w1(1)] 4(2) by simp
      show "represents (hasher (snd (length ptr, ?sink))) (bytes_of (old @ ptr))"
        using represents_update [OF 4(6)] by (simp add: bytes_of_append)
      fix w2 and sink' :: FileSink
      assume "same_env w1 w2" and "content w2 = (content w1)(part \<mapsto> (old @ ptr) @ body_of calls)"
        and "\<not> sink_failed sink'" and "represents (hasher sink') (bytes_of ((old @ ptr) @ body_of calls))"
        and "sink_written sink' = of_nat (length ((old @ ptr) @ body_of calls))"
      then show "Q (None, sink') w2"
        using w1 by (intro 4(9)) (auto intro: same_env_trans)
    qed (use 4 w1 in simp_all)
    then show "True \<and> wp_io (deliver part cb calls ?sink) Q w1" by simp
  qed
  then have "wp_io (writeToFile part ptr sink) (\<lambda>r w1. r = (length ptr, ?sink) \<and> wp_io (deliver part cb calls ?sink) Q w1) w"
    unfolding writeToFile_def wp if_not_P [OF room] by (rule wp_mono) simp
  then show ?case unfolding deliver.simps wp by (rule wp_mono) simp
qed simp

lemma wp_conclude_calm:
  assumes "calm w" and "content w (dest @ ''.part'') = Some d" and "hosts w dest" and "\<not> sink_failed sink"
    and "represents (hasher sink) (bytes_of d)" and "sink_written sink = expected_size ex"
    and "sha256_spec (bytes_of d) = expected_sha256 ex"
    and "tr_code tr = CURLE_OK" and "classifyStatus (tr_status tr) = NoError"
    and "\<And>w'. same_env w w' \<Longrightarrow> content w' = (content w)(dest @ ''.part'' := None, dest \<mapsto> d) \<Longrightarrow> Q (Inr ()) w'"
  shows "wp_io (conclude tr dest ex None sink) Q w"
proof -
  let ?part = "dest @ ''.part''"
  have "digestsEqual (fst (finish (hasher sink))) (expected_sha256 ex)"
    using finish_represents [OF assms(5)] assms(7) length_sha256_spec digestsEqual_iff by metis
  moreover have "wp_io (c_flush ?part) (\<lambda>flushed w1. flushed \<and>
      wp_io (renameOver ?part dest) (\<lambda>ok w2. ok \<and> Q (Inr ()) w2) w1) w"
  proof (rule wp_flush_calm [OF assms(1)])
    fix w1 assume w1: "same_env w w1" "content w1 = content w"
    have "wp_io (renameOver ?part dest) (\<lambda>ok w2. ok \<and> Q (Inr ()) w2) w1"
      by (rule wp_renameOver_calm)
        (use w1 assms calm_env [OF w1(1)] hosts_env [OF w1(1)] in \<open>auto intro: same_env_trans\<close>)
    then show "True \<and> wp_io (renameOver ?part dest) (\<lambda>ok w2. ok \<and> Q (Inr ()) w2) w1" by simp
  qed
  then have "wp_io (c_flush ?part) (\<lambda>flushed w1. flushed \<and>
      wp_io (c_remove dest) (\<lambda>_. wp_io (c_rename ?part dest)
        (\<lambda>ok. if \<not> ok then wp_io (discard ?part WriteFailed) Q else Q (Inr ()))) w1) w"
    by (rule wp_mono) (auto simp: renameOver_def wp elim!: wp_mono)
  ultimately show ?thesis
    using assms(4, 6, 8, 9) unfolding conclude_def Let_def wp
    by (auto simp: code_of_def elim!: wp_mono)
qed

lemma wp_curl_download_calm:
  assumes "calm w" and "http_isHttpsUrl url" and d: "delivers net url d" "length d = unat (expected_size ex)" "d \<noteq> []"
    and "sha256_spec (bytes_of d) = expected_sha256 ex" and "patient cb"
    and "hosts w (dest @ ''.part'')" and "hosts w dest"
    and "\<And>w'. same_env w w' \<Longrightarrow> content w' = (content w)(dest @ ''.part'' := None, dest \<mapsto> d) \<Longrightarrow> Q (Inr ()) w'"
  shows "wp_io (curl_download net url dest ex cb) Q w"
proof -
  let ?part = "dest @ ''.part''" and ?tr = "net url []"
  let ?sink = "\<lparr>hasher = reset, sink_written = 0, file_limit = expected_size ex, sink_failed = False\<rparr>"
  have tr: "tr_handle ?tr" "tr_code ?tr = CURLE_OK" "classifyStatus (tr_status ?tr) = NoError" "body_of (tr_calls ?tr) = d"
    using d(1) by (simp_all add: delivers_def Let_def)
  have size: "expected_size ex \<noteq> 0" "of_nat (length d) = expected_size ex" using d(2, 3) by auto
  have "wp_io (c_open ?part) (\<lambda>opened w1. opened \<and> wp_io (deliver ?part cb (tr_calls ?tr) ?sink)
      (\<lambda>r. wp_io (conclude ?tr dest ex (fst r) (snd r)) Q) w1) w"
  proof (rule wp_open_calm [OF assms(1, 8)])
    fix w1 assume w1: "same_env w w1" "content w1 = (content w)(?part \<mapsto> [])"
    have "wp_io (deliver ?part cb (tr_calls ?tr) ?sink) (\<lambda>r. wp_io (conclude ?tr dest ex (fst r) (snd r)) Q) w1"
    proof (rule wp_deliver_calm [where old = "[]"])
      fix w2 and sink' :: FileSink
      assume w2: "same_env w1 w2" "content w2 = (content w1)(?part \<mapsto> [] @ body_of (tr_calls ?tr))"
        "\<not> sink_failed sink'" "represents (hasher sink') (bytes_of ([] @ body_of (tr_calls ?tr)))"
        "sink_written sink' = of_nat (length ([] @ body_of (tr_calls ?tr)))"
      have env: "same_env w w2" using same_env_trans [OF w1(1) w2(1)] .
      have "wp_io (conclude ?tr dest ex None sink') Q w2"
      proof (rule wp_conclude_calm [where d = d])
        show "calm w2" using calm_env [OF env] assms(1) by simp
        show "hosts w2 dest" using hosts_env [OF env] assms(9) by simp
        fix w3 assume w3: "same_env w2 w3" "content w3 = (content w2)(?part := None, dest \<mapsto> d)"
        then show "Q (Inr ()) w3"
          using w1(2) w2(2) same_env_trans [OF env w3(1)] by (intro assms(10)) auto
      qed (use w2 tr size assms(6) in simp_all)
      then show "wp_io (conclude ?tr dest ex (fst (None, sink')) (snd (None, sink'))) Q w2" by simp
    qed (use w1 calm_env [OF w1(1)] assms(1, 7) d(2) tr(4) represents_reset in \<open>simp_all add: bytes_of_def\<close>)
    then show "True \<and> wp_io (deliver ?part cb (tr_calls ?tr) ?sink)
      (\<lambda>r. wp_io (conclude ?tr dest ex (fst r) (snd r)) Q) w1" by simp
  qed
  then show ?thesis
    using assms(2) size(1) tr(1) unfolding curl_download_def wp Let_def by (auto elim!: wp_mono)
qed

section \<open>Staging without faults\<close>

text \<open>The card can take the update: it is intact, the staging directory can be made, nothing is in the way of
  the files, there is a forwarder, and as far as the card says there is space.\<close>

definition roomy :: "(string \<Rightarrow> statvfs option) \<Rightarrow> SelfUpdateConfig \<Rightarrow> ManifestAsset \<Rightarrow> bool" where
  "roomy vfs config asset =
     (case vfs (su_stagingDir config) of
        None \<Rightarrow> True
      | Some st \<Rightarrow> space_unit st = 0 \<or> stage_needed config (asset_size asset) \<le> space_unit st * f_bavail st)"

definition can_stage :: "SelfUpdateConfig \<Rightarrow> sd \<Rightarrow> bool" where
  "can_stage config w =
     (good_card w \<and> calm w \<and> wf_path (su_stagingDir config) \<and>
      (\<forall>q. q = su_stagingDir config \<or> ancestor q (su_stagingDir config) \<longrightarrow> content w q = None) \<and>
      (\<forall>p\<in>{stagedNroPath config, stagedNroPath config @ ''.part'', handoffPath config, handoffPath config @ ''.tmp'',
          backupNroPath config}. p \<notin> set (dirs w)) \<and>
      content w (su_forwarderNro config) \<noteq> None)"

text \<open>The directories afterwards.\<close>

definition with_staging :: "SelfUpdateConfig \<Rightarrow> sd \<Rightarrow> sd \<Rightarrow> bool" where
  "with_staging config w w' =
     (calm w' \<and> su_stagingDir config \<in> set (dirs w') \<and> set (dirs w) \<subseteq> set (dirs w') \<and>
      (\<forall>q\<in>set (dirs w'). q \<in> set (dirs w) \<or> q = su_stagingDir config \<or> ancestor q (su_stagingDir config)))"

lemma with_staging_env: "with_staging config w w1 \<Longrightarrow> same_env w1 w2 \<Longrightarrow> with_staging config w w2"
  by (simp add: with_staging_def same_env_def calm_def)

lemma staging_parent:
  "parent_dir (stagedNroPath config) = su_stagingDir config"
  "parent_dir (stagedNroPath config @ ''.part'') = su_stagingDir config"
  "parent_dir (handoffPath config) = su_stagingDir config"
  "parent_dir (handoffPath config @ ''.tmp'') = su_stagingDir config"
  "parent_dir (backupNroPath config) = su_stagingDir config"
  by (simp_all add: stagedNroPath_def handoffPath_def backupNroPath_def)

lemma staging_hosts:
  assumes "can_stage config w" and "with_staging config w w'"
  shows "\<forall>p\<in>{stagedNroPath config, stagedNroPath config @ ''.part'', handoffPath config, handoffPath config @ ''.tmp'',
          backupNroPath config}. hosts w' p"
proof
  fix p assume p: "p \<in> {stagedNroPath config, stagedNroPath config @ ''.part'', handoffPath config,
    handoffPath config @ ''.tmp'', backupNroPath config}"
  have par: "parent_dir p = su_stagingDir config" using p by (auto simp: staging_parent)
  have "length (su_stagingDir config) < length p"
    using p by (auto simp: stagedNroPath_def handoffPath_def backupNroPath_def)
  then have "p \<noteq> su_stagingDir config" "\<not> ancestor p (su_stagingDir config)" using ancestor_longer by fastforce+
  then have "p \<notin> set (dirs w')" using assms p by (auto simp: can_stage_def with_staging_def)
  then show "hosts w' p" using assms(2) par by (simp add: hosts_def dir_exists_def with_staging_def)
qed

lemma release_is_https: "isReleaseUrl url \<Longrightarrow> http_isHttpsUrl url"
  by (auto simp: release_url_iff http_isHttpsUrl_def)

text \<open>The card after staging.\<close>

definition staged_card ::
  "(json \<Rightarrow> string) \<Rightarrow> SelfUpdateConfig \<Rightarrow> Handoff \<Rightarrow> string \<Rightarrow> (string \<Rightarrow> string option) \<Rightarrow> string \<Rightarrow> string option" where
  "staged_card jdump config h d f =
     f(stagedNroPath config @ ''.part'' := None, stagedNroPath config \<mapsto> d, handoffPath config @ ''.tmp'' := None,
       handoffPath config \<mapsto> serializeHandoff jdump h)"

lemma wp_hand_off_calm:
  assumes "h = handoff_for config now manifest asset" and "calm w" and "content w (su_forwarderNro config) \<noteq> None"
    and "hosts w (handoffPath config)" and "hosts w (handoffPath config @ ''.tmp'')"
    and "parseHandoff jparse (serializeHandoff jdump h) = Inr h'"
    and "\<And>out w'. so_result out = Staged \<Longrightarrow> same_env w w' \<Longrightarrow>
      content w' = (content w)(handoffPath config @ ''.tmp'' := None, handoffPath config \<mapsto> serializeHandoff jdump h) \<Longrightarrow>
      Q out w'"
  shows "wp_io (hand_off (sd_store vfs) jparse jdump now config manifest asset) Q w"
proof -
  have "wp_io (store_writeAtomic (handoffPath config) (serializeHandoff jdump h)) (\<lambda>ok w'. ok \<and>
      (\<forall>out. so_result out = Staged \<longrightarrow> Q out w')) w"
    unfolding store_writeAtomic_eq
    by (rule wp_writeFileAtomic_calm [OF assms(2, 4, 5)]) (use assms(7) in simp)
  then have "wp_io (fs_writeAtomic (sd_store vfs) (handoffPath config) (serializeHandoff jdump h)) (\<lambda>ok w'. ok \<and>
      (\<forall>out. so_result out = Staged \<longrightarrow> Q out w')) w"
    by (simp add: sd_store_def)
  then have "wp_io (fs_writeAtomic (sd_store vfs) (handoffPath config) (serializeHandoff jdump h)) (\<lambda>recorded.
      if \<not> recorded then wp_io (withdraw (sd_store vfs) config StageWriteFailed (''could not write '' @ handoffPath config)) Q
      else Q \<lparr>so_result = Staged, so_handoff = Some h, forwarderPath = su_forwarderNro config,
         forwarderArgs = [CHR 0x22] @ su_forwarderNro config @ [CHR 0x22] @ '' --handoff='' @ handoffPath config,
         so_transport = NoError, so_detail = ''staged '' @ toVersion h @ ''; restart to install''\<rparr>) w"
    by (rule wp_mono) simp
  moreover have "wp_io (ensureForwarder (sd_store vfs) config) R w = R True w" for R
    using assms(3) unfolding ensureForwarder_def wp live.exists_law by simp
  ultimately show ?thesis
    unfolding hand_off_def wp Let_def assms(1) [symmetric] assms(6) sum.case by simp
qed

lemma wp_stage_asset_calm:
  assumes h: "h = handoff_for config now manifest asset" and sep: "separate config"
    and can: "can_stage config w" and w1: "with_staging config w w1" "content w1 = content w"
    and asset: "wf_asset asset" and net: "\<And>n. delivers (net n) (asset_url asset) d"
    and d: "length d = unat (asset_size asset)" "sha256_spec (bytes_of d) = asset_sha256 asset" and cb: "patient cb"
    and parse: "parseHandoff jparse (serializeHandoff jdump h) = Inr h'"
  shows "wp_io (stage_asset (curl_gateway net) (sd_store vfs) jparse jdump now config manifest asset cb)
    (\<lambda>out w'. so_result out = Staged \<and> with_staging config w w' \<and>
      content w' = staged_card jdump config h d (content w)) w1"
  (is "wp_io _ ?Q w1")
proof -
  let ?st = "stagedNroPath config" and ?hp = "handoffPath config"
  let ?ex = "\<lparr>expected_size = asset_size asset, expected_sha256 = asset_sha256 asset\<rparr>"
  have hand: "wp_io (hand_off (sd_store vfs) jparse jdump now config manifest asset) ?Q w3"
    if w3: "with_staging config w w3" "content w3 = (content w)(?st @ ''.part'' := None, ?st \<mapsto> d)" for w3
  proof (rule wp_hand_off_calm [OF h _ _ _ _ parse])
    show "calm w3" using w3(1) by (simp add: with_staging_def)
    have "su_forwarderNro config \<noteq> ?st" "su_forwarderNro config \<noteq> ?st @ ''.part''" using sep by (auto simp: separate_def)
    then show "content w3 (su_forwarderNro config) \<noteq> None" using w3(2) can by (simp add: can_stage_def)
    show "hosts w3 ?hp" "hosts w3 (?hp @ ''.tmp'')" using staging_hosts [OF can w3(1)] by simp_all
    fix out :: StageOutcome and w'
    assume "so_result out = Staged" "same_env w3 w'"
      "content w' = (content w3)(?hp @ ''.tmp'' := None, ?hp \<mapsto> serializeHandoff jdump h)"
    then show "?Q out w'" using w3 with_staging_env [OF w3(1)] by (simp add: staged_card_def)
  qed
  have download: "wp_io (download_loop (curl_gateway net) (asset_url asset) ?st ?ex cb 0 0)
      (\<lambda>e w3. e = NoError \<and> with_staging config w w3 \<and> content w3 = (content w)(?st @ ''.part'' := None, ?st \<mapsto> d)) w2"
    if w2: "with_staging config w w2" "content w2 = (content w)(?st @ ''.part'' := None)" for w2
  proof -
    have "wp_io (curl_download (net (tick w2)) (asset_url asset) ?st ?ex cb)
        (\<lambda>r w3. r = Inr () \<and> with_staging config w w3 \<and> content w3 = (content w)(?st @ ''.part'' := None, ?st \<mapsto> d)) w2"
    proof (rule wp_curl_download_calm [OF _ _ net])
      show "calm w2" using w2(1) by (simp add: with_staging_def)
      show "http_isHttpsUrl (asset_url asset)" using asset by (simp add: wf_asset_def release_is_https)
      show "d \<noteq> []" using asset d(1) by (auto simp: wf_asset_def word_gt_0 unat_eq_0)
      show "hosts w2 (?st @ ''.part'')" "hosts w2 ?st" using staging_hosts [OF can w2(1)] by simp_all
    qed (use d cb w2 with_staging_env [OF w2(1)] in auto)
    then have "wp_io (http_download (curl_gateway net) (asset_url asset) ?st ?ex cb)
        (\<lambda>r w3. r = Inr () \<and> with_staging config w w3 \<and> content w3 = (content w)(?st @ ''.part'' := None, ?st \<mapsto> d)) w2"
      by (simp add: curl_gateway_def gateway_download_def wp_io_def)
    then show ?thesis by (subst download_loop.simps, unfold wp, elim wp_mono) simp
  qed
  have "wp_io (store_remove (?st @ ''.part''))
      (\<lambda>_ w2. with_staging config w w2 \<and> content w2 = (content w)(?st @ ''.part'' := None)) w1"
    unfolding store_remove_def wp_bind
    by (rule wp_remove_calm)
      (use w1 with_staging_env [OF w1(1)] in \<open>simp_all add: with_staging_def store_exists_law wp\<close>)
  then have "wp_io (fs_remove (sd_store vfs) (?st @ ''.part''))
      (\<lambda>_ w2. with_staging config w w2 \<and> content w2 = (content w)(?st @ ''.part'' := None)) w1"
    by (simp add: sd_store_def)
  moreover have "digestsEqual (asset_sha256 asset) (asset_sha256 asset)"
    using asset digestsEqual_iff [of "asset_sha256 asset" "asset_sha256 asset"] by (simp add: wf_asset_def)
  ultimately show ?thesis
    unfolding stage_asset_def wp_bind
    by (elim wp_mono conjE, intro wp_mono [OF download])
      (simp_all add: wp live.digest_law hand d(2) cong del: if_weak_cong)
qed

lemma wp_stage_calm:
  assumes h: "h = handoff_for config now manifest asset" and sep: "separate config"
    and found: "findAsset manifest AppNro = Some asset"
    and can: "can_stage config w" and room: "roomy vfs config asset"
    and asset: "wf_asset asset" and net: "\<And>n. delivers (net n) (asset_url asset) d"
    and d: "length d = unat (asset_size asset)" "sha256_spec (bytes_of d) = asset_sha256 asset" and cb: "patient cb"
    and parse: "parseHandoff jparse (serializeHandoff jdump h) = Inr h'"
  shows "wp_io (stage (curl_gateway net) (sd_store vfs) jparse jdump now config manifest cb)
    (\<lambda>out w'. so_result out = Staged \<and> with_staging config w w' \<and>
      content w' = staged_card jdump config h d (content w)) w"
  (is "wp_io _ ?Q w")
proof -
  have clear: "(q = su_stagingDir config \<or> ancestor q (su_stagingDir config)) \<longrightarrow> content w q = None" for q
    using can by (simp add: can_stage_def)
  have "wp_io (store_makeDirectories (su_stagingDir config))
      (\<lambda>made w1. made \<and> with_staging config w w1 \<and> content w1 = content w) w"
  proof (rule store_makeDirectories_law)
    fix w1 b
    assume w1: "passes w w1" "content w1 = content w" "set (dirs w) \<subseteq> set (dirs w1)"
      "\<forall>q\<in>set (dirs w1). q \<in> set (dirs w) \<or> q = su_stagingDir config \<or> ancestor q (su_stagingDir config)"
      "b = (su_stagingDir config \<in> set (dirs w1))"
      "b \<or> off w1 \<or> (\<exists>q. (q = su_stagingDir config \<or> ancestor q (su_stagingDir config)) \<and> content w q \<noteq> None)"
    have "calm w1" using passes_calm [OF w1(1)] can by (simp add: can_stage_def)
    moreover have b
    proof (rule ccontr)
      assume "\<not> b"
      then obtain q where "q = su_stagingDir config \<or> ancestor q (su_stagingDir config)" "content w q \<noteq> None"
        using w1(6) calm_not_off [OF \<open>calm w1\<close>] by auto
      with clear [of q] show False by simp
    qed
    ultimately show "b \<and> with_staging config w w1 \<and> content w1 = content w"
      using w1 by (simp add: with_staging_def)
  qed (use can in \<open>simp_all add: can_stage_def\<close>)
  then have "wp_io (fs_makeDirectories (sd_store vfs) (su_stagingDir config))
      (\<lambda>made w1. made \<and> with_staging config w w1 \<and> content w1 = content w) w" by (simp add: sd_store_def)
  then show ?thesis unfolding stage_def found option.case wp_bind
  proof (rule wp_mono, elim conjE)
    fix made w1 assume w1: "made" "with_staging config w w1" "content w1 = content w"
    have "wp_io (stage_asset (curl_gateway net) (sd_store vfs) jparse jdump now config manifest asset cb) ?Q w1"
      by (rule wp_stage_asset_calm [OF h sep can w1(2, 3) asset net d cb parse])
    moreover have "\<not> (free \<noteq> None \<and> the free < stage_needed config (asset_size asset))"
      if "free = (case vfs (su_stagingDir config) of None \<Rightarrow> None
        | Some st \<Rightarrow> if space_unit st = 0 then None else Some (space_unit st * f_bavail st))" for free
      using room that by (auto simp: roomy_def split: option.splits if_splits)
    ultimately show "wp_io (if \<not> made then State_Monad.return (stage_stop StageWriteFailed (''could not create '' @ su_stagingDir config))
        else do {
          free \<leftarrow> fs_freeSpaceBytes (sd_store vfs) (su_stagingDir config);
          let needed = stage_needed config (asset_size asset);
          if free \<noteq> None \<and> the free < needed then
            State_Monad.return (stage_stop InsufficientSpace
              (''need '' @ megabytes needed @ '' MB free, have '' @ megabytes (the free) @ '' MB''))
          else stage_asset (curl_gateway net) (sd_store vfs) jparse jdump now config manifest asset cb
        }) ?Q w1"
      using w1(1) by (simp add: sd_store_def store_freeSpaceBytes_def wp Let_def)
  qed
qed

section \<open>Staging prepares the swap\<close>

lemma separate_apart: "separate config \<Longrightarrow> apart (handoffPath config) (handoff_for config now manifest asset)"
  by (auto simp: separate_def apart_def handoff_for_def)

lemma own_handoff:
  assumes "h = handoff_for config now manifest asset" and "length (asset_sha256 asset) = kDigestSize"
    and "reads_back jparse jdump (handoff_document h)" and "int64_range now" and "int32_range (maxSwapAttempts config)"
    and "parseHandoff jparse (serializeHandoff jdump h) = Inr h'"
  shows "parseHandoff jparse (serializeHandoff jdump h) = Inr h"
  using parseHandoff_own [OF assms(3, 6)] assms by (simp add: handoff_for_def int32_range_def)

text \<open>A boot after staging finds the handoff it was left, or none.\<close>

lemma stage_post_inv:
  assumes post: "stage_post jparse jdump config h f out (content w)" and h: "h = handoff_for config now manifest asset"
    and sep: "separate config" and len: "length (asset_sha256 asset) = kDigestSize"
    and faithful: "reads_back jparse jdump (handoff_document h)"
    and range: "int64_range now" "int32_range (maxSwapAttempts config)"
    and start: "f (handoffPath config) = None" "f (su_targetNro config) = Some old" "old \<in> good"
  shows "swap_inv jparse good (handoffPath config) h w"
proof (rule swap_inv_targetI)
  have "su_targetNro config \<notin> stage_footprint config"
    using sep by (auto simp: separate_def stage_footprint_def)
  then show "content w (targetNro h) = Some old"
    using post start(2) by (simp add: stage_post_def stage_effect_def h handoff_for_def)
  show "content w (handoffPath config) = None \<or> carries jparse (handoffPath config) h w"
  proof (cases "so_result out = Staged")
    case True
    then obtain h' where on: "content w (handoffPath config) = Some (serializeHandoff jdump h)"
      and h': "parseHandoff jparse (serializeHandoff jdump h) = Inr h'"
      using post by (auto simp: stage_post_def update_ready_def)
    have "parseHandoff jparse (serializeHandoff jdump h) = Inr (h\<lparr>attempts := attempts h\<rparr>)"
      using own_handoff [OF h len faithful range h'] by simp
    then show ?thesis using on unfolding carries_def by blast
  qed (use post start(1) in \<open>auto simp: stage_post_def\<close>)
qed (rule start(3))

text \<open>A boot in which nothing fails installs what was staged.\<close>

lemma wp_boot_installs:
  assumes post: "stage_post jparse jdump config h f out (content w)" "so_result out = Staged"
    and h: "h = handoff_for config now manifest asset" and sep: "separate config"
    and len: "length (asset_sha256 asset) = kDigestSize" and faithful: "reads_back jparse jdump (handoff_document h)"
    and range: "int64_range now" "int32_range (maxSwapAttempts config)"
    and target: "f (su_targetNro config) \<noteq> None" and able: "writable h (handoffPath config) w" and calm: "calm w"
  shows "wp_io (runSwap jparse jdump (handoffPath config))
    (\<lambda>sw w'. swap_result sw = Installed \<and>
      (\<exists>d. sha256_spec (bytes_of d) = asset_sha256 asset \<and>
           content w' = installed_card h (handoffPath config) d (content w))) w"
  (is "wp_io _ ?Q w")
proof -
  obtain d h' where d: "content w (stagedNro h) = Some d" "sha256_spec (bytes_of d) = stagedSha256 h"
    and on: "content w (handoffPath config) = Some (serializeHandoff jdump h)"
    and h': "parseHandoff jparse (serializeHandoff jdump h) = Inr h'"
    using post by (auto simp: stage_post_def update_ready_def)
  note own = own_handoff [OF h len faithful range h']
  have "su_targetNro config \<notin> stage_footprint config"
    using sep by (auto simp: separate_def stage_footprint_def)
  then obtain c where c: "content w (targetNro h) = Some c"
    using post(1) target by (auto simp: stage_post_def stage_effect_def h handoff_for_def)
  have "\<not> attemptsExhausted h"
    using parseHandoff_wf [OF own] by (simp add: attemptsExhausted_def wf_handoff_def h handoff_for_def)
  note go = runSwap_performs [OF on own this]
  have "wp_io (performSwap jdump h (handoffPath config)) ?Q w"
    by (rule performSwap_calm [OF calm _ able c d]) (use separate_apart [OF sep] d h in \<open>auto simp: handoff_for_def\<close>)
  then show ?thesis using go c d(1) by simp
qed

section \<open>A release on a card\<close>

definition demo_asset :: ManifestAsset where
  "demo_asset =
     \<lparr>asset_name = ''nsx-manager.nro'', asset_kind = AppNro,
      asset_url = ''https://github.com/o/r/releases/download/v0.10.0/nsx-manager.nro'', asset_size = 3,
      asset_sha256 = sha256_spec (bytes_of ''abc'')\<rparr>"

definition demo_manifest :: UpdateManifest where
  "demo_manifest = sample_manifest\<lparr>man_assets := [demo_asset]\<rparr>"

definition demo_net :: "nat \<Rightarrow> network" where
  "demo_net n url hdr =
     \<lparr>tr_handle = True, tr_calls = [Chunk ''a'', Chunk ''bc''], tr_code = CURLE_OK, tr_verify = None, tr_status = 200\<rparr>"

definition demo_handoff :: Handoff where
  "demo_handoff = handoff_for default_SelfUpdateConfig 1700000000 demo_manifest demo_asset"

definition demo_card :: "(nat \<Rightarrow> outcome) \<Rightarrow> sd" where
  "demo_card f =
     \<lparr>files = [(''/switch/nsx-manager/nsx-manager.nro'', ''old''),
               (''/config/nsx-manager/forwarder/nsx-forwarder.nro'', ''fwd'')],
      dirs = [''/config'', ''/config/nsx-manager'', ''/config/nsx-manager/forwarder'', ''/switch'',
              ''/switch/nsx-manager''],
      fate = f, tick = 0\<rparr>"

definition demo_stage :: "StageOutcome io" where
  "demo_stage =
     stage (curl_gateway demo_net) (sd_store (\<lambda>_. None)) (tally_parse demo_handoff) tally_dump 1700000000
       default_SelfUpdateConfig demo_manifest None"

lemma demo_separate: "separate default_SelfUpdateConfig"
  by code_simp

lemma demo_asset_wf: "wf_asset demo_asset"
proof -
  have "isBareFilename ''nsx-manager.nro''"
    "isReleaseUrl ''https://github.com/o/r/releases/download/v0.10.0/nsx-manager.nro''" by code_simp+
  then show ?thesis by (simp add: wf_asset_def demo_asset_def length_sha256_spec)
qed

lemma demo_wf: "wf_manifest demo_manifest"
proof -
  have "wf_SemVer (man_version sample_manifest)" "wf_SemVer (man_minSupported sample_manifest)"
    "isIso8601Utc (man_publishedAt sample_manifest)" by code_simp+
  moreover have "man_tag sample_manifest = CHR ''v'' # ''0.10.0''" by code_simp
  moreover have "parseSemVer ''0.10.0'' = Inr (man_version sample_manifest)" by code_simp
  moreover have "man_schemaVersion sample_manifest = kSupportedManifestSchema" by code_simp
  moreover have "asset_kind demo_asset = AppNro" by (simp add: demo_asset_def)
  ultimately show ?thesis using demo_asset_wf by (simp add: wf_manifest_def demo_manifest_def)
qed

lemma demo_found: "findAsset demo_manifest AppNro = Some demo_asset"
  by (simp add: findAsset_def demo_manifest_def demo_asset_def)

lemma demo_delivers: "delivers (demo_net n) (asset_url demo_asset) ''abc''"
  by (simp add: delivers_def demo_net_def classifyStatus_def)

lemma demo_handoff_wf: "wf_handoff demo_handoff"
proof -
  have "isSafeAbsolutePath (stagedNroPath default_SelfUpdateConfig)" "isSafeAbsolutePath (su_targetNro default_SelfUpdateConfig)"
    "isSafeAbsolutePath (backupNroPath default_SelfUpdateConfig)" "isSafeAbsolutePath (su_forwarderNro default_SelfUpdateConfig)"
    by code_simp+
  moreover have "maxSwapAttempts default_SelfUpdateConfig = 3" by (simp add: default_SelfUpdateConfig_def)
  ultimately show ?thesis
    using demo_asset_wf by (simp add: wf_handoff_def demo_handoff_def handoff_for_def wf_asset_def int64_range_def)
qed

lemma demo_reads_back: "reads_back (tally_parse demo_handoff) tally_dump (handoff_document demo_handoff)"
proof -
  have "demo_handoff\<lparr>attempts := 0\<rparr> = demo_handoff" by (simp add: demo_handoff_def handoff_for_def)
  then show ?thesis
    using tally_faithful [of demo_handoff] unfolding json_faithful_def by (metis order_refl zero_le_numeral)
qed

lemma demo_ranges: "int64_range 1700000000" "int32_range (maxSwapAttempts default_SelfUpdateConfig)"
  by (simp_all add: int64_range_def int32_range_def default_SelfUpdateConfig_def)

lemma demo_card_content:
  "content (demo_card f) (handoffPath default_SelfUpdateConfig) = None"
  "content (demo_card f) (su_targetNro default_SelfUpdateConfig) = Some ''old''"
  by (simp_all add: content_def demo_card_def handoffPath_def default_SelfUpdateConfig_def)

lemma demo_can_stage: "can_stage default_SelfUpdateConfig (demo_card (\<lambda>_. Done))"
proof -
  let ?w = "demo_card (\<lambda>_. Done)"
  have "wf_card ?w" by code_simp
  moreover have "calm ?w" by (simp add: calm_def demo_card_def)
  moreover have "wf_path (su_stagingDir default_SelfUpdateConfig)" by code_simp
  moreover have "content ?w q = None" if "q = ''/config/nsx-manager/staging'' \<or> ancestor q ''/config/nsx-manager/staging''" for q
  proof -
    have "length q \<le> length ''/config/nsx-manager/staging''" using that ancestor_longer [of q] by fastforce
    then show ?thesis by (auto simp: content_def demo_card_def)
  qed
  ultimately show ?thesis
    by (simp add: can_stage_def good_card_def)
      (simp add: default_SelfUpdateConfig_def demo_card_def content_def stagedNroPath_def handoffPath_def backupNroPath_def)
qed

lemma demo_target_hosts:
  "hosts (demo_card f) (su_targetNro default_SelfUpdateConfig)"
  "hosts (demo_card f) (su_targetNro default_SelfUpdateConfig @ ''.new'')"
  "\<not> ancestor (su_targetNro default_SelfUpdateConfig @ ''.new'') (su_stagingDir default_SelfUpdateConfig)"
  "su_targetNro default_SelfUpdateConfig @ ''.new'' \<noteq> su_stagingDir default_SelfUpdateConfig"
  using ancestor_longer [of "su_targetNro default_SelfUpdateConfig @ ''.new''" "su_stagingDir default_SelfUpdateConfig"]
  by (auto simp: hosts_def demo_card_def default_SelfUpdateConfig_def dir_exists_def parent_dir_def)

lemma demo_body: "length ''abc'' = unat (asset_size demo_asset)" "sha256_spec (bytes_of ''abc'') = asset_sha256 demo_asset"
  by (simp, simp add: demo_asset_def) (simp only: demo_asset_def ManifestAsset.select_convs)

lemma demo_roomy: "roomy (\<lambda>_. None) config asset" "patient None"
  by (simp_all add: roomy_def patient_def)

lemma demo_staged:
  "so_result (fst (run_state demo_stage (demo_card (\<lambda>_. Done)))) = Staged \<and>
   with_staging default_SelfUpdateConfig (demo_card (\<lambda>_. Done)) (snd (run_state demo_stage (demo_card (\<lambda>_. Done))))"
proof -
  have "parseHandoff (tally_parse demo_handoff) (serializeHandoff tally_dump demo_handoff) = Inr demo_handoff"
    by (rule parseHandoff_roundtrip [OF demo_reads_back demo_handoff_wf])
  from wp_stage_calm [OF demo_handoff_def demo_separate demo_found demo_can_stage demo_roomy(1) demo_asset_wf
      demo_delivers demo_body demo_roomy(2) this]
  show ?thesis by (simp add: wp_result demo_stage_def)
qed

lemma demo_writable:
  "writable demo_handoff (handoffPath default_SelfUpdateConfig) (snd (run_state demo_stage (demo_card (\<lambda>_. Done))))"
proof -
  let ?w1 = "snd (run_state demo_stage (demo_card (\<lambda>_. Done)))" and ?t = "su_targetNro default_SelfUpdateConfig"
  have w1: "with_staging default_SelfUpdateConfig (demo_card (\<lambda>_. Done)) ?w1" using demo_staged by simp
  have "?t \<noteq> su_stagingDir default_SelfUpdateConfig" "\<not> ancestor ?t (su_stagingDir default_SelfUpdateConfig)"
    using ancestor_longer [of ?t "su_stagingDir default_SelfUpdateConfig"] by (auto simp: default_SelfUpdateConfig_def)
  then have "hosts ?w1 ?t" "hosts ?w1 (?t @ ''.new'')"
    using w1 demo_target_hosts(1, 2) [of "\<lambda>_. Done"] demo_target_hosts(3, 4) by (auto simp: hosts_def dir_exists_def with_staging_def)
  moreover have "targetNro demo_handoff = ?t" "backupNro demo_handoff = backupNroPath default_SelfUpdateConfig"
    by (simp_all add: demo_handoff_def handoff_for_def)
  ultimately show ?thesis using staging_hosts [OF demo_can_stage w1] by (simp add: writable_def)
qed

section \<open>Properties\<close>

text \<open>C1: The whole update never loses the application.  Whatever the network sends, wherever staging is
  interrupted, and however many boots of the forwarder follow, each with its own faults and power cuts, the
  old binary or one with the published digest is at the application's path, or the path is free and a backup
  and the handoff that leads to restoring it are there.\<close>

theorem update_never_loses_application:
  assumes "separate config" and "wf_manifest manifest" and "findAsset manifest AppNro = Some asset"
    and "h = handoff_for config now manifest asset" and "json_faithful jparse jdump h"
    and "int64_range now" and "int32_range (maxSwapAttempts config)"
    and "content w (handoffPath config) = None" and "content w (su_targetNro config) = Some old"
    and "run_state (stage (curl_gateway net) (sd_store vfs) jparse jdump now config manifest cb) w = (out, w1)"
    and "boots jparse jdump (handoffPath config) w1 w2"
  shows "app_safe jparse (insert old {d. sha256_spec (bytes_of d) = asset_sha256 asset}) (handoffPath config) h w2"
proof -
  let ?good = "insert old {d. sha256_spec (bytes_of d) = asset_sha256 asset}"
  note len = findAsset_digest [OF assms(2, 3)]
  have post: "stage_post jparse jdump config h (content w) out (content w1)"
    using live.wp_stage [OF assms(4, 1, 3) len, of net vfs jparse jdump cb w] assms(10) by (simp add: wp_io_def)
  have "h\<lparr>attempts := 0\<rparr> = h" using assms(4) by (simp add: handoff_for_def)
  then have own: "reads_back jparse jdump (handoff_document h)"
    using assms(5) unfolding json_faithful_def by (metis order_refl zero_le_numeral)
  have "swap_inv jparse ?good (handoffPath config) h w1"
    by (rule stage_post_inv [OF post assms(4, 1) len own assms(6-9)]) simp
  moreover have "digest_trusted ?good h" using assms(4) by (simp add: digest_trusted_def handoff_for_def)
  ultimately show ?thesis
    using boots_inv [OF assms(11)] separate_apart [OF assms(1)] assms(4, 5) by (simp add: swap_inv_def)
qed

theorem update_never_loses_application_witness:
  "app_safe (tally_parse demo_handoff) (insert ''old'' {d. sha256_spec (bytes_of d) = asset_sha256 demo_asset})
     (handoffPath default_SelfUpdateConfig) demo_handoff
     (snd (run_state (runSwap (tally_parse demo_handoff) tally_dump (handoffPath default_SelfUpdateConfig))
        ((snd (run_state demo_stage (demo_card (\<lambda>n. if n < 9 then Done else Torn 1))))
           \<lparr>fate := (\<lambda>n. if n < 4 then Done else Fails), tick := 0\<rparr>)))"
  by (rule update_never_loses_application [OF demo_separate demo_wf demo_found demo_handoff_def tally_faithful
        demo_ranges demo_card_content(1, 2) _ boots.again [OF boots.none prod.collapse [symmetric]],
        where out = "fst (run_state demo_stage (demo_card (\<lambda>n. if n < 9 then Done else Torn 1)))"])
    (unfold demo_stage_def, rule prod.collapse [symmetric])

text \<open>C11: An update reported as staged is installed.  Whatever faults occurred while it was staged, the next boot in
  which the file operations succeed reports \<^verbatim>\<open>Installed\<close> and leaves a binary with the published digest at the
  application's path, with the staged copy, the backup and the handoff gone.\<close>

theorem staged_update_installs:
  assumes "separate config" and "wf_manifest manifest" and "findAsset manifest AppNro = Some asset"
    and "h = handoff_for config now manifest asset" and "reads_back jparse jdump (handoff_document h)"
    and "int64_range now" and "int32_range (maxSwapAttempts config)"
    and "content w (su_targetNro config) \<noteq> None"
    and "run_state (stage (curl_gateway net) (sd_store vfs) jparse jdump now config manifest cb) w = (out, w1)"
    and "readyToChainload out" and "writable h (handoffPath config) w1"
  shows "case run_state (runSwap jparse jdump (handoffPath config)) (power_on w1) of (sw, w2) \<Rightarrow>
    swap_result sw = Installed \<and>
    (\<exists>d. sha256_spec (bytes_of d) = asset_sha256 asset \<and>
         content w2 = installed_card h (handoffPath config) d (content w1))"
proof -
  note len = findAsset_digest [OF assms(2, 3)]
  have "stage_post jparse jdump config h (content w) out (content w1)"
    using live.wp_stage [OF assms(4, 1, 3) len, of net vfs jparse jdump cb w] assms(9) by (simp add: wp_io_def)
  then have post: "stage_post jparse jdump config h (content w) out (content (power_on w1))"
    by (simp add: power_on_def)
  have "writable h (handoffPath config) (power_on w1)"
    using assms(11) by (simp add: writable_def hosts_def dir_exists_def power_on_def)
  moreover have "calm (power_on w1)" by (simp add: calm_def power_on_def)
  moreover have "so_result out = Staged" using assms(10) by (simp add: readyToChainload_def)
  ultimately have "wp_io (runSwap jparse jdump (handoffPath config))
    (\<lambda>sw w'. swap_result sw = Installed \<and>
      (\<exists>d. sha256_spec (bytes_of d) = asset_sha256 asset \<and>
           content w' = installed_card h (handoffPath config) d (content (power_on w1)))) (power_on w1)"
    by (intro wp_boot_installs [OF post _ assms(4, 1) len assms(5-8)])
  then show ?thesis by (simp add: wp_io_def power_on_def)
qed

theorem staged_update_installs_witness:
  "swap_result (fst (run_state (runSwap (tally_parse demo_handoff) tally_dump (handoffPath default_SelfUpdateConfig))
     (power_on (snd (run_state demo_stage (demo_card (\<lambda>_. Done))))))) = Installed"
proof -
  let ?run = "run_state demo_stage (demo_card (\<lambda>_. Done))"
  have target: "content (demo_card (\<lambda>_. Done)) (su_targetNro default_SelfUpdateConfig) \<noteq> None"
    by (simp add: demo_card_content)
  have ready: "readyToChainload (fst ?run)" using demo_staged by (simp add: readyToChainload_def)
  have "case run_state (runSwap (tally_parse demo_handoff) tally_dump (handoffPath default_SelfUpdateConfig))
      (power_on (snd ?run)) of (sw, w2) \<Rightarrow> swap_result sw = Installed \<and>
    (\<exists>d. sha256_spec (bytes_of d) = asset_sha256 demo_asset \<and>
      content w2 = installed_card demo_handoff (handoffPath default_SelfUpdateConfig) d (content (snd ?run)))"
    by (rule staged_update_installs [OF demo_separate demo_wf demo_found demo_handoff_def demo_reads_back demo_ranges
        target _ ready demo_writable]) (unfold demo_stage_def, rule prod.collapse [symmetric])
  then show ?thesis unfolding case_prod_unfold by (rule conjunct1)
qed

text \<open>C12: The update goes through.  On an intact card with space and without faults, with a server that delivers the
  published binary, staging reports \<^verbatim>\<open>Staged\<close> and the next boot installs exactly that binary.\<close>

theorem update_completes:
  assumes "separate config" and "wf_manifest manifest" and "findAsset manifest AppNro = Some asset"
    and "wf_handoff h" and "h = handoff_for config now manifest asset" and "json_faithful jparse jdump h"
    and "can_stage config w" and "roomy vfs config asset" and "patient cb"
    and "\<forall>n. delivers (net n) (asset_url asset) d" and "length d = unat (asset_size asset)"
    and "sha256_spec (bytes_of d) = asset_sha256 asset"
    and "content w (su_targetNro config) = Some old" and "hosts w (su_targetNro config)"
    and "hosts w (su_targetNro config @ ''.new'')" and "\<not> ancestor (su_targetNro config @ ''.new'') (su_stagingDir config)"
    and "su_targetNro config @ ''.new'' \<noteq> su_stagingDir config"
  shows "case run_state (stage (curl_gateway net) (sd_store vfs) jparse jdump now config manifest cb) w of (out, w1) \<Rightarrow>
    so_result out = Staged \<and>
    (case run_state (runSwap jparse jdump (handoffPath config)) w1 of (sw, w2) \<Rightarrow>
       swap_result sw = Installed \<and> content w2 (su_targetNro config) = Some d)"
proof -
  have h0: "h\<lparr>attempts := 0\<rparr> = h" using assms(5) by (simp add: handoff_for_def)
  then have own: "reads_back jparse jdump (handoff_document h)"
    using assms(6) unfolding json_faithful_def by (metis order_refl zero_le_numeral)
  note parse = parseHandoff_roundtrip [OF own assms(4)]
  have asset: "wf_asset asset"
    using assms(2, 3) by (auto simp: wf_manifest_def findAsset_def find_Some_iff list_all_iff)
  obtain out w1 where run: "run_state (stage (curl_gateway net) (sd_store vfs) jparse jdump now config manifest cb) w = (out, w1)"
    by (cases "run_state (stage (curl_gateway net) (sd_store vfs) jparse jdump now config manifest cb) w")
  have w1: "so_result out = Staged" "with_staging config w w1" "content w1 = staged_card jdump config h d (content w)"
    using wp_stage_calm [OF assms(5, 1, 3, 7, 8) asset _ assms(11, 12, 9) parse, of net] assms(10) run
    by (simp_all add: wp_io_def)
  have files: "stagedNro h = stagedNroPath config" "targetNro h = su_targetNro config" "backupNro h = backupNroPath config"
    using assms(5) by (simp_all add: handoff_for_def)
  have ap: "apart (handoffPath config) h" using separate_apart [OF assms(1)] assms(5) by simp
  have here: "content w1 (su_targetNro config) = Some old" "content w1 (stagedNroPath config) = Some d"
    "content w1 (handoffPath config) = Some (serializeHandoff jdump h)"
    using w1(3) assms(13) assms(1) by (auto simp: staged_card_def separate_def)
  have target: "hosts w1 p" if "hosts w p" "p \<noteq> su_stagingDir config" "\<not> ancestor p (su_stagingDir config)" for p
    using that w1(2) by (auto simp: hosts_def dir_exists_def with_staging_def)
  have "su_targetNro config \<noteq> su_stagingDir config" "\<not> ancestor (su_targetNro config) (su_stagingDir config)"
    using assms(7, 13) by (auto simp: can_stage_def)
  then have able: "writable h (handoffPath config) w1"
    using staging_hosts [OF assms(7) w1(2)] target assms(14-17) by (simp add: writable_def files)
  have "\<not> attemptsExhausted h" using assms(4, 5) by (simp add: attemptsExhausted_def wf_handoff_def handoff_for_def)
  note go = runSwap_performs [OF here(3) parse this]
  have "wp_io (performSwap jdump h (handoffPath config))
      (\<lambda>sw w2. swap_result sw = Installed \<and> content w2 (su_targetNro config) = Some d) w1"
    by (rule performSwap_calm [OF _ ap able])
      (use w1(2) here files assms(5, 12) in \<open>auto simp: with_staging_def installed_card_def handoff_for_def\<close>)
  then have "wp_io (runSwap jparse jdump (handoffPath config))
      (\<lambda>sw w2. swap_result sw = Installed \<and> content w2 (su_targetNro config) = Some d) w1"
    using go here(1, 2) by (simp add: files)
  then show ?thesis using run w1(1) by (simp add: wp_io_def)
qed

theorem update_completes_witness:
  "so_result (fst (run_state demo_stage (demo_card (\<lambda>_. Done)))) = Staged"
proof -
  have "case run_state demo_stage (demo_card (\<lambda>_. Done)) of (out, w1) \<Rightarrow>
      so_result out = Staged \<and>
      (case run_state (runSwap (tally_parse demo_handoff) tally_dump (handoffPath default_SelfUpdateConfig)) w1 of (sw, w2) \<Rightarrow>
         swap_result sw = Installed \<and> content w2 (su_targetNro default_SelfUpdateConfig) = Some ''abc'')"
    unfolding demo_stage_def
    by (rule update_completes [OF demo_separate demo_wf demo_found demo_handoff_wf demo_handoff_def tally_faithful
        demo_can_stage demo_roomy allI [OF demo_delivers] demo_body demo_card_content(2) demo_target_hosts])
  then show ?thesis unfolding case_prod_unfold by (rule conjunct1)
qed

text \<open>C13: Staging changes only the staged binary with its part file, the handoff with its temporary file and a
  forwarder that was missing, whatever faults occur.  If it reports \<^verbatim>\<open>Staged\<close>, the binary on the card has the
  published digest, the handoff on the card is one the forwarder accepts, and the forwarder is there; otherwise
  no handoff was written.\<close>

theorem stage_contract:
  assumes "separate config" and "wf_manifest manifest" and "findAsset manifest AppNro = Some asset"
  shows "case run_state (stage (curl_gateway net) (sd_store vfs) jparse jdump now config manifest cb) w of (out, w') \<Rightarrow>
    stage_post jparse jdump config (handoff_for config now manifest asset) (content w) out (content w')"
  using live.wp_stage [OF refl assms(1, 3) findAsset_digest [OF assms(2, 3)], of net vfs jparse jdump now cb w]
  by (simp add: wp_io_def)

theorem stage_contract_witness:
  "content (snd (run_state demo_stage (demo_card (\<lambda>n. if n < 7 then Done else Torn 2))))
     (su_targetNro default_SelfUpdateConfig) = Some ''old''"
proof -
  have "su_targetNro default_SelfUpdateConfig \<notin> stage_footprint default_SelfUpdateConfig"
    using demo_separate by (auto simp: separate_def stage_footprint_def)
  then show ?thesis
    using stage_contract [OF demo_separate demo_wf demo_found, where net = demo_net and vfs = "\<lambda>_. None"
        and jparse = "tally_parse demo_handoff" and jdump = tally_dump and now = 1700000000 and cb = None
        and w = "demo_card (\<lambda>n. if n < 7 then Done else Torn 2)"] demo_card_content(2)
    by (simp add: demo_stage_def stage_post_def stage_effect_def case_prod_unfold)
qed

text \<open>C23: The download is tried at most four times, and again only after a digest mismatch or a failure that may
  pass: every attempt but the last failed that way, and the result is that of the last.  A digest that never
  matches is tried twice, a failure that may pass three times, and anything else once.\<close>

theorem download_attempts:
  "case run_state (download_loop (scripted outcomes) url dest ex cb 0 0) 0 of (e, n) \<Rightarrow>
     1 \<le> n \<and> n \<le> 4 \<and> e = error_of (outcomes (n - 1)) \<and> list_all retryable (map outcomes [0..<n - 1]) \<and>
     (\<forall>x. outcomes = (\<lambda>_. Inl x) \<longrightarrow>
       n = (if x = HttpError.DigestMismatch then 2 else if isTransient x then 3 else 1))"
proof -
  obtain e n where run: "run_state (download_loop (scripted outcomes) url dest ex cb 0 0) 0 = (e, n)" by fastforce
  have "n = (if x = HttpError.DigestMismatch then 2 else if isTransient x then 3 else 1)" if "outcomes = (\<lambda>_. Inl x)" for x
    using run unfolding that
    by (cases x; simp add: run_download_loop kDigestAttempts_def kTransientAttempts_def)
  then show ?thesis
    using download_loop_count [OF _ _ run] run
    by (auto simp: kDigestAttempts_def kTransientAttempts_def list_all_iff)
qed

theorem download_attempts_witness:
  "snd (run_state (download_loop (scripted (\<lambda>_. Inl Timeout)) ''https://h/f'' ''/f''
     \<lparr>expected_size = 1, expected_sha256 = []\<rparr> None 0 0) 0) = 3"
  using download_attempts [where outcomes = "\<lambda>_. Inl Timeout" and url = "''https://h/f''" and dest = "''/f''"
    and ex = "\<lparr>expected_size = 1, expected_sha256 = []\<rparr>" and cb = None]
  by (auto simp: case_prod_unfold fun_eq_iff)

end
