(* ===== verification/Catalog_Service.thy ===== *)
theory Catalog_Service
  imports Catalog Document_Cache
begin

text \<open>
  Fetching the content catalogue: \<^verbatim>\<open>domain/catalog/catalog_service.hpp\<close> and \<^verbatim>\<open>catalog_service.cpp\<close>.
\<close>

record CatalogConfig =
  catalogUrl :: string
  cat_mirrorUrl :: string
  cat_cacheDir :: string
  cat_cacheTtlSeconds :: int
  cat_backoff :: BackoffPolicy

definition default_CatalogConfig :: CatalogConfig where
  "default_CatalogConfig =
     \<lparr>catalogUrl = ''https://github.com/mateussantoos/nsx-catalog/releases/latest/download/catalog.json'',
      cat_mirrorUrl = ''https://raw.githubusercontent.com/mateussantoos/nsx-catalog/'' @
        ''catalog-metadata/catalog.json'',
      cat_cacheDir = ''/config/nsx-manager/cache'', cat_cacheTtlSeconds = 24 * 60 * 60,
      cat_backoff = default_BackoffPolicy\<rparr>"

definition cachedCatalogPath :: "CatalogConfig \<Rightarrow> string" where
  "cachedCatalogPath config = cat_cacheDir config @ ''/catalog.json''"

definition cat_cacheMetadataPath :: "CatalogConfig \<Rightarrow> string" where
  "cat_cacheMetadataPath config = cat_cacheDir config @ ''/catalog.meta.json''"

definition cat_backoffPath :: "CatalogConfig \<Rightarrow> string" where
  "cat_backoffPath config = cat_cacheDir config @ ''/catalog.backoff.json''"

definition cat_setPreferMirror :: "bool \<Rightarrow> CatalogConfig \<Rightarrow> CatalogConfig" where
  "cat_setPreferMirror prefer config =
     (if prefer \<and> cat_mirrorUrl config \<noteq> [] \<and> catalogUrl config \<noteq> cat_mirrorUrl config
      then config\<lparr>catalogUrl := cat_mirrorUrl config, cat_mirrorUrl := catalogUrl config\<rparr>
      else config)"

record CatalogOutcome =
  ct_catalog :: "Catalog option"
  ct_plan :: FetchPlan
  ct_servedFromCache :: bool
  ct_usedMirror :: bool
  ct_ageSeconds :: int
  ct_transport :: HttpError
  ct_detail :: string

definition empty_CatalogOutcome :: CatalogOutcome where
  "empty_CatalogOutcome =
     \<lparr>ct_catalog = None, ct_plan = Fetch, ct_servedFromCache = False, ct_usedMirror = False, ct_ageSeconds = 0,
      ct_transport = NoError, ct_detail = []\<rparr>"

definition available :: "CatalogOutcome \<Rightarrow> bool" where
  "available out = (ct_catalog out \<noteq> None)"

section \<open>Cache and backoff\<close>

definition cat_loadCache ::
  "'w FileStore \<Rightarrow> (string \<Rightarrow> json option) \<Rightarrow> CatalogConfig \<Rightarrow> ('w, (CacheMetadata \<times> string) option) state" where
  "cat_loadCache fs jparse config = load_document fs jparse (cat_cacheMetadataPath config) (cachedCatalogPath config)"

definition cat_loadBackoff ::
  "'w FileStore \<Rightarrow> (string \<Rightarrow> json option) \<Rightarrow> CatalogConfig \<Rightarrow> ('w, BackoffState) state" where
  "cat_loadBackoff fs jparse config = load_counters fs jparse (cat_backoffPath config)"

definition cat_saveBackoff ::
  "'w FileStore \<Rightarrow> (json \<Rightarrow> string) \<Rightarrow> CatalogConfig \<Rightarrow> BackoffState \<Rightarrow> ('w, unit) state" where
  "cat_saveBackoff fs jdump config st = save_counters fs jdump (cat_cacheDir config) (cat_backoffPath config) st"

definition cat_storeCache ::
  "'w FileStore \<Rightarrow> (json \<Rightarrow> string) \<Rightarrow> CatalogConfig \<Rightarrow> string \<Rightarrow> string \<Rightarrow> string \<Rightarrow> int \<Rightarrow> ('w, bool) state" where
  "cat_storeCache fs jdump config document tag url nowUnix =
     store_document fs jdump (cat_cacheDir config) (cat_cacheMetadataPath config) (cachedCatalogPath config)
       document tag url nowUnix"

definition invalidateCache :: "'w FileStore \<Rightarrow> CatalogConfig \<Rightarrow> ('w, unit) state" where
  "invalidateCache fs config = do {
     _ \<leftarrow> fs_remove fs (cachedCatalogPath config);
     _ \<leftarrow> fs_remove fs (cat_cacheMetadataPath config);
     State_Monad.return ()
   }"

section \<open>Fetching\<close>

definition cat_fromDocument ::
  "(string \<Rightarrow> json option) \<Rightarrow> string \<Rightarrow> bool \<Rightarrow> int \<Rightarrow> FetchPlan \<Rightarrow> string \<Rightarrow> CatalogOutcome" where
  "cat_fromDocument jparse document cached age plan detail =
     (let out = empty_CatalogOutcome\<lparr>ct_plan := plan, ct_servedFromCache := cached, ct_ageSeconds := age,
            ct_detail := detail\<rparr> in
      case parseCatalog jparse document of
        Inl e \<Rightarrow> out\<lparr>ct_detail := describe_CatalogError e\<rparr>
      | Inr catalog \<Rightarrow> out\<lparr>ct_catalog := Some catalog\<rparr>)"

definition fetch_failed ::
  "'w FileStore \<Rightarrow> (string \<Rightarrow> json option) \<Rightarrow> (json \<Rightarrow> string) \<Rightarrow> int \<Rightarrow> CatalogConfig \<Rightarrow>
   (CacheMetadata \<times> string) option \<Rightarrow> BackoffState \<Rightarrow> FetchDecision \<Rightarrow> bool \<Rightarrow> HttpError \<Rightarrow> ('w, CatalogOutcome) state" where
  "fetch_failed fs jparse jdump now config cached backoff plan mirror e = do {
     cat_saveBackoff fs jdump config (afterFailure backoff now (cat_backoff config) (of_int now));
     State_Monad.return
       (case cached of
          Some (_, document) \<Rightarrow>
            (cat_fromDocument jparse document True (cacheAge plan) (fetch_plan plan)
               (''catalogue fetch failed ('' @ describeTransport e @ ''); showing the last known catalogue''))
              \<lparr>ct_transport := e, ct_usedMirror := mirror\<rparr>
        | None \<Rightarrow>
            empty_CatalogOutcome\<lparr>ct_plan := fetch_plan plan, ct_transport := e, ct_usedMirror := mirror,
              ct_detail := describeTransport e\<rparr>)
   }"

definition fetch_answered ::
  "'w FileStore \<Rightarrow> (string \<Rightarrow> json option) \<Rightarrow> (json \<Rightarrow> string) \<Rightarrow> int \<Rightarrow> CatalogConfig \<Rightarrow>
   (CacheMetadata \<times> string) option \<Rightarrow> BackoffState \<Rightarrow> FetchDecision \<Rightarrow> bool \<Rightarrow> Response \<Rightarrow> ('w, CatalogOutcome) state" where
  "fetch_answered fs jparse jdump now config cached backoff plan mirror response =
     (let source = (if mirror then cat_mirrorUrl config else catalogUrl config) in
      if resp_status response = 304 \<and> cached \<noteq> None then do {
        let meta = fst (the cached);
        let document = snd (the cached);
        _ \<leftarrow> cat_storeCache fs jdump config document (if etag meta = [] then ifNoneMatch plan else etag meta)
          (if sourceUrl meta = [] then source else sourceUrl meta) now;
        cat_saveBackoff fs jdump config (afterSuccess backoff now);
        State_Monad.return
          ((cat_fromDocument jparse document True 0 (fetch_plan plan) ''not modified since last check'')
             \<lparr>ct_usedMirror := mirror\<rparr>)
      }
      else do {
        let out = (cat_fromDocument jparse (resp_body response) False 0 (fetch_plan plan)
          ''fetched a fresh catalogue'')\<lparr>ct_usedMirror := mirror\<rparr>;
        if \<not> available out then do {
          cat_saveBackoff fs jdump config (afterFailure backoff now (cat_backoff config) (of_int now));
          State_Monad.return
            (case cached of
               Some (_, document) \<Rightarrow>
                 (cat_fromDocument jparse document True (cacheAge plan) (fetch_plan plan)
                    (''the published catalogue could not be read ('' @ ct_detail out @
                     ''); showing the last known catalogue''))\<lparr>ct_usedMirror := mirror\<rparr>
             | None \<Rightarrow> out)
        }
        else do {
          _ \<leftarrow> cat_storeCache fs jdump config (resp_body response) (resp_etag response) source now;
          cat_saveBackoff fs jdump config (afterSuccess backoff now);
          State_Monad.return out
        }
      })"

definition catalog_fetch ::
  "'w HttpGateway \<Rightarrow> 'w FileStore \<Rightarrow> (string \<Rightarrow> json option) \<Rightarrow> (json \<Rightarrow> string) \<Rightarrow> int \<Rightarrow> CatalogConfig \<Rightarrow>
   ('w, CatalogOutcome) state" where
  "catalog_fetch http fs jparse jdump now config = do {
     cached \<leftarrow> cat_loadCache fs jparse config;
     backoff \<leftarrow> cat_loadBackoff fs jparse config;
     let plan = planManifestFetch (map_option fst cached) backoff now (cat_cacheTtlSeconds config) (cat_backoff config);
     if fetch_plan plan = ServeCache \<or> fetch_plan plan = DeferToCache then
       State_Monad.return
         (cat_fromDocument jparse (snd (the cached)) True (cacheAge plan) (fetch_plan plan) (fetch_reason plan))
     else if fetch_plan plan = DeferNoCache then
       State_Monad.return
         (empty_CatalogOutcome\<lparr>ct_plan := fetch_plan plan, ct_detail := fetch_reason plan\<rparr>)
     else do {
       r \<leftarrow> fetch_mirrored http (catalogUrl config) (cat_mirrorUrl config) (ifNoneMatch plan);
       case snd r of
         Inl e \<Rightarrow> fetch_failed fs jparse jdump now config cached backoff plan (fst r) e
       | Inr response \<Rightarrow> fetch_answered fs jparse jdump now config cached backoff plan (fst r) response
     }
   }"

end
