(* ===== verification/Catalog_Fetch.thy ===== *)
theory Catalog_Fetch
  imports Catalog_Service Update_Check
begin

text \<open>
  What fetching the catalogue promises: what is shown was served or is vouched for by its metadata, nothing
  unreadable is cached, and the files of the update check are never touched.
\<close>

section \<open>Specification\<close>

definition cat_vouched ::
  "(string \<Rightarrow> json option) \<Rightarrow> CatalogConfig \<Rightarrow> (string \<Rightarrow> string option) \<Rightarrow> CacheMetadata \<Rightarrow> string \<Rightarrow> bool" where
  "cat_vouched jparse config f meta doc =
     (f (cachedCatalogPath config) = Some doc \<and> cacheMatchesDocument meta doc \<and>
      (\<exists>raw. f (cat_cacheMetadataPath config) = Some raw \<and> parseCacheMetadata jparse raw = Inr meta))"

definition fetch_sound ::
  "(string \<Rightarrow> (HttpError, Response) result \<Rightarrow> bool) \<Rightarrow> (string \<Rightarrow> json option) \<Rightarrow> CatalogConfig \<Rightarrow>
   (string \<Rightarrow> string option) \<Rightarrow> CatalogOutcome \<Rightarrow> bool" where
  "fetch_sound answer jparse config f out =
     (\<forall>c. ct_catalog out = Some c \<longrightarrow>
        (\<exists>doc. parseCatalog jparse doc = Inr c \<and>
           (if ct_servedFromCache out then \<exists>meta. cat_vouched jparse config f meta doc
            else \<exists>url resp. url \<in> {catalogUrl config, cat_mirrorUrl config} \<and> answer url (Inr resp) \<and>
              resp_body resp = doc)))"

definition fetch_footprint :: "CatalogConfig \<Rightarrow> string set" where
  "fetch_footprint config =
     {cachedCatalogPath config, cachedCatalogPath config @ ''.tmp'', cat_cacheMetadataPath config,
      cat_cacheMetadataPath config @ ''.tmp'', cat_backoffPath config, cat_backoffPath config @ ''.tmp''}"

definition catalog_kept ::
  "(string \<Rightarrow> json option) \<Rightarrow> CatalogConfig \<Rightarrow> (string \<Rightarrow> string option) \<Rightarrow> (string \<Rightarrow> string option) \<Rightarrow> bool" where
  "catalog_kept jparse config f f' =
     ((\<forall>q. q \<notin> fetch_footprint config \<longrightarrow> f' q = f q) \<and>
      (f' (cachedCatalogPath config) = f (cachedCatalogPath config) \<or> f' (cachedCatalogPath config) = None \<or>
       (\<exists>doc c. f' (cachedCatalogPath config) = Some doc \<and> parseCatalog jparse doc = Inr c)))"

section \<open>Facts\<close>

lemma catalog_paths [simp]:
  "cachedCatalogPath config \<noteq> cat_backoffPath config" "cachedCatalogPath config \<noteq> cat_backoffPath config @ ''.tmp''"
  "cachedCatalogPath config \<noteq> cat_cacheMetadataPath config"
  "cachedCatalogPath config \<noteq> cat_cacheMetadataPath config @ ''.tmp''"
  by (simp_all add: cachedCatalogPath_def cat_backoffPath_def cat_cacheMetadataPath_def)

lemma cat_fromDocument_sound:
  assumes "if cached then \<exists>meta. cat_vouched jparse config f meta doc
    else \<exists>url resp. url \<in> {catalogUrl config, cat_mirrorUrl config} \<and> answer url (Inr resp) \<and> resp_body resp = doc"
  shows "fetch_sound answer jparse config f (cat_fromDocument jparse doc cached age plan detail)"
  using assms
  by (cases "parseCatalog jparse doc")
    (auto simp: fetch_sound_def cat_fromDocument_def Let_def empty_CatalogOutcome_def)

lemma fetch_sound_update [simp]:
  "fetch_sound answer jparse config f (out\<lparr>ct_usedMirror := m\<rparr>) = fetch_sound answer jparse config f out"
  "fetch_sound answer jparse config f (out\<lparr>ct_transport := e\<rparr>) = fetch_sound answer jparse config f out"
  by (simp_all add: fetch_sound_def)

lemma fetch_sound_none: "ct_catalog out = None \<Longrightarrow> fetch_sound answer jparse config f out"
  by (simp add: fetch_sound_def)

lemma available_document:
  "available (cat_fromDocument jparse doc cached age plan detail) \<Longrightarrow> \<exists>c. parseCatalog jparse doc = Inr c"
  by (cases "parseCatalog jparse doc")
    (simp_all add: cat_fromDocument_def Let_def empty_CatalogOutcome_def available_def)

lemma catalog_kept_refl: "catalog_kept jparse config f f"
  by (simp add: catalog_kept_def)

context update_ports
begin

lemma wp_cat_saveBackoff:
  assumes "catalog_kept jparse config f (cont w)" and "\<And>w'. catalog_kept jparse config f (cont w') \<Longrightarrow> Q () w'"
  shows "wp_io (cat_saveBackoff fs jdump config st) Q w"
  unfolding cat_saveBackoff_def
proof (rule wp_save_counters, rule assms(2))
  fix w'
  assume same: "\<forall>q. q \<noteq> cat_backoffPath config \<longrightarrow> q \<noteq> cat_backoffPath config @ ''.tmp'' \<longrightarrow> cont w' q = cont w q"
  have "cont w' (cachedCatalogPath config) = cont w (cachedCatalogPath config)" using same by simp
  moreover have "\<forall>q. q \<notin> fetch_footprint config \<longrightarrow> cont w' q = cont w q" using same by (simp add: fetch_footprint_def)
  ultimately show "catalog_kept jparse config f (cont w')" using assms(1) by (simp add: catalog_kept_def)
qed

lemma wp_cat_storeCache:
  assumes "f = cont w" and "f (cachedCatalogPath config) = Some document \<or> parseCatalog jparse document = Inr c"
    and "\<And>w' b. catalog_kept jparse config f (cont w') \<Longrightarrow> Q b w'"
  shows "wp_io (cat_storeCache fs jdump config document tag url now) Q w"
  unfolding cat_storeCache_def
proof (rule wp_store_document, simp, simp, rule assms(3))
  fix w' and b :: bool
  assume same: "\<forall>q. q \<notin> {cachedCatalogPath config, cachedCatalogPath config @ ''.tmp'', cat_cacheMetadataPath config,
      cat_cacheMetadataPath config @ ''.tmp''} \<longrightarrow> cont w' q = cont w q"
    and doc: "cont w' (cachedCatalogPath config) \<in> {cont w (cachedCatalogPath config), None, Some document}"
  have "\<forall>q. q \<notin> fetch_footprint config \<longrightarrow> cont w' q = cont w q" using same by (simp add: fetch_footprint_def)
  then show "catalog_kept jparse config f (cont w')" using assms(1, 2) doc by (auto simp: catalog_kept_def)
qed

lemma wp_fetch_failed:
  assumes "\<And>meta doc. cached = Some (meta, doc) \<Longrightarrow> cat_vouched jparse config (cont w) meta doc"
  shows "wp_io (fetch_failed fs jparse jdump now config cached backoff plan mirror e)
    (\<lambda>out w'. fetch_sound answer jparse config (cont w) out \<and> catalog_kept jparse config (cont w) (cont w')) w"
proof -
  have "fetch_sound answer jparse config (cont w) (case cached of
      Some (_, document) \<Rightarrow>
        (cat_fromDocument jparse document True (cacheAge plan) (fetch_plan plan)
           (''catalogue fetch failed ('' @ describeTransport e @ ''); showing the last known catalogue''))
          \<lparr>ct_transport := e, ct_usedMirror := mirror\<rparr>
    | None \<Rightarrow> empty_CatalogOutcome\<lparr>ct_plan := fetch_plan plan, ct_transport := e, ct_usedMirror := mirror,
          ct_detail := describeTransport e\<rparr>)"
  proof (cases cached)
    case (Some c)
    then have "\<exists>meta. cat_vouched jparse config (cont w) meta (snd c)" using assms by (cases c) auto
    then show ?thesis using Some by (cases c) (simp add: cat_fromDocument_sound)
  qed (simp add: fetch_sound_none empty_CatalogOutcome_def)
  then show ?thesis unfolding fetch_failed_def wp
    by (intro wp_cat_saveBackoff [OF catalog_kept_refl]) simp
qed

lemma wp_fetch_answered:
  assumes cached: "\<And>meta doc. cached = Some (meta, doc) \<Longrightarrow> cat_vouched jparse config (cont w) meta doc"
    and resp: "answer (if mirror then cat_mirrorUrl config else catalogUrl config) (Inr response)"
  shows "wp_io (fetch_answered fs jparse jdump now config cached backoff plan mirror response)
    (\<lambda>out w'. fetch_sound answer jparse config (cont w) out \<and> catalog_kept jparse config (cont w) (cont w')) w"
    (is "wp_io _ ?Q w")
proof -
  have old: "fetch_sound answer jparse config (cont w) (cat_fromDocument jparse doc True age fp detail)"
    if "cached = Some (meta, doc)" for meta doc age fp detail
    by (rule cat_fromDocument_sound) (use cached [OF that] in auto)
  let ?out = "cat_fromDocument jparse (resp_body response) False 0 (fetch_plan plan) ''fetched a fresh catalogue''"
  have new: "fetch_sound answer jparse config (cont w) ?out"
    by (rule cat_fromDocument_sound) (use resp in \<open>cases mirror; auto\<close>)
  have kept: "wp_io (cat_saveBackoff fs jdump config st) (\<lambda>_. ?Q out) v"
    if "catalog_kept jparse config (cont w) (cont v)" "fetch_sound answer jparse config (cont w) out" for st out v
    by (rule wp_cat_saveBackoff [OF that(1)]) (simp add: that(2))
  show ?thesis
  proof (cases "resp_status response = 304 \<and> cached \<noteq> None")
    case True
    then obtain meta doc where c: "cached = Some (meta, doc)" by auto
    have "cont w (cachedCatalogPath config) = Some doc" using cached [OF c] by (simp add: cat_vouched_def)
    then have "wp_io (cat_storeCache fs jdump config doc tag url now) (\<lambda>_. wp_io (cat_saveBackoff fs jdump config st)
        (\<lambda>_. ?Q ((cat_fromDocument jparse doc True 0 (fetch_plan plan) ''not modified since last check'')
          \<lparr>ct_usedMirror := mirror\<rparr>))) w" for tag url st
      by (intro wp_cat_storeCache [OF refl] kept disjI1) (simp_all add: old [OF c])
    then show ?thesis using True c by (simp add: fetch_answered_def wp Let_def)
  next
    case False
    show ?thesis
    proof (cases "available (?out\<lparr>ct_usedMirror := mirror\<rparr>)")
      case True
      then obtain c where "parseCatalog jparse (resp_body response) = Inr c"
        using available_document unfolding available_def by fastforce
      then have "wp_io (cat_storeCache fs jdump config (resp_body response) tag url now)
          (\<lambda>_. wp_io (cat_saveBackoff fs jdump config st) (\<lambda>_. ?Q (?out\<lparr>ct_usedMirror := mirror\<rparr>))) w" for tag url st
        by (intro wp_cat_storeCache [OF refl] kept disjI2) (simp_all add: new)
      then show ?thesis using True unfolding fetch_answered_def Let_def if_not_P [OF False] by (simp add: wp)
    next
      case unreadable: False
      have "fetch_sound answer jparse config (cont w) (case cached of
             Some (_, document) \<Rightarrow>
               (cat_fromDocument jparse document True (cacheAge plan) (fetch_plan plan)
                  (''the published catalogue could not be read ('' @ ct_detail (?out\<lparr>ct_usedMirror := mirror\<rparr>) @
                   ''); showing the last known catalogue''))\<lparr>ct_usedMirror := mirror\<rparr>
           | None \<Rightarrow> ?out\<lparr>ct_usedMirror := mirror\<rparr>)"
        using old new by (auto split: option.splits)
      from kept [OF catalog_kept_refl this] show ?thesis
        using unreadable unfolding fetch_answered_def Let_def if_not_P [OF False] by (simp add: wp)
    qed
  qed
qed

lemma wp_catalog_fetch:
  "wp_io (catalog_fetch http fs jparse jdump now config)
    (\<lambda>out w'. fetch_sound answer jparse config (cont w) out \<and> catalog_kept jparse config (cont w) (cont w')) w"
  (is "wp_io _ ?Q w")
  unfolding catalog_fetch_def wp_bind Let_def cat_loadCache_def cat_loadBackoff_def
proof (rule wp_load_document, rule wp_load_counters, goal_cases)
  case (1 cached backoff)
  define plan where
    "plan = planManifestFetch (map_option fst cached) backoff now (cat_cacheTtlSeconds config) (cat_backoff config)"
  have vouch: "cat_vouched jparse config (cont w) meta doc" if "cached = Some (meta, doc)" for meta doc
    using 1 [OF that] by (simp add: cat_vouched_def)
  have serve: "?Q (cat_fromDocument jparse (snd (the cached)) True (cacheAge plan) (fetch_plan plan) (fetch_reason plan)) w"
    if fp: "fetch_plan plan = ServeCache \<or> fetch_plan plan = DeferToCache"
  proof -
    have "cached \<noteq> None" using plan_needs_cache fp unfolding plan_def by fastforce
    then obtain meta doc where c: "cached = Some (meta, doc)" by auto
    have "fetch_sound answer jparse config (cont w)
        (cat_fromDocument jparse doc True (cacheAge plan) (fetch_plan plan) (fetch_reason plan))"
      by (rule cat_fromDocument_sound) (use vouch [OF c] in auto)
    then show ?thesis using c by (simp add: catalog_kept_refl)
  qed
  have silent: "?Q (empty_CatalogOutcome\<lparr>ct_plan := fetch_plan plan, ct_detail := fetch_reason plan\<rparr>) w"
    by (simp add: fetch_sound_none empty_CatalogOutcome_def catalog_kept_refl)
  have ask: "wp_io (fetch_mirrored http (catalogUrl config) (cat_mirrorUrl config) tag) (\<lambda>r. wp_io (case snd r of
         Inl e \<Rightarrow> fetch_failed fs jparse jdump now config cached backoff plan (fst r) e
       | Inr response \<Rightarrow> fetch_answered fs jparse jdump now config cached backoff plan (fst r) response) ?Q) w" for tag
  proof (rule wp_fetch_mirrored, goal_cases)
    case (1 m url r)
    then show ?case using wp_fetch_failed [OF vouch] wp_fetch_answered [OF vouch] by (cases r) simp_all
  qed
  show ?case
    using serve silent ask unfolding plan_def [symmetric] by (simp add: wp cong del: if_weak_cong)
qed

end

section \<open>Properties\<close>

text \<open>The two services share a directory, but no file.\<close>

lemma footprints_disjoint:
  assumes "cat_cacheDir cconfig = cacheDir uconfig"
  shows "fetch_footprint cconfig \<inter> check_footprint uconfig = {}"
  using assms
  by (auto simp: fetch_footprint_def check_footprint_def cachedCatalogPath_def cat_cacheMetadataPath_def
      cat_backoffPath_def cachedManifestPath_def cacheMetadataPath_def backoffPath_def)

text \<open>C15: Whatever the network answers and whichever card operations fail, a catalogue that is shown was served by one of
  the two configured addresses or is the cached document its metadata vouches for, a document that could not
  be read is never cached, and the cache and the failure counters of the update check, in the same directory,
  stay as they are: the two endpoints never throttle each other.\<close>

theorem catalog_fetch_independent:
  assumes "cat_cacheDir config = cacheDir uconfig"
  shows "case run_state (catalog_fetch (curl_gateway net) (sd_store vfs) jparse jdump now config) w of (out, w') \<Rightarrow>
    fetch_sound (served net) jparse config (content w) out \<and> catalog_kept jparse config (content w) (content w') \<and>
    (\<forall>q\<in>check_footprint uconfig. content w' q = content w q)"
  using live.wp_catalog_fetch [of net vfs jparse jdump now config w] footprints_disjoint [OF assms]
  by (auto simp: wp_io_def catalog_kept_def)

theorem catalog_fetch_independent_witness:
  "content (snd (run_state (catalog_fetch (curl_gateway (\<lambda>_ _ _. \<lparr>tr_handle = False, tr_calls = [], tr_code = CURLE_OK,
        tr_verify = None, tr_status = 0\<rparr>)) (sd_store (\<lambda>_. None)) (\<lambda>_. None) echo_dump 5 default_CatalogConfig)
      \<lparr>files = [(''/config/nsx-manager/cache/backoff.json'', ''b'')], dirs = [], fate = (\<lambda>_. Done), tick = 0\<rparr>))
    ''/config/nsx-manager/cache/backoff.json'' = Some ''b''"
  using catalog_fetch_independent [of default_CatalogConfig default_SelfUpdateConfig,
      where net = "\<lambda>_ _ _. \<lparr>tr_handle = False, tr_calls = [], tr_code = CURLE_OK, tr_verify = None, tr_status = 0\<rparr>"
      and vfs = "\<lambda>_. None" and jparse = "\<lambda>_. None" and jdump = echo_dump and now = 5
      and w = "\<lparr>files = [(''/config/nsx-manager/cache/backoff.json'', ''b'')], dirs = [], fate = (\<lambda>_. Done), tick = 0\<rparr>"]
  by (simp add: case_prod_unfold check_footprint_def backoffPath_def default_CatalogConfig_def
      default_SelfUpdateConfig_def content_def)

end
