(* ===== verification/Firmware_Install.thy ===== *)
theory Firmware_Install
  imports Firmware_Set Catalog Ports
begin

text \<open>
  Staging a firmware set for the installer: \<^verbatim>\<open>domain/firmware/firmware_install_service.hpp\<close> and
  \<^verbatim>\<open>firmware_install_service.cpp\<close>, against the ports.
\<close>

section \<open>Configuration and outcomes\<close>

record FirmwareConfig =
  fw_firmwareDir :: string
  fw_stagingRoot :: string
  daybreakNro :: string
  fw_headroomPercent :: int
  fw_maxUncompressedBytes :: "64 word"

definition default_FirmwareConfig :: FirmwareConfig where
  "default_FirmwareConfig =
     \<lparr>fw_firmwareDir = ''/firmware'', fw_stagingRoot = ''/config/nsx-manager/staging/firmware'',
      daybreakNro = ''/switch/daybreak.nro'', fw_headroomPercent = 220,
      fw_maxUncompressedBytes = 4 * 1024 * 1024 * 1024\<rparr>"

definition fw_archiveFor :: "FirmwareConfig \<Rightarrow> string \<Rightarrow> string" where
  "fw_archiveFor config ident = fw_stagingRoot config @ ''/'' @ ident @ ''.zip''"

datatype FirmwareResult =
    FwReady | NotFirmwareItem | FwInsufficientSpace | FwDownloadFailed | FwVerifyFailed | FwUnsafeArchive
  | FwExtractFailed | DirectoryNotOurs | ClearFailed | NotFirmwareContent | DaybreakMissing | FwCancelled

datatype FirmwareStage = FwPreflight | FwDownloading | FwClearing | FwExtracting

record FirmwareProgress =
  fp_stage :: FirmwareStage
  fp_done :: "64 word"
  fp_total :: "64 word"
  fp_detail :: string

type_synonym FirmwareCallback = "(FirmwareProgress \<Rightarrow> bool) option"

record FirmwareOutcome =
  fo_result :: FirmwareResult
  filesStaged :: nat
  previousFilesRemoved :: nat
  unexpectedFiles :: "string list"
  fo_transport :: HttpError
  fo_detail :: string
  fo_firmwareDir :: string
  daybreakArgs :: string

definition empty_FirmwareOutcome :: FirmwareOutcome where
  "empty_FirmwareOutcome =
     \<lparr>fo_result = FwDownloadFailed, filesStaged = 0, previousFilesRemoved = 0, unexpectedFiles = [],
      fo_transport = NoError, fo_detail = [], fo_firmwareDir = [], daybreakArgs = []\<rparr>"

definition readyForDaybreak :: "FirmwareOutcome \<Rightarrow> bool" where
  "readyForDaybreak out = (fo_result out = FwReady)"

fun describe_FirmwareResult :: "FirmwareResult \<Rightarrow> string" where
  "describe_FirmwareResult FwReady = ''firmware ready to install''"
| "describe_FirmwareResult NotFirmwareItem = ''that catalogue item is not a firmware set''"
| "describe_FirmwareResult FwInsufficientSpace = ''not enough free space''"
| "describe_FirmwareResult FwDownloadFailed = ''the download failed''"
| "describe_FirmwareResult FwVerifyFailed = ''the download did not verify''"
| "describe_FirmwareResult FwUnsafeArchive =
     ''the firmware archive contains a file that would be written outside /firmware''"
| "describe_FirmwareResult FwExtractFailed = ''the firmware archive could not be expanded''"
| "describe_FirmwareResult DirectoryNotOurs = ''/firmware contains files this application will not delete''"
| "describe_FirmwareResult ClearFailed = ''the previous firmware set could not be removed''"
| "describe_FirmwareResult NotFirmwareContent = ''that archive does not contain a firmware set''"
| "describe_FirmwareResult DaybreakMissing = ''Daybreak is not installed''"
| "describe_FirmwareResult FwCancelled = ''cancelled''"

definition fw_report :: "FirmwareCallback \<Rightarrow> FirmwareStage \<Rightarrow> 64 word \<Rightarrow> 64 word \<Rightarrow> string \<Rightarrow> bool" where
  "fw_report onProgress stage completed of_total detail =
     (case onProgress of
        None \<Rightarrow> True
      | Some f \<Rightarrow> f \<lparr>fp_stage = stage, fp_done = completed, fp_total = of_total, fp_detail = detail\<rparr>)"

definition fw_stop :: "FirmwareOutcome \<Rightarrow> FirmwareResult \<Rightarrow> string \<Rightarrow> FirmwareOutcome" where
  "fw_stop out r detail = out\<lparr>fo_result := r, fo_detail := detail\<rparr>"

section \<open>Operations\<close>

definition fw_join :: "string \<Rightarrow> string \<Rightarrow> string" where
  "fw_join root relative =
     (if root = [] \<or> root = ''/'' then ''/'' @ relative
      else if last root = CHR ''/'' then root @ relative
      else root @ ''/'' @ relative)"

definition inspect :: "'w FileStore \<Rightarrow> FirmwareConfig \<Rightarrow> ('w, FirmwareDirectoryScan) state" where
  "inspect fs config = do {
     found \<leftarrow> fs_listFilesRecursive fs (fw_firmwareDir config);
     State_Monad.return (scanFirmwareDirectory found)
   }"

definition fw_discardStaging :: "'w FileStore \<Rightarrow> FirmwareConfig \<Rightarrow> string \<Rightarrow> ('w, unit) state" where
  "fw_discardStaging fs config ident = do {
     _ \<leftarrow> fs_remove fs (fw_archiveFor config ident @ ''.part'');
     _ \<leftarrow> fs_remove fs (fw_archiveFor config ident);
     State_Monad.return ()
   }"

text \<open>Giving up after the download has started: the archive is deleted.\<close>

definition fw_abandon ::
  "'w FileStore \<Rightarrow> FirmwareConfig \<Rightarrow> CatalogItem \<Rightarrow> FirmwareOutcome \<Rightarrow> ('w, FirmwareOutcome) state" where
  "fw_abandon fs config item out = do {
     fw_discardStaging fs config (item_id item);
     State_Monad.return out
   }"

fun fw_download_result :: "HttpError \<Rightarrow> FirmwareResult" where
  "fw_download_result DigestMismatch = FwVerifyFailed"
| "fw_download_result SizeMismatch = FwVerifyFailed"
| "fw_download_result Aborted = FwCancelled"
| "fw_download_result _ = FwDownloadFailed"

fun fw_extract_result :: "ArchiveError \<Rightarrow> FirmwareResult" where
  "fw_extract_result UnsafeEntry = FwUnsafeArchive"
| "fw_extract_result ArchiveAborted = FwCancelled"
| "fw_extract_result _ = FwExtractFailed"

definition fw_needed :: "FirmwareConfig \<Rightarrow> 64 word \<Rightarrow> 64 word" where
  "fw_needed config bytes = bytes + bytes * word_of_int (fw_headroomPercent config) div 100"

text \<open>Removing the previous set; \<open>Inl\<close> is the file that stayed, with the number removed before it.\<close>

fun fw_clear :: "'w FileStore \<Rightarrow> string \<Rightarrow> nat \<Rightarrow> string list \<Rightarrow> ('w, string \<times> nat + nat) state" where
  "fw_clear fs dir removed [] = State_Monad.return (Inr removed)"
| "fw_clear fs dir removed (relative # rest) = do {
     gone \<leftarrow> fs_remove fs (fw_join dir relative);
     if \<not> gone then State_Monad.return (Inl (relative, removed))
     else fw_clear fs dir (removed + 1) rest
   }"

text \<open>Step 5: what landed has to be a firmware set.\<close>

definition fw_confirm ::
  "'w FileStore \<Rightarrow> FirmwareConfig \<Rightarrow> CatalogItem \<Rightarrow> FirmwareOutcome \<Rightarrow> ('w, FirmwareOutcome) state" where
  "fw_confirm fs config item out = do {
     staged \<leftarrow> fs_listFilesRecursive fs (fw_firmwareDir config);
     if \<not> looksLikeFirmware staged then
       fw_abandon fs config item (fw_stop out NotFirmwareContent
         (if staged = [] then ''the archive expanded to nothing'' else ''the archive contains no firmware content''))
     else do {
       fw_discardStaging fs config (item_id item);
       State_Monad.return ((fw_stop out FwReady
         (''firmware '' @ (if item_versionText item = [] then item_name item else item_versionText item) @
          '' is ready; Daybreak will install it''))
         \<lparr>filesStaged := length staged, fo_firmwareDir := fw_firmwareDir config,
          daybreakArgs := [CHR 0x22] @ daybreakNro config @ [CHR 0x22] @ '' '' @ [CHR 0x22] @
            fw_firmwareDir config @ [CHR 0x22]\<rparr>)
     }
   }"

text \<open>Step 4: expand into the emptied directory.\<close>

definition fw_extract ::
  "'w ArchiveGateway \<Rightarrow> 'w FileStore \<Rightarrow> FirmwareConfig \<Rightarrow> CatalogItem \<Rightarrow> FirmwareCallback \<Rightarrow> FirmwareOutcome \<Rightarrow>
   ('w, FirmwareOutcome) state" where
  "fw_extract archives fs config item onProgress out =
     (if \<not> fw_report onProgress FwExtracting 0 0 (item_name item) then
        fw_abandon fs config item (fw_stop out FwCancelled ''cancelled'')
      else do {
        extracted \<leftarrow> arch_extract archives (fw_archiveFor config (item_id item))
          \<lparr>m_root = fw_firmwareDir config, m_preserve = Preserve_Rules.parse []\<rparr> (fw_maxUncompressedBytes config)
          (map_option (\<lambda>_ p. fw_report onProgress FwExtracting (of_nat (entriesDone p)) (of_nat (entriesTotal p))
             (if currentEntry p = [] then item_name item else currentEntry p)) onProgress);
        case extracted of
          Inl e \<Rightarrow> fw_abandon fs config item (fw_stop out (fw_extract_result e) (describe_ArchiveError e))
        | Inr _ \<Rightarrow> fw_confirm fs config item out
      })"

text \<open>Step 3: only now is the previous set removed.\<close>

definition fw_replace ::
  "'w ArchiveGateway \<Rightarrow> 'w FileStore \<Rightarrow> FirmwareConfig \<Rightarrow> CatalogItem \<Rightarrow> FirmwareCallback \<Rightarrow> nat \<Rightarrow>
   ('w, FirmwareOutcome) state" where
  "fw_replace archives fs config item onProgress existing =
     (if \<not> fw_report onProgress FwClearing 0 (of_nat existing) (fw_firmwareDir config) then
        fw_abandon fs config item (fw_stop empty_FirmwareOutcome FwCancelled ''cancelled'')
      else do {
        previous \<leftarrow> fs_listFilesRecursive fs (fw_firmwareDir config);
        cleared \<leftarrow> fw_clear fs (fw_firmwareDir config) 0 previous;
        case cleared of
          Inl (relative, removed) \<Rightarrow>
            fw_abandon fs config item
              (fw_stop (empty_FirmwareOutcome\<lparr>previousFilesRemoved := removed\<rparr>) ClearFailed
                (''could not remove '' @ relative @ '' from '' @ fw_firmwareDir config))
        | Inr removed \<Rightarrow> do {
            let out = empty_FirmwareOutcome\<lparr>previousFilesRemoved := removed\<rparr>;
            made \<leftarrow> fs_makeDirectories fs (fw_firmwareDir config);
            if \<not> made then
              fw_abandon fs config item
                (fw_stop out ClearFailed (''could not create '' @ fw_firmwareDir config))
            else fw_extract archives fs config item onProgress out
          }
      })"

text \<open>Step 2: download and verify.\<close>

definition fw_download ::
  "'w HttpGateway \<Rightarrow> 'w ArchiveGateway \<Rightarrow> 'w FileStore \<Rightarrow> FirmwareConfig \<Rightarrow> CatalogItem \<Rightarrow> FirmwareCallback \<Rightarrow> nat \<Rightarrow>
   ('w, FirmwareOutcome) state" where
  "fw_download http archives fs config item onProgress existing =
     (if \<not> fw_report onProgress FwDownloading 0 (item_size item) (item_name item) then
        State_Monad.return (fw_stop empty_FirmwareOutcome FwCancelled ''cancelled'')
      else do {
        downloaded \<leftarrow> http_download http (item_url item) (fw_archiveFor config (item_id item))
          \<lparr>expected_size = item_size item, expected_sha256 = item_sha256 item\<rparr>
          (map_option (\<lambda>_ p. fw_report onProgress FwDownloading (received p) (expected_total p) (item_name item))
             onProgress);
        case downloaded of
          Inl e \<Rightarrow> fw_abandon fs config item
            (fw_stop (empty_FirmwareOutcome\<lparr>fo_transport := e\<rparr>) (fw_download_result e) (describe_HttpError e))
        | Inr _ \<Rightarrow> fw_replace archives fs config item onProgress existing
      })"

definition fw_stage ::
  "'w HttpGateway \<Rightarrow> 'w ArchiveGateway \<Rightarrow> 'w FileStore \<Rightarrow> FirmwareConfig \<Rightarrow> CatalogItem \<Rightarrow> FirmwareCallback \<Rightarrow>
   ('w, FirmwareOutcome) state" where
  "fw_stage http archives fs config item onProgress =
     (if item_kind item \<noteq> Firmware then
        State_Monad.return (fw_stop empty_FirmwareOutcome NotFirmwareItem
          ([CHR 0x27] @ item_name item @ [CHR 0x27] @ '' is not a firmware set''))
      else if \<not> fw_report onProgress FwPreflight 0 0 (item_name item) then
        State_Monad.return (fw_stop empty_FirmwareOutcome FwCancelled ''cancelled'')
      else do {
        existing \<leftarrow> inspect fs config;
        if \<not> onlyFirmware existing then
          State_Monad.return ((fw_stop empty_FirmwareOutcome DirectoryNotOurs
            (''/firmware contains '' @ show_nat (length (unexpected existing)) @
             '' file(s) this application did not put there, starting with '' @ [CHR 0x27] @
             hd (unexpected existing) @ [CHR 0x27] @ ''. Move them out and try again.''))
            \<lparr>unexpectedFiles := unexpected existing\<rparr>)
        else do {
          installer \<leftarrow> fs_exists fs (daybreakNro config);
          if \<not> installer then
            State_Monad.return (fw_stop empty_FirmwareOutcome DaybreakMissing
              (''install Daybreak at '' @ daybreakNro config @ '' first''))
          else do {
            fw_discardStaging fs config (item_id item);
            made \<leftarrow> fs_makeDirectories fs (fw_stagingRoot config);
            if \<not> made then
              State_Monad.return (fw_stop empty_FirmwareOutcome FwExtractFailed
                (''could not create '' @ fw_stagingRoot config))
            else do {
              free \<leftarrow> fs_freeSpaceBytes fs (fw_stagingRoot config);
              let needed = fw_needed config (item_size item);
              if free \<noteq> None \<and> the free < needed then
                State_Monad.return (fw_stop empty_FirmwareOutcome FwInsufficientSpace
                  (''need about '' @ show_nat (unat (needed div 1024 div 1024)) @ '' MB free, have '' @
                   show_nat (unat (the free div 1024 div 1024)) @ '' MB''))
              else fw_download http archives fs config item onProgress (firmwareFiles existing)
            }
          }
        }
      })"

end
