(* ===== verification/Card_Keeps.thy ===== *)
theory Card_Keeps
  imports Gateways Store_Laws
begin

text \<open>
  Whatever fails, the card stays well formed: every entry keeps an existing directory above it, and no path is
  a file and a directory at once.  Transfers, the file store and extraction are covered.
\<close>

named_theorems keeps "operations that keep a card well formed"

definition keeps_card :: "'a io \<Rightarrow> bool" where
  "keeps_card m = (\<forall>w. wf_card w \<longrightarrow> wf_card (snd (run_state m w)))"

lemma keepsI: "(\<And>w. wf_card w \<Longrightarrow> wf_card (snd (run_state m w))) \<Longrightarrow> keeps_card m"
  by (simp add: keeps_card_def)

lemma wp_keeps: "keeps_card m \<Longrightarrow> wp_io m (\<lambda>_ w'. wf_card w \<longrightarrow> wf_card w') w"
  by (simp add: keeps_card_def wp_result)

section \<open>Composition\<close>

lemma keeps_return [keeps]: "keeps_card (State_Monad.return x)"
  by (simp add: keeps_card_def State_Monad.return_def)

lemma keeps_bind [keeps]: "keeps_card m \<Longrightarrow> (\<And>x. keeps_card (f x)) \<Longrightarrow> keeps_card (State_Monad.bind m f)"
  by (simp add: keeps_card_def State_Monad.bind_def case_prod_unfold)

lemma keeps_if [keeps]: "(b \<Longrightarrow> keeps_card m) \<Longrightarrow> (\<not> b \<Longrightarrow> keeps_card n) \<Longrightarrow> keeps_card (if b then m else n)"
  by simp

lemma keeps_option [keeps]:
  "keeps_card m \<Longrightarrow> (\<And>x. keeps_card (f x)) \<Longrightarrow> keeps_card (case v of None \<Rightarrow> m | Some x \<Rightarrow> f x)"
  by (cases v) simp_all

lemma keeps_sum [keeps]:
  "(\<And>e. keeps_card (m e)) \<Longrightarrow> (\<And>x. keeps_card (f x)) \<Longrightarrow> keeps_card (case v of Inl e \<Rightarrow> m e | Inr x \<Rightarrow> f x)"
  by (cases v) simp_all

lemma keeps_forM [keeps]: "(\<And>x. x \<in> set xs \<Longrightarrow> keeps_card (f x)) \<Longrightarrow> keeps_card (forM xs f)"
  by (induction xs) (simp_all add: keeps_return keeps_bind)

section \<open>The calls of the C library\<close>

lemma wf_card_tick [simp]: "wf_card (w\<lparr>tick := n\<rparr>) = wf_card w"
  by (simp add: wf_card_def paths_def content_def [abs_def] dir_exists_def [abs_def])

lemma wf_card_set:
  assumes "wf_card w" and "wf_path p" and "dir_exists w (parent_dir p)" and "p \<notin> set (dirs w)"
  shows "wf_card (w\<lparr>tick := n, files := AList.update p d (files w)\<rparr>)"
  by (rule wf_card_update [OF assms]) simp_all

lemma wf_card_reset:
  assumes "wf_card w" and "content w p = Some old"
  shows "wf_card (w\<lparr>tick := n, files := AList.update p d (files w)\<rparr>)"
proof (rule wf_card_set [OF assms(1)])
  have "p \<in> set (paths w)" using assms(2) by (rule content_Some_path)
  then show "wf_path p" "dir_exists w (parent_dir p)" using wf_card_path [OF assms(1)] by auto
  show "p \<notin> set (dirs w)" using wf_card_dir [OF assms(1)] assms(2) by auto
qed

lemma keeps_read [keeps]: "keeps_card (c_read p)"
  by (simp add: keeps_card_def c_read_def)

lemma keeps_is_dir [keeps]: "keeps_card (c_is_dir p)"
  by (simp add: keeps_card_def c_is_dir_def)

lemma keeps_exists [keeps]: "keeps_card (c_exists p)"
  by (simp add: keeps_card_def c_exists_def)

lemma wf_card_drop: "wf_card w \<Longrightarrow> wf_card (w\<lparr>tick := n, files := AList.delete p (files w)\<rparr>)"
  by (rule wf_card_delete [of w _ p]) simp_all

lemma keeps_remove [keeps]: "keeps_card (c_remove p)"
  by (rule keepsI) (auto simp: c_remove_def Let_def wf_card_drop split: outcome.splits)

lemma wf_card_newdir:
  assumes "wf_card w" and "wf_path p" and "\<not> is_dir w p" and "content w p = None" and "dir_exists w (parent_dir p)"
  shows "wf_card (w\<lparr>tick := n, dirs := dirs w @ [p]\<rparr>)"
  by (rule wf_card_mkdir [OF assms(1, 2, 5) _ assms(4)]) (use assms(3) in \<open>simp_all add: is_dir_def\<close>)

lemma keeps_mkdir [keeps]: "wf_path p \<Longrightarrow> keeps_card (c_mkdir p)"
  by (rule keepsI) (simp add: c_mkdir_def Let_def wf_card_newdir split: outcome.split)

lemma keeps_open [keeps]: "wf_path p \<Longrightarrow> keeps_card (c_open p)"
  by (rule keepsI) (auto simp: c_open_def Let_def wf_card_set split: outcome.splits)

lemma keeps_append [keeps]: "keeps_card (c_append p d)"
  by (rule keepsI) (auto simp: c_append_def Let_def wf_card_reset split: outcome.splits option.splits)

lemma keeps_flush [keeps]: "keeps_card (c_flush p)"
  by (rule keepsI) (auto simp: c_flush_def Let_def wf_card_reset split: outcome.splits option.splits)

lemma keeps_rename [keeps]: "wf_path to \<Longrightarrow> keeps_card (c_rename from to)"
proof (rule keepsI)
  fix w assume to: "wf_path to" and wf: "wf_card w"
  have "wf_card (w\<lparr>tick := Suc (tick w), files := AList.update to d (AList.delete from (files w))\<rparr>)"
    if "dir_exists w (parent_dir to)" "to \<notin> set (dirs w)" for d
    using wf_card_set [OF wf_card_drop [OF wf] to, where n = "Suc (tick w)"] that by (simp add: dir_exists_def)
  then show "wf_card (snd (run_state (c_rename from to) w))"
    using wf by (auto simp: c_rename_def Let_def split: outcome.splits option.splits)
qed

section \<open>Directories\<close>

text \<open>A path, possibly with a slash behind it.\<close>

definition dir_path :: "string \<Rightarrow> bool" where
  "dir_path p = (wf_path p \<or> (\<exists>q. p = q @ ''/'' \<and> wf_path q))"

lemma mkdir_list_wf:
  assumes "dir_path p" and "x \<in> set (mkdir_list p)"
  shows "wf_path x"
proof -
  obtain i where i: "i < length p" "mkdir_component p i = Some x"
    using assms(2) by (auto simp: mkdir_list_def map_filter_def)
  obtain q where q: "wf_path q" "p = q \<or> p = q @ ''/''" using assms(1) by (auto simp: dir_path_def)
  show ?thesis
  proof (cases "p ! i = CHR ''/'' \<and> i > 0")
    case True
    then have x: "x = take i p" using i by (auto simp: mkdir_component_def Let_def split: if_splits)
    have p: "p = take i p @ CHR ''/'' # drop (Suc i) p" using True i(1) by (metis id_take_nth_drop)
    have ne: "take i p \<noteq> []" using True i(1) by auto
    show ?thesis
    proof (cases "i < length q")
      case True
      then have "take i p = take i q" "q = take i q @ CHR ''/'' # drop (Suc i) q"
        using q(2) \<open>p ! i = CHR ''/'' \<and> i > 0\<close> id_take_nth_drop [of i q] by (auto simp: nth_append)
      then show ?thesis using q(1) ne x by (metis wf_path_append)
    next
      case False
      then have "take i p = q" using i(1) q(2) by auto
      then show ?thesis using q(1) x by simp
    qed
  next
    case False
    then have "x = p" "i + 1 = length p" using i by (auto simp: mkdir_component_def Let_def split: if_splits)
    moreover have "p = q" using q(2) False \<open>i + 1 = length p\<close> wf_path_last(3) [OF q(1)] by (auto simp: nth_append)
    ultimately show ?thesis using q(1) by simp
  qed
qed

lemma keeps_makeDirectories [keeps]: "dir_path p \<Longrightarrow> keeps_card (store_makeDirectories p)"
  unfolding store_makeDirectories_def by (intro keeps mkdir_list_wf)

section \<open>Transfers\<close>

lemma keeps_deliver [keeps]: "keeps_card (deliver part cb calls sink)"
  by (induction part cb calls sink rule: deliver.induct)
    (auto simp: writeToFile_def intro!: keeps)

lemma keeps_conclude [keeps]: "wf_path dest \<Longrightarrow> keeps_card (conclude tr dest ex stopped sink)"
  unfolding conclude_def Let_def discard_def by (intro keeps)

lemma keeps_curl_download: "wf_path dest \<Longrightarrow> wf_path (dest @ ''.part'') \<Longrightarrow> keeps_card (curl_download net url dest ex cb)"
  unfolding curl_download_def Let_def by (intro keeps)

lemma wf_path_suffix:
  assumes "wf_path p" and "list_all (\<lambda>c. c \<noteq> CHR ''/'' \<and> c \<noteq> CHR '':'' \<and> c \<noteq> CHR 0x0A) s" and "length s > 2"
  shows "wf_path (p @ s)"
proof -
  have p: "p = parent_dir p @ CHR ''/'' # base_name p" "name_ok (base_name p)" "parent_dir p = [] \<or> wf_path (parent_dir p)"
    using wf_path_parts [OF assms(1)] by auto
  have "length (base_name p @ s) \<noteq> length x" if "length x \<le> 2" for x :: string using assms(3) that by simp
  then have "base_name p @ s \<noteq> x" if "length x \<le> 2" for x using that by metis
  from this [of "[]"] this [of "''.''"] this [of "''..''"] have n: "name_ok (base_name p @ s)"
    using p(2) assms(2) by (simp add: name_ok_def)
  then have "wf_path (parent_dir p @ CHR ''/'' # (base_name p @ s))"
    using p(3) name_ok_free [OF n] by (subst wf_path_snoc) simp_all
  then show ?thesis using p(1) by (metis append.assoc append_Cons)
qed

lemma keeps_gateway_download [keeps]: "wf_path dest \<Longrightarrow> keeps_card (gateway_download net url dest ex cb)"
  using keeps_curl_download wf_path_suffix [of dest "''.part''"]
  by (simp add: gateway_download_def keeps_card_def)

section \<open>Extraction\<close>

lemma keeps_extract_file [keeps]: "wf_path dest \<Longrightarrow> keeps_card (extract_file lib archive entry dest)"
  unfolding extract_file_def by (intro keeps)

lemma wf_zip_parentOf:
  assumes "wf_path p"
  shows "zip_parentOf p = [] \<or> wf_path (zip_parentOf p)"
proof -
  have p: "p = parent_dir p @ CHR ''/'' # base_name p" "CHR ''/'' \<notin> set (base_name p)"
    using parent_base [OF wf_path_slash [OF assms]] by auto
  have "takeWhile (\<lambda>c. c \<noteq> CHR ''/'') (rev p) = rev (base_name p)" by (simp add: base_name_def)
  moreover have "length p - 1 - length (base_name p) = length (parent_dir p)" using arg_cong [OF p(1), of length] by simp
  moreover have "take (length (parent_dir p)) p = parent_dir p" using p(1) by (metis append_eq_conv_conj)
  ultimately have "zip_parentOf p = parent_dir p"
    using wf_path_slash [OF assms] by (simp add: zip_parentOf_def Let_def)
  then show ?thesis using wf_path_parts(3) [OF assms] by simp
qed

lemma keeps_carry_out:
  assumes "\<And>e d. (e, d) \<in> set plan \<Longrightarrow> action d = CreateDirectory \<Longrightarrow> dir_path (destination d)"
    and "\<And>e d. (e, d) \<in> set plan \<Longrightarrow> action d = Write \<Longrightarrow> wf_path (destination d)"
    and "\<And>e d. (e, d) \<in> set plan \<Longrightarrow> action d \<noteq> Reject"
  shows "keeps_card (carry_out lib archive cb i n plan report)"
  using assms
proof (induction plan arbitrary: i report)
  case (Cons x plan)
  obtain entry d where x: "x = (entry, d)" by (cases x)
  have IH [keeps]: "keeps_card (carry_out lib archive cb j n plan rep)" for j rep
    using Cons.prems by (intro Cons.IH) (meson list.set_intros(2))+
  have made: "dir_path (destination d)" if "action d = CreateDirectory" using Cons.prems(1) [of entry d] x that by simp
  have target: "wf_path (destination d)" if "action d \<noteq> SkipPreserved" "action d \<noteq> CreateDirectory"
    using Cons.prems(2, 3) [of entry d] x that by (cases "action d") auto
  then have parent: "zip_parentOf (destination d) = [] \<or> dir_path (zip_parentOf (destination d))"
    if "action d \<noteq> SkipPreserved" "action d \<noteq> CreateDirectory"
    using wf_zip_parentOf that by (auto simp: dir_path_def)
  show ?case
    unfolding x carry_out.simps zip_makeDirectories_def Let_def
    by (intro keeps) (use made parent in \<open>auto intro: keeps target\<close>)
qed (simp add: keeps)

text \<open>Where the entries of an archive go, below a proper root.\<close>

lemma safe_names:
  assumes "list_all safe_char s" and "list_all safe_component (split_on CHR ''/'' s)"
  shows "list_all name_ok (split_on CHR ''/'' s)"
proof -
  have "name_ok n" if "n \<in> set (split_on CHR ''/'' s)" for n
  proof -
    have "safe_char c" if "c \<in> set n" for c
      using assms(1) split_on_part_subset [OF \<open>n \<in> _\<close>] that by (auto simp: list_all_iff)
    moreover have "isControl CHR 0x0A" by (simp add: isControl_def)
    moreover have "CHR ''/'' \<notin> set n" using that by (rule split_on_parts_free)
    moreover have "safe_component n" using assms(2) that by (simp add: list_all_iff)
    ultimately show ?thesis by (auto simp: name_ok_def safe_component_def safe_char_def list_all_iff)
  qed
  then show ?thesis by (simp add: list_all_iff)
qed

lemma resolved_path:
  assumes "wf_path root" and "resolveUnder root entry = Inr p"
  shows "p = root @ CHR ''/'' # entry" and "if last entry = CHR ''/'' then dir_path p else wf_path p"
proof -
  have "stripTrailingSlashes root = root"
    using wf_path_last [OF assms(1)] by (subst stripTrailingSlashes.simps) simp
  then show p: "p = root @ CHR ''/'' # entry"
    using assms wf_path_last [OF assms(1)] by (simp add: resolveUnder_Inr_iff glue_def)
  let ?body = "dropOneSlash entry"
  have safe: "safe_entry entry" using assms(2) by (simp add: resolveUnder_Inr_iff)
  have "set ?body \<subseteq> set entry" by (auto simp: dropOneSlash_def dest: in_set_butlastD)
  then have "list_all safe_char ?body" using safe by (auto simp: safe_entry_def list_all_iff)
  then have "wf_path (root @ CHR ''/'' # ?body)"
    using safe safe_names assms(1) by (simp add: wf_path_append safe_entry_def)
  moreover have "entry = ?body @ ''/''" if "last entry = CHR ''/''"
    using that safe append_butlast_last_id [of entry] by (auto simp: dropOneSlash_def safe_entry_def)
  ultimately show "if last entry = CHR ''/'' then dir_path p else wf_path p"
    unfolding p dir_path_def by (auto simp: dropOneSlash_def)
qed

lemma keeps_extractZip [keeps]:
  assumes "wf_path (m_root policy)"
  shows "keeps_card (extractZip lib path policy limit cb)"
proof -
  have "keeps_card (carry_out lib archive cb 0 n (plan_entries policy entries) report)"
    if "\<not> refused (plan_entries policy entries)" for archive n entries report
  proof (rule keeps_carry_out)
    fix e d assume ed: "(e, d) \<in> set (plan_entries policy entries)"
    show sound: "action d \<noteq> Reject" using that ed by (auto simp: refused_def list_ex_iff)
    have d: "d = decide policy (entry_name e)" using ed by (auto simp: plan_entries_def)
    have r: "resolveUnder (m_root policy) (entry_name e) = Inr (destination d)"
      using sound d decide_resolved by metis
    then have "entry_name e \<noteq> []" by (auto simp: resolveUnder_Inr_iff safe_entry_def)
    then have "(action d = CreateDirectory \<longrightarrow> last (entry_name e) = CHR ''/'') \<and>
        (action d = Write \<longrightarrow> last (entry_name e) \<noteq> CHR ''/'')"
      unfolding d by (auto simp: decide_def Let_def empty_decision_def split: sum.splits if_splits)
    then show "action d = CreateDirectory \<Longrightarrow> dir_path (destination d)"
      and "action d = Write \<Longrightarrow> wf_path (destination d)"
      using resolved_path(2) [OF assms r] by auto
  qed
  then show ?thesis unfolding extractZip_def Let_def by (intro keeps)
qed

lemma write_target_below:
  assumes "wf_path (m_root policy)" and "q \<in> write_targets lib policy archive"
  shows "ancestor (m_root policy) q"
proof -
  from assms(2) obtain e :: ZipEntry where q: "q = destination (decide policy (entry_name e))"
    and "writes (decide policy (entry_name e))" unfolding write_targets_def by blast
  then have "action (decide policy (entry_name e)) \<noteq> Reject" by (auto simp: writes_def)
  then have "resolveUnder (m_root policy) (entry_name e) = Inr q" using q by (simp add: decide_resolved)
  then show ?thesis using resolved_path(1) [OF assms(1)] by (auto simp: ancestor_def)
qed

end
