(* ===== verification/Spec2Isabelle.thy ===== *)
theory Spec2Isabelle
  imports Extraction_Policy Sha256_Vectors Swap Update_Policy Manifest_Cache Url Firmware_Set Merge_Marker Catalog Text_Utils
    Curl_Client Zip_Extractor Cfw_Gaps Update_Check Update_Flow Catalog_Fetch Firmware_Install Card_Keeps
begin

text \<open>
  NSX-Manager: a verification development of the application's core.
\<close>

end
